(* ===== verification/Net_Prelude.thy ===== *)
theory Net_Prelude
  imports Main "HOL-Library.Word"
begin

text \<open>
  Shared vocabulary of the development: the machine integer types of the C sources, the ways a C
  computation can stop without a value, the sequencing of such computations, the memory image of
  an integer on the little-endian host the program is built for (x86-64, as its Makefile and its
  use of 64-bit pointers assume), and generic facts about lists.
\<close>

section \<open>Machine integers\<close>

type_synonym u8 = "8 word"
type_synonym u16 = "16 word"
type_synonym u32 = "32 word"
type_synonym u64 = "64 word"

text \<open>A C string or buffer is the list of its bytes; a string literal is written \<open>cstr ''..''\<close>.\<close>

type_synonym bytes = "u8 list"

definition cstr :: "string \<Rightarrow> bytes" where
  "cstr s = map of_char s"

lemma length_cstr [simp]: "length (cstr s) = length s"
  by (simp add: cstr_def)

lemma cstr_Nil [simp]: "cstr [] = []"
  by (simp add: cstr_def)

lemma cstr_Cons [simp]: "cstr (c # s) = of_char c # cstr s"
  by (simp add: cstr_def)

text \<open>The bounds of the 32-bit \<open>int\<close> of the sources.\<close>

abbreviation INT_MAX :: int where "INT_MAX \<equiv> 2147483647"
abbreviation INT_MIN :: int where "INT_MIN \<equiv> -2147483648"

lemma sint_small:
  assumes "unat (w :: u32) < 2 ^ 31"
  shows "sint w = int (unat w)"
proof -
  have "int (unat w) < int (2 ^ 31)" using assms by (simp only: of_nat_less_iff)
  then have "uint w < 2 ^ 31" by (simp only: of_nat_power of_nat_numeral uint_nat [symmetric] of_nat_unat)
  moreover have "- (2 ^ 31) \<le> uint w" by (rule order_trans [of _ 0]) simp_all
  ultimately have "signed_take_bit 31 (uint w) = uint w"
    by (rule signed_take_bit_int_eq_self [rotated])
  then show ?thesis by (simp add: sint_uint)
qed

section \<open>Computations that may stop\<close>

text \<open>
  \<open>Exit\<close> is \<open>exit(1)\<close> (the action of \<open>syscallerr\<close> on a failed call), \<open>Fault\<close> is undefined
  behaviour with its cause (\<open>Indeterminate\<close>: a pointer or value that was never set, or read as another union member), \<open>Deadlock\<close> a wait for a mutex that the waiting side itself never
  releases, and \<open>Diverge\<close> a loop that never ends.
\<close>

datatype fault = NullDeref | OutOfBounds | Indeterminate | DoubleFree | IntOverflow

datatype stop = Exit | Fault fault | Deadlock | Diverge

type_synonym 'a res = "stop + 'a"

definition rbind :: "'a res \<Rightarrow> ('a \<Rightarrow> 'b res) \<Rightarrow> 'b res" where
  "rbind r f = (case r of Inl e \<Rightarrow> Inl e | Inr x \<Rightarrow> f x)"

lemma rbind_Inl [simp]: "rbind (Inl e) f = Inl e"
  by (simp add: rbind_def)

lemma rbind_Inr [simp]: "rbind (Inr x) f = f x"
  by (simp add: rbind_def)

lemma rbind_Inr_right [simp]: "rbind r Inr = r"
  by (simp add: rbind_def split: sum.splits)

lemma rbind_assoc: "rbind (rbind r f) g = rbind r (\<lambda>x. rbind (f x) g)"
  by (simp add: rbind_def split: sum.splits)

lemma rbind_Inr_iff: "rbind r f = Inr y \<longleftrightarrow> (\<exists>x. r = Inr x \<and> f x = Inr y)"
  by (cases r) simp_all

lemma rbind_Inl_iff: "rbind r f = Inl e \<longleftrightarrow> r = Inl e \<or> (\<exists>x. r = Inr x \<and> f x = Inl e)"
  by (cases r) auto

lemma rbind_cong [fundef_cong]:
  "r = r' \<Longrightarrow> (\<And>x. r' = Inr x \<Longrightarrow> f x = f' x) \<Longrightarrow> rbind r f = rbind r' f'"
  by (cases r') simp_all

text \<open>Computations in which no loop runs forever, and that wait forever only if \<open>w\<close> holds.\<close>

definition ends :: "bool \<Rightarrow> 'a res \<Rightarrow> bool" where
  "ends w r \<longleftrightarrow> r \<noteq> Inl Diverge \<and> (r = Inl Deadlock \<longrightarrow> w)"

named_theorems ends_intros

lemma ends_simps [simp]:
  "ends w (Inr x)" "ends w (Inl e) \<longleftrightarrow> e \<noteq> Diverge \<and> (e = Deadlock \<longrightarrow> w)"
  "ends w (if c then r else r') \<longleftrightarrow> (c \<longrightarrow> ends w r) \<and> (\<not> c \<longrightarrow> ends w r')"
  by (simp_all add: ends_def)

lemma ends_rbind [ends_intros]: "ends w r \<Longrightarrow> (\<And>x. r = Inr x \<Longrightarrow> ends w (f x)) \<Longrightarrow> ends w (rbind r f)"
  by (cases r) simp_all

section \<open>The memory image of an integer\<close>

text \<open>
  \<open>mem_bytes n w\<close> is the image of the \<open>n\<close>-byte integer \<open>w\<close> in the memory of a little-endian
  host, \<open>of_mem\<close> the integer that such an image holds.
\<close>

definition mem_bytes :: "nat \<Rightarrow> 'a::len word \<Rightarrow> bytes" where
  "mem_bytes n w = map (\<lambda>i. ucast (drop_bit (8 * i) w)) [0..<n]"

fun of_mem :: "bytes \<Rightarrow> 'a::len word" where
  "of_mem [] = 0"
| "of_mem (b # bs) = or (ucast b) (push_bit 8 (of_mem bs))"

lemma length_mem_bytes [simp]: "length (mem_bytes n w) = n"
  by (simp add: mem_bytes_def)

lemma mem_bytes_nonempty [simp]: "mem_bytes n w = [] \<longleftrightarrow> n = 0"
  by (metis length_0_conv length_mem_bytes)

lemma mem_bytes_nth: "i < n \<Longrightarrow> mem_bytes n w ! i = ucast (drop_bit (8 * i) w)"
  by (simp add: mem_bytes_def)

lemma bit_of_mem:
  "bit (of_mem bs :: 'a::len word) k \<longleftrightarrow>
     k < LENGTH('a) \<and> k div 8 < length bs \<and> bit (bs ! (k div 8)) (k mod 8)"
proof (induction bs arbitrary: k)
  case Nil
  then show ?case by simp
next
  case (Cons b bs)
  show ?case
  proof (cases "k < 8")
    case True
    then show ?thesis by (auto simp: bit_simps)
  next
    case False
    then obtain j where j: "k = j + 8" by (metis add.commute le_Suc_ex not_less)
    then have "k div 8 = Suc (j div 8)" "k mod 8 = j mod 8" by simp_all
    with j Cons.IH[of j] show ?thesis
      by (auto simp: bit_simps dest: bit_imp_le_length)
  qed
qed

lemma of_mem_mem_bytes:
  fixes w :: "'a::len word"
  assumes "8 * n = LENGTH('a)"
  shows "of_mem (mem_bytes n w) = w"
proof (rule bit_word_eqI)
  fix k assume "k < LENGTH('a)"
  with assms have "k div 8 < n" by simp
  then show "bit (of_mem (mem_bytes n w) :: 'a word) k \<longleftrightarrow> bit w k"
    using \<open>k < LENGTH('a)\<close> by (simp add: bit_of_mem mem_bytes_nth bit_simps)
qed

lemma mem_bytes_of_mem:
  assumes "length bs = n" and "8 * n = LENGTH('a)"
  shows "mem_bytes n (of_mem bs :: 'a::len word) = bs"
proof (rule nth_equalityI)
  show "length (mem_bytes n (of_mem bs :: 'a word)) = length bs" using assms by simp
next
  fix i assume "i < length (mem_bytes n (of_mem bs :: 'a word))"
  then have i: "i < n" by simp
  show "mem_bytes n (of_mem bs :: 'a word) ! i = bs ! i"
  proof (rule bit_word_eqI)
    fix k assume k: "k < LENGTH(8)"
    with i assms have "8 * i + k < LENGTH('a)" by simp
    with i k assms show "bit (mem_bytes n (of_mem bs :: 'a word) ! i) k \<longleftrightarrow> bit (bs ! i) k"
      by (simp add: mem_bytes_nth bit_simps bit_of_mem)
  qed
qed

section \<open>C strings\<close>

text \<open>
  \<open>strndup(p, n)\<close> copies at most \<open>n\<close> bytes and stops at a NUL; reading past the end of the
  object \<open>p\<close> points to is undefined behaviour.
\<close>

definition strndup :: "bytes \<Rightarrow> u32 \<Rightarrow> bytes res" where
  "strndup p n =
     (if unat n \<le> length p \<or> 0 \<in> set p then Inr (takeWhile (\<lambda>c. c \<noteq> 0) (take (unat n) p))
      else Inl (Fault OutOfBounds))"

lemma strndup_exact:
  "unat n = length p \<Longrightarrow> 0 \<notin> set p \<Longrightarrow> strndup p n = Inr p"
  by (simp add: strndup_def takeWhile_eq_all_conv) (metis takeWhile_eq_all_conv)

lemma strndup_no_NUL: "strndup p n = Inr s \<Longrightarrow> 0 \<notin> set s"
  by (auto simp: strndup_def split: if_splits dest: set_takeWhileD)

lemma ends_strndup [ends_intros]: "ends w (strndup p n)"
  by (simp add: strndup_def)

lemma strndup_zero [simp]: "strndup p 0 = Inr []"
  by (simp add: strndup_def)

end
