(* ===== verification/Byteorder.thy ===== *)
theory Byteorder
  imports Net_Prelude
begin

text \<open>
  Byte order conversion: \<open>swap64\<close>, \<open>htonll\<close> and \<open>ntohll\<close> of \<^verbatim>\<open>src/src/protomsg.c\<close> over the
  C library's \<open>htons\<close> and \<open>htonl\<close>, which on a little-endian host reverse the bytes of their
  argument. The wire image of a field is the memory image of its converted value; the lemmas show
  that it is the big-endian one the protocol documents, for every width, and that the conversions
  of sender and receiver cancel.
\<close>

unbundle bit_operations_syntax

section \<open>The C library's conversions on a little-endian host\<close>

definition htons :: "u16 \<Rightarrow> u16" where
  "htons w = of_mem (rev (mem_bytes 2 w))"

definition htonl :: "u32 \<Rightarrow> u32" where
  "htonl w = of_mem (rev (mem_bytes 4 w))"

abbreviation "ntohs \<equiv> htons"
abbreviation "ntohl \<equiv> htonl"

section \<open>The conversions of protomsg.c\<close>

definition swap64 :: "u64 \<Rightarrow> u64" where
  "swap64 val64 =
     (let low = ucast (val64 AND 0xffffffff) :: u32;
          high = ucast (drop_bit 32 val64) :: u32
      in push_bit 32 (ucast (htonl low)) OR ucast (htonl high))"

definition ntohll :: "u64 \<Rightarrow> u64" where
  "ntohll net64 = swap64 net64"

definition htonll :: "u64 \<Rightarrow> u64" where
  "htonll host64 = swap64 host64"

section \<open>The wire image\<close>

lemma wire_htons: "mem_bytes 2 (htons w) = rev (mem_bytes 2 w)"
  by (simp add: htons_def mem_bytes_of_mem)

lemma wire_htonl: "mem_bytes 4 (htonl w) = rev (mem_bytes 4 w)"
  by (simp add: htonl_def mem_bytes_of_mem)

lemma htons_htons [simp]: "htons (htons w) = w"
  unfolding htons_def [of "htons w"] by (simp add: wire_htons of_mem_mem_bytes)

lemma htonl_htonl [simp]: "htonl (htonl w) = w"
  unfolding htonl_def [of "htonl w"] by (simp add: wire_htonl of_mem_mem_bytes)

lemma bit_htonl:
  "bit (htonl w) k \<longleftrightarrow> k < 32 \<and> bit w (8 * (3 - k div 8) + k mod 8)"
proof -
  have "k < 32 \<Longrightarrow> 3 - k div 8 < 4" by simp
  then show ?thesis
    by (auto simp: htonl_def bit_of_mem rev_nth mem_bytes_nth bit_simps add.commute
        less_mult_imp_div_less)
qed

lemma mem_bytes_take: "m \<le> n \<Longrightarrow> take m (mem_bytes n w) = mem_bytes m w"
  by (simp add: mem_bytes_def take_map)

lemma bit_swap64:
  "bit (swap64 w) k \<longleftrightarrow> k < 64 \<and> bit w (8 * (7 - k div 8) + k mod 8)"
proof (cases "k < 32")
  case True
  then have "k div 8 < 4" by (simp add: less_mult_imp_div_less)
  then have "8 * (7 - k div 8) + k mod 8 = 32 + (8 * (3 - k div 8) + k mod 8)" by simp
  moreover have "8 * (3 - k div 8) + k mod 8 < 32" by simp
  ultimately show ?thesis using True
    by (simp add: swap64_def Let_def bit_simps bit_htonl ac_simps)
next
  case False
  show ?thesis
  proof (cases "k < 64")
    case True
    have mask: "(0xffffffff :: u64) = mask 32" by (simp add: mask_eq_exp_minus_1)
    from False True obtain j where j: "k = 32 + j" "j < 32"
      by (metis add_diff_inverse_nat less_diff_conv2 linorder_not_less numeral_Bit0)
    then have "k div 8 = 4 + j div 8" "k mod 8 = j mod 8" "j div 8 < 4"
      using div_mult_self1[of 8 j 4] mod_mult_self1[of j 4 8]
      by (simp_all add: add.commute less_mult_imp_div_less)
    then have "8 * (7 - k div 8) + k mod 8 = 8 * (3 - j div 8) + j mod 8" by simp
    moreover have "8 * (3 - j div 8) + j mod 8 < 32" by simp
    ultimately show ?thesis using j
      by (simp add: swap64_def Let_def bit_simps bit_htonl mask)
  next
    case False
    then show ?thesis by (simp add: bit_simps swap64_def)
  qed
qed

lemma wire_swap64: "mem_bytes 8 (swap64 w) = rev (mem_bytes 8 w)"
proof (rule nth_equalityI)
  show "length (mem_bytes 8 (swap64 w)) = length (rev (mem_bytes 8 w))" by simp
next
  fix i assume "i < length (mem_bytes 8 (swap64 w))"
  then have i: "i < 8" by simp
  show "mem_bytes 8 (swap64 w) ! i = rev (mem_bytes 8 w) ! i"
  proof (rule bit_word_eqI)
    fix k assume "k < LENGTH(8)"
    then have "(8 * i + k) div 8 = i" "(8 * i + k) mod 8 = k" "8 * i + k < 64"
      using i by simp_all
    then show "bit (mem_bytes 8 (swap64 w) ! i) k = bit (rev (mem_bytes 8 w) ! i) k"
      using i by (simp add: mem_bytes_nth rev_nth bit_simps bit_swap64)
  qed
qed

lemma mem8_inverse: "of_mem (mem_bytes 8 w) = (w :: u64)"
  by (simp add: of_mem_mem_bytes)

lemma wire_htonll: "mem_bytes 8 (htonll w) = rev (mem_bytes 8 w)"
  by (simp add: htonll_def wire_swap64)

lemma ntohll_of_wire: "ntohll (of_mem (rev (mem_bytes 8 w))) = w"
proof -
  have "mem_bytes 8 (ntohll (of_mem (rev (mem_bytes 8 w)))) = mem_bytes 8 w"
    by (simp add: ntohll_def wire_swap64 mem_bytes_of_mem)
  then show ?thesis by (metis mem8_inverse)
qed

lemma ntohl_of_wire: "ntohl (of_mem (rev (mem_bytes 4 w))) = w"
  by (simp flip: htonl_def)

lemma ntohs_of_wire: "ntohs (of_mem (rev (mem_bytes 2 w))) = w"
  by (simp flip: htons_def)

text \<open>
  C27. The 64-bit conversion, which the sources build from two 32-bit ones, is the full byte
  reversal: the wire image of a converted identifier is its big-endian byte sequence, and the
  receiver's \<open>ntohll\<close> undoes the sender's \<open>htonll\<close>.
\<close>

theorem htonll_big_endian:
  "mem_bytes 8 (htonll w) = rev (mem_bytes 8 w) \<and> ntohll (htonll w) = w"
proof -
  have "htonll w = of_mem (rev (mem_bytes 8 w))"
    by (metis mem8_inverse wire_htonll)
  then show ?thesis by (metis wire_htonll ntohll_of_wire)
qed

end
