(* ===== verification/Sockets.thy ===== *)
theory Sockets
  imports Net_Prelude
begin

text \<open>
  Stream sockets as the sources use them. What \<open>read(2)\<close> returns is decided by the network, not
  by the program: the incoming side of a connection is the list of the pieces in which the bytes
  arrive, and a read returns bytes of the first piece only, at most as many as asked for, so a
  field may well arrive in several reads. Readers that may fail are functions from the stream to
  an optional value and the rest of the stream. The locale \<open>wire_codec\<close> is the contract between
  an encoder, given as the list of the fields it writes, and the reader of the same data.
\<close>

section \<open>Reading from a stream\<close>

text \<open>The pieces still to come; when none is left the peer has closed its side.\<close>

type_synonym stream = "bytes list"

fun rd :: "nat \<Rightarrow> stream \<Rightarrow> bytes \<times> stream" where
  "rd n [] = ([], [])"
| "rd n (c # cs) =
     (if n = 0 then ([], c # cs) else if c = [] then rd n cs else (take n c, drop n c # cs))"

definition stream_size :: "stream \<Rightarrow> nat" where
  "stream_size rx = length (concat rx)"

lemma rd_0 [simp]: "rd 0 rx = ([], rx)"
  by (cases rx) simp_all

lemma rd_size: "rd n rx = (bs, rx') \<Longrightarrow> stream_size rx = length bs + stream_size rx'"
  by (induction n rx rule: rd.induct) (auto simp: stream_size_def split: if_splits)

lemma rd_concat: "rd n rx = (bs, rx') \<Longrightarrow> concat rx = bs @ concat rx'"
  by (induction n rx rule: rd.induct) (auto split: if_splits)

lemma rd_length: "rd n rx = (bs, rx') \<Longrightarrow> length bs \<le> n"
  by (induction n rx rule: rd.induct) (auto split: if_splits)

lemma rd_empty: "rd n rx = ([], rx') \<Longrightarrow> n = 0 \<or> concat rx = []"
  by (induction n rx rule: rd.induct) (auto split: if_splits)

lemma rd_whole: "f \<noteq> [] \<Longrightarrow> rd (length f) ((f @ c) # cs) = (f, c # cs)"
  by simp

section \<open>Writing\<close>

text \<open>
  What the writes to a descriptor return is decided by the system: \<open>wr i n\<close> is the result of the
  \<open>i\<close>-th write, of \<open>n\<close> bytes, after the repetitions of \<open>NO_INTR\<close>; a negative result is a failure, and
  no write takes more than it is given.
\<close>

type_synonym writes = "nat \<Rightarrow> nat \<Rightarrow> int"

definition whole :: "writes \<Rightarrow> bool" where
  "whole wr \<longleftrightarrow> (\<forall>i n. int n \<le> wr i n)"

lemma whole_shift [simp]: "whole wr \<Longrightarrow> whole (\<lambda>j. wr (i + j))"
  by (simp add: whole_def)

lemma whole_int [simp]: "whole (\<lambda>_. int)"
  by (simp add: whole_def)

section \<open>Readers that may fail\<close>

type_synonym 'a rdr = "stream \<Rightarrow> 'a option \<times> stream"

definition rdr_return :: "'a \<Rightarrow> 'a rdr" where
  "rdr_return x rx = (Some x, rx)"

definition rdr_fail :: "'a rdr" where
  "rdr_fail rx = (None, rx)"

definition rdr_bind :: "'a rdr \<Rightarrow> ('a \<Rightarrow> 'b rdr) \<Rightarrow> 'b rdr" where
  "rdr_bind m f rx = (case m rx of (None, rx') \<Rightarrow> (None, rx') | (Some x, rx') \<Rightarrow> f x rx')"

fun rdr_times :: "nat \<Rightarrow> 'a rdr \<Rightarrow> 'a list rdr" where
  "rdr_times 0 m = rdr_return []"
| "rdr_times (Suc n) m = rdr_bind m (\<lambda>x. rdr_bind (rdr_times n m) (\<lambda>xs. rdr_return (x # xs)))"

text \<open>A reader never gives bytes back to the stream.\<close>

definition consuming :: "'a rdr \<Rightarrow> bool" where
  "consuming m \<longleftrightarrow> (\<forall>rx. stream_size (snd (m rx)) \<le> stream_size rx)"

named_theorems consuming_intros

lemma consumingD: "consuming m \<Longrightarrow> m rx = (r, rx') \<Longrightarrow> stream_size rx' \<le> stream_size rx"
  by (metis consuming_def snd_conv)

lemma consuming_return [consuming_intros]: "consuming (rdr_return x)"
  by (simp add: consuming_def rdr_return_def)

lemma consuming_fail [consuming_intros]: "consuming rdr_fail"
  by (simp add: consuming_def rdr_fail_def)

lemma consuming_bind [consuming_intros]:
  assumes "consuming m" and "\<And>x. consuming (f x)"
  shows "consuming (rdr_bind m f)"
  unfolding consuming_def
proof
  fix rx
  obtain r rx' where m: "m rx = (r, rx')" by fastforce
  with assms(1) have le: "stream_size rx' \<le> stream_size rx" by (rule consumingD)
  show "stream_size (snd (rdr_bind m f rx)) \<le> stream_size rx"
  proof (cases r)
    case None
    with m le show ?thesis by (simp add: rdr_bind_def)
  next
    case (Some x)
    have "stream_size (snd (f x rx')) \<le> stream_size rx'"
      using assms(2) by (simp add: consuming_def)
    with m le Some show ?thesis by (simp add: rdr_bind_def)
  qed
qed

lemma consuming_times [consuming_intros]: "consuming m \<Longrightarrow> consuming (rdr_times n m)"
  by (induction n) (auto intro!: consuming_intros)

section \<open>Fields delivered whole\<close>

text \<open>
  \<open>delivers fs rx rx'\<close>: each field of \<open>fs\<close> comes out of the stream in a single read, and \<open>rx'\<close>
  is what is left. It is what the receiver of a message relies on.
\<close>

fun delivers :: "bytes list \<Rightarrow> stream \<Rightarrow> stream \<Rightarrow> bool" where
  "delivers [] rx rx' \<longleftrightarrow> rx' = rx"
| "delivers (f # fs) rx rx' \<longleftrightarrow>
     fst (rd (length f) rx) = f \<and> delivers fs (snd (rd (length f) rx)) rx'"

lemma delivers_append:
  "delivers (fs @ gs) rx rx'' \<longleftrightarrow> (\<exists>rx'. delivers fs rx rx' \<and> delivers gs rx' rx'')"
  by (induction fs arbitrary: rx) auto

lemma delivers_one_piece:
  "[] \<notin> set fs \<Longrightarrow> delivers fs ((concat fs @ c) # cs) (c # cs)"
proof (induction fs)
  case Nil
  then show ?case by simp
next
  case (Cons f fs)
  then show ?case using rd_whole[of f "concat fs @ c" cs] by simp
qed

lemma delivers_pieces:
  assumes "\<And>fs. fs \<in> set fss \<Longrightarrow> [] \<notin> set fs"
  shows "\<exists>rx'. delivers (concat fss) (map concat fss @ cs) rx' \<and> concat rx' = concat cs"
  using assms
proof (induction fss)
  case Nil
  then show ?case by auto
next
  case (Cons fs fss)
  then obtain rx' where IH: "delivers (concat fss) (map concat fss @ cs) rx'" "concat rx' = concat cs"
    by auto
  have skip: "\<exists>rx''. delivers gs ([] # rx) rx'' \<and> concat rx'' = concat rx'"
    if "delivers gs rx rx'" "[] \<notin> set gs" for gs rx rx'
    using that by (cases gs) auto
  have "delivers fs ((concat fs @ []) # map concat fss @ cs) ([] # map concat fss @ cs)"
    by (rule delivers_one_piece) (simp add: Cons.prems)
  moreover obtain rx'' where "delivers (concat fss) ([] # map concat fss @ cs) rx''"
      "concat rx'' = concat cs"
    using skip[OF IH(1)] IH(2) Cons.prems by auto
  ultimately show ?case by (auto simp: delivers_append)
qed

text \<open>
  The contract of an encoder and the reader of its fields: on a stream that delivers the fields of
  \<open>x\<close> the reader returns \<open>x\<close> and leaves the rest. Readers run one after another inherit it.
\<close>

locale wire_codec =
  fixes enc :: "'a \<Rightarrow> bytes list" and dec :: "'a rdr" and ok :: "'a \<Rightarrow> bool"
  assumes dec_enc: "ok x \<Longrightarrow> delivers (enc x) rx rx' \<Longrightarrow> dec rx = (Some x, rx')"
begin

lemma bind_enc:
  assumes "delivers (enc x @ fs) rx rx''" and "ok x"
    and "\<And>rx'. delivers fs rx' rx'' \<Longrightarrow> f x rx' = r"
  shows "rdr_bind dec f rx = r"
proof -
  from assms(1) obtain rx' where "delivers (enc x) rx rx'" "delivers fs rx' rx''"
    by (auto simp: delivers_append)
  with dec_enc[OF assms(2)] assms(3) show ?thesis by (auto simp: rdr_bind_def)
qed

lemma times_enc:
  "\<forall>x \<in> set xs. ok x \<Longrightarrow> delivers (concat (map enc xs)) rx rx' \<Longrightarrow>
     rdr_times (length xs) dec rx = (Some xs, rx')"
proof (induction xs arbitrary: rx)
  case Nil
  then show ?case by (simp add: rdr_return_def)
next
  case (Cons x xs)
  then obtain rx1 where "delivers (enc x) rx rx1" "delivers (concat (map enc xs)) rx1 rx'"
    by (auto simp: delivers_append)
  with Cons show ?case by (auto simp: rdr_bind_def rdr_return_def dest: dec_enc)
qed

end

text \<open>A codec whose data is one field.\<close>

locale field_codec =
  fixes enc1 :: "'a \<Rightarrow> bytes" and dec :: "'a rdr" and ok :: "'a \<Rightarrow> bool"
  assumes dec_enc1: "ok x \<Longrightarrow> delivers [enc1 x] rx rx' \<Longrightarrow> dec rx = (Some x, rx')"

sublocale field_codec \<subseteq> wire_codec "\<lambda>x. [enc1 x]" dec ok
  by unfold_locales (rule dec_enc1)

context field_codec
begin

lemma bind_field:
  assumes "delivers (enc1 x # fs) rx rx''" and "ok x"
    and "\<And>rx'. delivers fs rx' rx'' \<Longrightarrow> f x rx' = r"
  shows "rdr_bind dec f rx = r"
  using assms by (intro bind_enc [of x fs rx rx'']) simp_all

end

text \<open>
  A read of one field: the bytes that arrive overwrite the first bytes of the destination, whose
  previous contents are \<open>old\<close>; the caller fails when \<open>read\<close> returns nothing (end of stream, an
  error, or a field of length 0), and takes any other count for the whole field.
\<close>

definition rd_field :: "bytes \<Rightarrow> bytes rdr" where
  "rd_field old rx =
     (let (got, rx') = rd (length old) rx
      in if got = [] then (None, rx') else (Some (got @ drop (length got) old), rx'))"

lemma rd_field_consuming [consuming_intros]: "consuming (rd_field old)"
  unfolding consuming_def
  by (auto simp: rd_field_def Let_def dest: rd_size split: prod.splits)

lemma rd_field_decreasing:
  assumes "rd_field old rx = (Some bs, rx')"
  shows "stream_size rx' < stream_size rx"
proof -
  obtain got rx1 where "rd (length old) rx = (got, rx1)" by fastforce
  then show ?thesis using assms rd_size[of "length old" rx got rx1]
    by (auto simp: rd_field_def split: if_splits)
qed

lemma rd_field_length: "rd_field old rx = (Some bs, rx') \<Longrightarrow> length bs = length old"
  by (auto simp: rd_field_def split: prod.splits if_splits dest: rd_length)

lemma rd_field_delivers:
  assumes "length f = length old" and "f \<noteq> []" and "delivers [f] rx rx'"
  shows "rd_field old rx = (Some f, rx')"
  using assms by (auto simp: rd_field_def split: prod.splits)

end
