(* ===== verification/Protomsg.thy ===== *)
theory Protomsg
  imports Net_Prelude
begin

text \<open>
  The message format shared by the three protocols (\<^verbatim>\<open>src/src/protomsg.h\<close> and the construction
  and copying functions of \<^verbatim>\<open>src/src/protomsg.c\<close>): section types, protocols, error codes, the
  union \<open>section_data\<close> with the reads of one of its members through another, messages, and the
  functions that create, extend and copy them. A pointer to a block of memory is the list of the
  bytes of the block; the NULL-terminated array \<open>sections\<close> is the list of the sections before the
  NULL. Memory is taken to be always available, and releasing it (\<open>fsmsg_free\<close>) has no effect on
  the values modelled here.
\<close>

unbundle bit_operations_syntax

section \<open>Constants\<close>

definition ST_NONEXT :: u16 where "ST_NONEXT = 0"
definition ST_INTEGER :: u16 where "ST_INTEGER = 1"
definition ST_STRING :: u16 where "ST_STRING = 2"
definition ST_BINARY :: u16 where "ST_BINARY = 3"
definition ST_FILEINFO :: u16 where "ST_FILEINFO = 4"

lemmas section_types = ST_NONEXT_def ST_INTEGER_def ST_STRING_def ST_BINARY_def ST_FILEINFO_def

datatype fsmsg_protocol = FAP | DCP | FCTP

definition ERR_FILENOTFOUND :: u32 where "ERR_FILENOTFOUND = 1"
definition ERR_EXISTS :: u32 where "ERR_EXISTS = 2"
definition ERR_MSG :: u32 where "ERR_MSG = 9"

section \<open>Sections\<close>

record raw_sect =
  rs_length :: u32
  rs_data :: bytes

text \<open>
  \<open>fi_pad\<close> holds the three padding bytes between the one-byte \<open>type\<close> and \<open>pathlen\<close> (its upper
  byte is not used). They are never set on purpose, but reads through another union member see
  them.
\<close>

record fileinfo_sect =
  fi_type :: u8
  fi_pad :: u32
  fi_pathlen :: u32
  fi_path :: bytes
  fi_usernamelen :: u32
  fi_username :: bytes
  fi_modified :: u32
  fi_size :: u32
  fi_replicas :: u32

text \<open>The union, by the member that was written last; \<open>DUninit\<close> when none was.\<close>

datatype section_data =
    DInteger u32
  | DString raw_sect
  | DBinary raw_sect
  | DFileinfo fileinfo_sect
  | DUninit

record msg_section =
  sec_type :: u16
  sec_data :: section_data

record fsmsg =
  tid :: u64
  ids :: "u64 list"
  msg_type :: u16
  sections :: "msg_section list"

subsection \<open>Reading a union member\<close>

text \<open>
  The members overlap in memory as the x86-64 ABI lays them out: \<open>integer\<close>, \<open>string.length\<close> and
  the type byte with its padding share the first four bytes, \<open>string.data\<close> and \<open>fileinfo.path\<close>
  the eight bytes at offset 8. Reading bytes that the last write did not set is a \<open>Fault\<close>.
\<close>

definition fileinfo_head :: "fileinfo_sect \<Rightarrow> u32" where
  "fileinfo_head f = ucast (fi_type f) OR push_bit 8 (fi_pad f)"

fun un_integer :: "section_data \<Rightarrow> u32 res" where
  "un_integer (DInteger i) = Inr i"
| "un_integer (DString r) = Inr (rs_length r)"
| "un_integer (DBinary r) = Inr (rs_length r)"
| "un_integer (DFileinfo f) = Inr (fileinfo_head f)"
| "un_integer DUninit = Inl (Fault Indeterminate)"

fun un_raw :: "section_data \<Rightarrow> raw_sect res" where
  "un_raw (DInteger i) = Inl (Fault Indeterminate)"
| "un_raw (DString r) = Inr r"
| "un_raw (DBinary r) = Inr r"
| "un_raw (DFileinfo f) = Inr \<lparr>rs_length = fileinfo_head f, rs_data = fi_path f\<rparr>"
| "un_raw DUninit = Inl (Fault Indeterminate)"

fun un_fileinfo :: "section_data \<Rightarrow> fileinfo_sect res" where
  "un_fileinfo (DFileinfo f) = Inr f"
| "un_fileinfo _ = Inl (Fault Indeterminate)"

subsection \<open>Section access by index\<close>

text \<open>
  \<open>m->sections[i]\<close>: the entry after the last section is NULL, and the array ends there.
\<close>

definition sec_at :: "fsmsg \<Rightarrow> nat \<Rightarrow> msg_section res" where
  "sec_at m i =
     (if i < length (sections m) then Inr (sections m ! i)
      else if i = length (sections m) then Inl (Fault NullDeref)
      else Inl (Fault OutOfBounds))"

text \<open>The access macros \<open>SECI\<close>, \<open>SECS\<close>, \<open>SECB\<close>, \<open>SECF\<close> and \<open>SECSDUP\<close>.\<close>

definition SECI :: "fsmsg \<Rightarrow> nat \<Rightarrow> u32 res" where
  "SECI m i = rbind (sec_at m i) (\<lambda>s. un_integer (sec_data s))"

definition SECS :: "fsmsg \<Rightarrow> nat \<Rightarrow> raw_sect res" where
  "SECS m i = rbind (sec_at m i) (\<lambda>s. un_raw (sec_data s))"

definition SECB :: "fsmsg \<Rightarrow> nat \<Rightarrow> raw_sect res" where
  "SECB m i = rbind (sec_at m i) (\<lambda>s. un_raw (sec_data s))"

definition SECF :: "fsmsg \<Rightarrow> nat \<Rightarrow> fileinfo_sect res" where
  "SECF m i = rbind (sec_at m i) (\<lambda>s. un_fileinfo (sec_data s))"

definition SECSDUP :: "fsmsg \<Rightarrow> nat \<Rightarrow> bytes res" where
  "SECSDUP m i = rbind (SECS m i) (\<lambda>r. strndup (rs_data r) (rs_length r))"

lemmas sec_access = SECI_def SECS_def SECB_def SECF_def SECSDUP_def sec_at_def

section \<open>Creating messages and adding sections\<close>

text \<open>The number of identifiers after the transaction id.\<close>

fun idcount :: "fsmsg_protocol \<Rightarrow> nat" where
  "idcount FAP = 3"
| "idcount FCTP = 2"
| "idcount DCP = 2"

text \<open>
  \<open>fsmsg_create\<close> leaves \<open>tid\<close> unset: \<open>t0\<close> stands for what the fresh memory holds. One identifier
  more than the protocol has is allocated.
\<close>

definition fsmsg_create :: "u64 \<Rightarrow> fsmsg_protocol \<Rightarrow> fsmsg" where
  "fsmsg_create t0 protocol =
     \<lparr>tid = t0, ids = replicate (idcount protocol + 1) 0, msg_type = 0, sections = []\<rparr>"

text \<open>\<open>malloc(n)\<close> followed by \<open>memcpy\<close> of \<open>n\<close> bytes from \<open>p\<close>.\<close>

definition copy_bytes :: "bytes \<Rightarrow> u32 \<Rightarrow> bytes res" where
  "copy_bytes p n =
     (if unat n \<le> length p then Inr (take (unat n) p) else Inl (Fault OutOfBounds))"

definition copy_raw :: "raw_sect \<Rightarrow> raw_sect res" where
  "copy_raw r =
     rbind (copy_bytes (rs_data r) (rs_length r)) (\<lambda>d.
     Inr \<lparr>rs_length = rs_length r, rs_data = d\<rparr>)"

definition fsmsg_fileinfo_copy :: "fileinfo_sect \<Rightarrow> fileinfo_sect res" where
  "fsmsg_fileinfo_copy src =
     rbind (copy_bytes (fi_path src) (fi_pathlen src)) (\<lambda>p.
     rbind (copy_bytes (fi_username src) (fi_usernamelen src)) (\<lambda>u.
     Inr (src\<lparr>fi_path := p, fi_username := u\<rparr>)))"

text \<open>
  The data of the section that \<open>fsmsg_add_section\<close> appends. For \<open>ST_FILEINFO\<close> the function copies
  member by member what \<open>fsmsg_fileinfo_copy\<close> copies; the padding of the new structure is
  unspecified, and a message being built is only ever written out member by member.
\<close>

definition copy_data :: "u16 \<Rightarrow> section_data \<Rightarrow> section_data res" where
  "copy_data type data =
     (if type = ST_INTEGER then rbind (un_integer data) (\<lambda>i. Inr (DInteger i))
      else if type = ST_STRING then
        rbind (un_raw data) (\<lambda>r. rbind (copy_raw r) (\<lambda>r'. Inr (DString r')))
      else if type = ST_BINARY then
        rbind (un_raw data) (\<lambda>r. rbind (copy_raw r) (\<lambda>r'. Inr (DBinary r')))
      else if type = ST_FILEINFO then
        rbind (un_fileinfo data) (\<lambda>f. rbind (fsmsg_fileinfo_copy f) (\<lambda>f'. Inr (DFileinfo f')))
      else Inr DUninit)"

text \<open>
  The array grows by \<open>realloc(sections, sizeof(ptr)*sectioncount+1)\<close>, where \<open>sectioncount\<close> counts
  the new section: one byte more than the sections need, where the NULL entry after them needs
  eight. \<open>usable_size\<close> is what the allocator of glibc on x86-64 really provides for a request: blocks
  are multiples of 16 bytes, at least 32, 8 of which are the allocator's.
\<close>

definition add_section_request :: "nat \<Rightarrow> nat" where
  "add_section_request sectioncount = 8 * sectioncount + 1"

definition usable_size :: "nat \<Rightarrow> nat" where
  "usable_size n = max 24 ((n + 23) div 16 * 16 - 8)"

definition fsmsg_add_section :: "fsmsg \<Rightarrow> u16 \<Rightarrow> section_data \<Rightarrow> fsmsg res" where
  "fsmsg_add_section msg type data =
     (let sectioncount = length (sections msg) + 1 in
      if usable_size (add_section_request sectioncount) < 8 * (sectioncount + 1)
      then Inl (Fault OutOfBounds)
      else rbind (copy_data type data) (\<lambda>d.
        Inr (msg\<lparr>sections := sections msg @ [\<lparr>sec_type = type, sec_data = d\<rparr>]\<rparr>)))"

text \<open>The request is short of the NULL for every count, and the allocator's rounding always covers it.\<close>

lemma add_section_request_short:
  "add_section_request n < 8 * (n + 1) \<and> 8 * (n + 1) \<le> usable_size (add_section_request n)"
proof -
  have "8 * n + 16 \<le> (24 + 8 * n) div 16 * 16" by presburger
  then have "8 * n + 8 \<le> (24 + 8 * n) div 16 * 16 - 8" by linarith
  then show ?thesis by (simp add: add_section_request_def usable_size_def add.commute le_max_iff_disj)
qed

lemma fsmsg_add_section_eq:
  "fsmsg_add_section msg type data =
     rbind (copy_data type data) (\<lambda>d.
     Inr (msg\<lparr>sections := sections msg @ [\<lparr>sec_type = type, sec_data = d\<rparr>]\<rparr>))"
  using add_section_request_short [of "length (sections msg) + 1"]
  by (simp add: fsmsg_add_section_def not_less)

text \<open>
  \<open>fsmsg_section_copy\<close>: a shallow copy of the whole structure, then fresh copies of what the type
  says it points to.
\<close>

definition fsmsg_section_copy :: "msg_section \<Rightarrow> msg_section res" where
  "fsmsg_section_copy s =
     (if sec_type s = ST_STRING then
        rbind (un_raw (sec_data s)) (\<lambda>r. rbind (copy_raw r) (\<lambda>r'. Inr (s\<lparr>sec_data := DString r'\<rparr>)))
      else if sec_type s = ST_BINARY then
        rbind (un_raw (sec_data s)) (\<lambda>r. rbind (copy_raw r) (\<lambda>r'. Inr (s\<lparr>sec_data := DBinary r'\<rparr>)))
      else if sec_type s = ST_FILEINFO then
        rbind (un_fileinfo (sec_data s)) (\<lambda>f. rbind (fsmsg_fileinfo_copy f) (\<lambda>f'.
          Inr (s\<lparr>sec_data := DFileinfo f'\<rparr>)))
      else Inr s)"

section \<open>Well-formed sections\<close>

text \<open>
  What construction and reception establish: the union holds the member its type names, and a
  length is the size of the block it goes with.
\<close>

definition raw_ok :: "raw_sect \<Rightarrow> bool" where
  "raw_ok r \<longleftrightarrow> unat (rs_length r) = length (rs_data r)"

definition fileinfo_ok :: "fileinfo_sect \<Rightarrow> bool" where
  "fileinfo_ok f \<longleftrightarrow>
     unat (fi_pathlen f) = length (fi_path f) \<and> unat (fi_usernamelen f) = length (fi_username f)"

fun data_ok :: "u16 \<Rightarrow> section_data \<Rightarrow> bool" where
  "data_ok t (DInteger i) \<longleftrightarrow> t = ST_INTEGER"
| "data_ok t (DString r) \<longleftrightarrow> t = ST_STRING \<and> raw_ok r"
| "data_ok t (DBinary r) \<longleftrightarrow> t = ST_BINARY \<and> raw_ok r"
| "data_ok t (DFileinfo f) \<longleftrightarrow> t = ST_FILEINFO \<and> fileinfo_ok f"
| "data_ok t DUninit \<longleftrightarrow> t \<notin> {ST_INTEGER, ST_STRING, ST_BINARY, ST_FILEINFO}"

definition section_ok :: "msg_section \<Rightarrow> bool" where
  "section_ok s \<longleftrightarrow> data_ok (sec_type s) (sec_data s)"

definition msg_ok :: "fsmsg_protocol \<Rightarrow> fsmsg \<Rightarrow> bool" where
  "msg_ok p m \<longleftrightarrow> length (ids m) = idcount p + 1 \<and> list_all section_ok (sections m)"

text \<open>Constructors of well-formed sections.\<close>

definition raw_of :: "bytes \<Rightarrow> raw_sect" where
  "raw_of b = \<lparr>rs_length = of_nat (length b), rs_data = b\<rparr>"

definition int_sec :: "u32 \<Rightarrow> msg_section" where
  "int_sec i = \<lparr>sec_type = ST_INTEGER, sec_data = DInteger i\<rparr>"

definition str_sec :: "bytes \<Rightarrow> msg_section" where
  "str_sec b = \<lparr>sec_type = ST_STRING, sec_data = DString (raw_of b)\<rparr>"

definition bin_sec :: "bytes \<Rightarrow> msg_section" where
  "bin_sec b = \<lparr>sec_type = ST_BINARY, sec_data = DBinary (raw_of b)\<rparr>"

definition fi_sec :: "fileinfo_sect \<Rightarrow> msg_section" where
  "fi_sec f = \<lparr>sec_type = ST_FILEINFO, sec_data = DFileinfo f\<rparr>"

definition end_sec :: msg_section where
  "end_sec = \<lparr>sec_type = ST_NONEXT, sec_data = DUninit\<rparr>"

lemmas sec_defs = int_sec_def str_sec_def bin_sec_def fi_sec_def end_sec_def raw_of_def

abbreviation short :: "bytes \<Rightarrow> bool" where
  "short b \<equiv> length b < 2 ^ 32"

lemma raw_ok_raw_of [simp]: "raw_ok (raw_of b) \<longleftrightarrow> short b"
proof -
  have "length b mod 2 ^ 32 = length b \<longleftrightarrow> short b"
    by (metis mod_less mod_less_divisor zero_less_numeral zero_less_power)
  then show ?thesis by (simp add: raw_ok_def raw_of_def unat_of_nat)
qed

lemma raw_ok_eq: "raw_ok r \<Longrightarrow> r = raw_of (rs_data r)"
proof -
  assume "raw_ok r"
  moreover have "of_nat (unat (rs_length r)) = rs_length r" by simp
  ultimately have "rs_length r = of_nat (length (rs_data r))" by (simp add: raw_ok_def)
  then show ?thesis by (simp add: raw_of_def)
qed

lemma section_ok_simps [simp]:
  "section_ok (int_sec i)" "section_ok (str_sec b) \<longleftrightarrow> short b"
  "section_ok (bin_sec b) \<longleftrightarrow> short b" "section_ok (fi_sec f) \<longleftrightarrow> fileinfo_ok f"
  "section_ok end_sec"
  unfolding section_ok_def
  by (simp_all add: int_sec_def str_sec_def bin_sec_def fi_sec_def end_sec_def section_types)

lemma sec_inject [simp]:
  "int_sec i = int_sec j \<longleftrightarrow> i = j" "str_sec b = str_sec c \<longleftrightarrow> b = c"
  "bin_sec b = bin_sec c \<longleftrightarrow> b = c" "fi_sec f = fi_sec g \<longleftrightarrow> f = g"
  by (auto simp: sec_defs)

lemma inj_fi_sec [simp]: "inj fi_sec"
  by (simp add: inj_def)

lemma map_fi_sec_inject [simp]: "map fi_sec fs = map fi_sec gs \<longleftrightarrow> fs = gs"
  by (simp add: inj_map_eq_map)

lemma sec_type_simps [simp]:
  "sec_type (int_sec i) = ST_INTEGER" "sec_type (str_sec b) = ST_STRING"
  "sec_type (bin_sec b) = ST_BINARY" "sec_type (fi_sec f) = ST_FILEINFO"
  "sec_type end_sec = ST_NONEXT"
  by (simp_all add: sec_defs)

lemma sec_data_simps [simp]:
  "sec_data (int_sec i) = DInteger i" "sec_data (str_sec b) = DString (raw_of b)"
  "sec_data (bin_sec b) = DBinary (raw_of b)" "sec_data (fi_sec f) = DFileinfo f"
  by (simp_all add: int_sec_def str_sec_def bin_sec_def fi_sec_def)

section \<open>What the construction functions do\<close>

lemma copy_bytes_exact: "unat n = length p \<Longrightarrow> copy_bytes p n = Inr p"
  by (simp add: copy_bytes_def)

lemma copy_raw_ok: "raw_ok r \<Longrightarrow> copy_raw r = Inr r"
  by (simp add: copy_raw_def raw_ok_def copy_bytes_exact)

lemma copy_raw_makes_ok: "copy_raw r = Inr r' \<Longrightarrow> raw_ok r'"
  by (auto simp: copy_raw_def raw_ok_def copy_bytes_def rbind_Inr_iff split: if_splits)

lemma fsmsg_fileinfo_copy_ok: "fileinfo_ok f \<Longrightarrow> fsmsg_fileinfo_copy f = Inr f"
  by (simp add: fsmsg_fileinfo_copy_def fileinfo_ok_def copy_bytes_exact)

lemma fsmsg_fileinfo_copy_makes_ok: "fsmsg_fileinfo_copy f = Inr f' \<Longrightarrow> fileinfo_ok f'"
  by (auto simp: fsmsg_fileinfo_copy_def fileinfo_ok_def copy_bytes_def rbind_Inr_iff
      split: if_splits)

lemma copy_data_ok: "data_ok t d \<Longrightarrow> copy_data t d = Inr d"
  by (cases d) (auto simp: copy_data_def section_types copy_raw_ok fsmsg_fileinfo_copy_ok)

lemma copy_data_makes_ok: "copy_data t d = Inr d' \<Longrightarrow> data_ok t d'"
  by (auto simp: copy_data_def rbind_Inr_iff section_types copy_raw_makes_ok
      fsmsg_fileinfo_copy_makes_ok split: if_splits)

lemma add_int [simp]:
  "fsmsg_add_section m ST_INTEGER (DInteger i) = Inr (m\<lparr>sections := sections m @ [int_sec i]\<rparr>)"
  by (simp add: fsmsg_add_section_eq copy_data_ok int_sec_def)

lemma add_str [simp]:
  "short b \<Longrightarrow> fsmsg_add_section m ST_STRING (DString (raw_of b)) =
     Inr (m\<lparr>sections := sections m @ [str_sec b]\<rparr>)"
  by (simp add: fsmsg_add_section_eq copy_data_ok str_sec_def)

lemma add_bin [simp]:
  "short b \<Longrightarrow> fsmsg_add_section m ST_BINARY (DBinary (raw_of b)) =
     Inr (m\<lparr>sections := sections m @ [bin_sec b]\<rparr>)"
  by (simp add: fsmsg_add_section_eq copy_data_ok bin_sec_def)

lemma add_fi [simp]:
  "fileinfo_ok f \<Longrightarrow> fsmsg_add_section m ST_FILEINFO (DFileinfo f) =
     Inr (m\<lparr>sections := sections m @ [fi_sec f]\<rparr>)"
  by (simp add: fsmsg_add_section_eq copy_data_ok fi_sec_def)

lemma add_end [simp]:
  "fsmsg_add_section m ST_NONEXT d = Inr (m\<lparr>sections := sections m @ [end_sec]\<rparr>)"
  by (simp add: fsmsg_add_section_eq copy_data_def section_types end_sec_def)

lemma ends_un [ends_intros]: "ends w (un_integer d)" "ends w (un_raw d)" "ends w (un_fileinfo d)"
  by (cases d; simp)+

lemma ends_copy_bytes [ends_intros]: "ends w (copy_bytes p n)"
  by (simp add: copy_bytes_def)

lemma ends_access [ends_intros]:
  "ends w (SECI m i)" "ends w (SECS m i)" "ends w (SECF m i)" "ends w (SECSDUP m i)"
  by (auto simp: sec_access intro!: ends_intros)

lemma ends_add_section [ends_intros]: "ends w (fsmsg_add_section m t d)"
  by (auto simp: fsmsg_add_section_eq copy_data_def copy_raw_def fsmsg_fileinfo_copy_def
      intro!: ends_intros)

lemma fsmsg_create_ok [simp]: "msg_ok p (fsmsg_create t0 p)"
  by (simp add: msg_ok_def fsmsg_create_def)

text \<open>
  Adding a section, whatever it is given, either stops on a bad argument or keeps the message
  well-formed and appends exactly one section of the requested type; a deep copy of a well-formed
  section is equal to it.
\<close>

theorem fsmsg_add_section_safe:
  "(case fsmsg_add_section m t d of
      Inl e \<Rightarrow> (\<exists>f. e = Fault f) \<and> \<not> data_ok t d
    | Inr m' \<Rightarrow> (\<exists>s. sections m' = sections m @ [s] \<and> sec_type s = t \<and> section_ok s) \<and>
               tid m' = tid m \<and> ids m' = ids m \<and> msg_type m' = msg_type m \<and>
               (data_ok t d \<longrightarrow> sec_data (last (sections m')) = d))
   \<and> (section_ok s \<longrightarrow> fsmsg_section_copy s = Inr s)"
proof -
  have "\<exists>f. e = Fault f" if "copy_data t d = Inl e" for e
    using that by (cases d) (auto simp: copy_data_def copy_raw_def fsmsg_fileinfo_copy_def
        copy_bytes_def rbind_Inl_iff split: if_splits)
  then have "case fsmsg_add_section m t d of
      Inl e \<Rightarrow> (\<exists>f. e = Fault f) \<and> \<not> data_ok t d
    | Inr m' \<Rightarrow> (\<exists>s. sections m' = sections m @ [s] \<and> sec_type s = t \<and> section_ok s) \<and>
               tid m' = tid m \<and> ids m' = ids m \<and> msg_type m' = msg_type m \<and>
               (data_ok t d \<longrightarrow> sec_data (last (sections m')) = d)"
    by (auto simp: fsmsg_add_section_eq section_ok_def copy_data_ok rbind_def
        dest: copy_data_makes_ok split: sum.splits)
  moreover have "section_ok s \<Longrightarrow> fsmsg_section_copy s = Inr s"
    by (cases "sec_data s") (auto simp: section_ok_def fsmsg_section_copy_def section_types
        copy_raw_ok fsmsg_fileinfo_copy_ok)
  ultimately show ?thesis by blast
qed

theorem fsmsg_add_section_safe_witness:
  "\<exists>m'. fsmsg_add_section (fsmsg_create 0 DCP) ST_INTEGER (DInteger 5) = Inr m' \<and>
     sec_data (last (sections m')) = DInteger 5 \<and> fsmsg_section_copy end_sec = Inr end_sec"
  using fsmsg_add_section_safe [of ST_INTEGER "DInteger 5" "fsmsg_create 0 DCP" end_sec] by auto

end
