(* ===== verification/Wire_Out.thy ===== *)
theory Wire_Out
  imports Protomsg Byteorder
begin

text \<open>
  The sender's side of the wire format: \<open>bufferadd\<close> and \<open>fsmsg_to_buffer\<close> of
  \<^verbatim>\<open>src/src/protomsg.c\<close>, with the growing buffer and its \<open>int\<close> sizes. \<open>msg_fields\<close> is the
  format itself, the list of the big-endian fields of a message in the order the protocol document
  gives them; the lemmas show that the buffer holds exactly these fields, that nothing is ever
  written past its end, and up to which message size the \<open>int\<close> arithmetic is safe.
\<close>

section \<open>The growing buffer\<close>

text \<open>\<open>wb_bytes\<close>: the bytes from the start of the buffer to the write pointer; \<open>wb_size\<close>: its
  allocated size.\<close>

record wbuf =
  wb_bytes :: bytes
  wb_size :: int

definition bufferadd :: "wbuf \<Rightarrow> bytes \<Rightarrow> int \<Rightarrow> (int \<times> wbuf) res" where
  "bufferadd b data datalen =
     (let curlen = int (length (wb_bytes b)) in
      if curlen + datalen > INT_MAX then Inl (Fault IntOverflow)
      else if curlen + datalen > wb_size b \<and> wb_size b + (datalen + 64) > INT_MAX
        then Inl (Fault IntOverflow)
      else
        let size = (if curlen + datalen > wb_size b then wb_size b + (datalen + 64) else wb_size b)
        in if datalen < 0 \<or> nat datalen > length data \<or> curlen + datalen > size
           then Inl (Fault OutOfBounds)
           else Inr (datalen, \<lparr>wb_bytes = wb_bytes b @ take (nat datalen) data, wb_size = size\<rparr>))"

text \<open>\<open>len += bufferadd(...)\<close>\<close>

definition emit :: "bytes \<Rightarrow> int \<Rightarrow> int \<times> wbuf \<Rightarrow> (int \<times> wbuf) res" where
  "emit data datalen st =
     rbind (bufferadd (snd st) data datalen) (\<lambda>(n, b).
     if fst st + n > INT_MAX then Inl (Fault IntOverflow) else Inr (fst st + n, b))"

section \<open>Serialisation\<close>

fun emit_ids :: "nat \<Rightarrow> nat \<Rightarrow> fsmsg \<Rightarrow> int \<times> wbuf \<Rightarrow> (int \<times> wbuf) res" where
  "emit_ids i 0 msg st = Inr st"
| "emit_ids i (Suc k) msg st =
     (if i < length (ids msg)
      then rbind (emit (mem_bytes 8 (htonll (ids msg ! i))) 8 st) (emit_ids (Suc i) k msg)
      else Inl (Fault OutOfBounds))"

definition emit_raw :: "raw_sect \<Rightarrow> int \<times> wbuf \<Rightarrow> (int \<times> wbuf) res" where
  "emit_raw r st =
     rbind (emit (mem_bytes 4 (htonl (rs_length r))) 4 st) (\<lambda>st.
     emit (rs_data r) (sint (rs_length r)) st)"

definition emit_fileinfo :: "fileinfo_sect \<Rightarrow> int \<times> wbuf \<Rightarrow> (int \<times> wbuf) res" where
  "emit_fileinfo f st =
     rbind (emit [fi_type f] 1 st) (\<lambda>st.
     rbind (emit (mem_bytes 4 (htonl (fi_pathlen f))) 4 st) (\<lambda>st.
     rbind (emit (fi_path f) (sint (fi_pathlen f)) st) (\<lambda>st.
     rbind (emit (mem_bytes 4 (htonl (fi_usernamelen f))) 4 st) (\<lambda>st.
     rbind (emit (fi_username f) (sint (fi_usernamelen f)) st) (\<lambda>st.
     rbind (emit (mem_bytes 4 (htonl (fi_modified f))) 4 st) (\<lambda>st.
     rbind (emit (mem_bytes 4 (htonl (fi_size f))) 4 st) (\<lambda>st.
     emit (mem_bytes 4 (htonl (fi_replicas f))) 4 st)))))))"

definition emit_section :: "msg_section \<Rightarrow> int \<times> wbuf \<Rightarrow> (int \<times> wbuf) res" where
  "emit_section s st =
     rbind (emit (mem_bytes 2 (htons (sec_type s))) 2 st) (\<lambda>st.
     if sec_type s = ST_INTEGER then
       rbind (un_integer (sec_data s)) (\<lambda>i. emit (mem_bytes 4 (htonl i)) 4 st)
     else if sec_type s = ST_STRING then rbind (un_raw (sec_data s)) (\<lambda>r. emit_raw r st)
     else if sec_type s = ST_BINARY then rbind (un_raw (sec_data s)) (\<lambda>r. emit_raw r st)
     else if sec_type s = ST_FILEINFO then
       rbind (un_fileinfo (sec_data s)) (\<lambda>f. emit_fileinfo f st)
     else Inr st)"

fun emit_sections :: "msg_section list \<Rightarrow> int \<times> wbuf \<Rightarrow> (int \<times> wbuf) res" where
  "emit_sections [] st = Inr st"
| "emit_sections (s # ss) st = rbind (emit_section s st) (emit_sections ss)"

definition fsmsg_to_buffer :: "fsmsg \<Rightarrow> fsmsg_protocol \<Rightarrow> (int \<times> bytes) res" where
  "fsmsg_to_buffer msg protocol =
     rbind (emit (mem_bytes 8 (htonll (tid msg))) 8 (0, \<lparr>wb_bytes = [], wb_size = 1024\<rparr>)) (\<lambda>st.
     rbind (emit_ids 0 (idcount protocol) msg st) (\<lambda>st.
     rbind (emit (mem_bytes 2 (htons (msg_type msg))) 2 st) (\<lambda>st.
     rbind (emit_sections (sections msg) st) (\<lambda>(len, b).
     Inr (len, wb_bytes b)))))"

section \<open>The wire format\<close>

text \<open>An integer field, most significant byte first.\<close>

definition be :: "nat \<Rightarrow> 'a::len word \<Rightarrow> bytes" where
  "be n w = rev (mem_bytes n w)"

lemma length_be [simp]: "length (be n w) = n"
  by (simp add: be_def)

lemma be_nonempty [simp]: "0 < n \<Longrightarrow> be n w \<noteq> []" "0 < n \<Longrightarrow> [] \<noteq> be n w"
  by (metis length_be length_greater_0_conv)+

text \<open>A block of known length; an empty one takes no bytes.\<close>

definition blk :: "bytes \<Rightarrow> bytes list" where
  "blk b = (if b = [] then [] else [b])"

lemma concat_blk [simp]: "concat (blk b) = b"
  by (simp add: blk_def)

definition raw_fields :: "raw_sect \<Rightarrow> bytes list" where
  "raw_fields r = be 4 (rs_length r) # blk (rs_data r)"

definition fileinfo_fields :: "fileinfo_sect \<Rightarrow> bytes list" where
  "fileinfo_fields f =
     [fi_type f] # be 4 (fi_pathlen f) # blk (fi_path f) @
     be 4 (fi_usernamelen f) # blk (fi_username f) @
     [be 4 (fi_modified f), be 4 (fi_size f), be 4 (fi_replicas f)]"

fun data_fields :: "section_data \<Rightarrow> bytes list" where
  "data_fields (DInteger i) = [be 4 i]"
| "data_fields (DString r) = raw_fields r"
| "data_fields (DBinary r) = raw_fields r"
| "data_fields (DFileinfo f) = fileinfo_fields f"
| "data_fields DUninit = []"

definition section_fields :: "msg_section \<Rightarrow> bytes list" where
  "section_fields s = be 2 (sec_type s) # data_fields (sec_data s)"

definition msg_fields :: "fsmsg_protocol \<Rightarrow> fsmsg \<Rightarrow> bytes list" where
  "msg_fields p m =
     map (be 8) (tid m # take (idcount p) (ids m)) @ be 2 (msg_type m) #
     concat (map section_fields (sections m))"

definition wire :: "fsmsg_protocol \<Rightarrow> fsmsg \<Rightarrow> bytes" where
  "wire p m = concat (msg_fields p m)"

text \<open>
  The format of \<^verbatim>\<open>doc/desc/protocols.md\<close>: the header has the transaction id and the ids of the protocol,
  for the file transfer those of the source, of the destination and of the file system. The code
  writes and reads one id less there (\<open>idcount\<close>).
\<close>

fun documented_ids :: "fsmsg_protocol \<Rightarrow> nat" where
  "documented_ids FAP = 3"
| "documented_ids DCP = 2"
| "documented_ids FCTP = 3"

definition documented_wire :: "fsmsg_protocol \<Rightarrow> fsmsg \<Rightarrow> bytes" where
  "documented_wire p m = be 8 (tid m) @ concat (map (be 8) (take (documented_ids p) (ids m))) @
     be 2 (msg_type m) @ concat (map (\<lambda>s. be 2 (sec_type s) @ concat (data_fields (sec_data s))) (sections m))"

lemma wire_documented:
  "wire p m = be 8 (tid m) @ concat (map (be 8) (take (idcount p) (ids m))) @
     be 2 (msg_type m) @ concat (map (\<lambda>s. be 2 (sec_type s) @ concat (data_fields (sec_data s))) (sections m))"
proof -
  have "concat (concat (map section_fields ss)) =
      concat (map (\<lambda>s. be 2 (sec_type s) @ concat (data_fields (sec_data s))) ss)" for ss
    by (induction ss) (simp_all add: section_fields_def)
  then show ?thesis by (simp add: wire_def msg_fields_def)
qed

text \<open>The sizes of sections and messages on the wire.\<close>

definition section_size :: "msg_section \<Rightarrow> nat" where
  "section_size s = length (concat (section_fields s))"

lemma section_size_simps [simp]:
  "section_size (int_sec i) = 6" "section_size (str_sec b) = 6 + length b"
  "section_size (bin_sec b) = 6 + length b" "section_size end_sec = 2"
  "section_size (fi_sec f) = 23 + length (fi_path f) + length (fi_username f)"
  by (simp_all add: section_size_def section_fields_def raw_fields_def fileinfo_fields_def sec_defs)

lemma length_wire:
  "length (wire p m) =
     10 + 8 * length (take (idcount p) (ids m)) + sum_list (map section_size (sections m))"
proof -
  have "length (concat (concat (map section_fields ss))) = sum_list (map section_size ss)" for ss
    by (induction ss) (simp_all add: section_size_def)
  moreover have "length (concat (map (be 8) is)) = 8 * length is" for "is" :: "u64 list"
    by (induction "is") simp_all
  ultimately show ?thesis by (simp add: wire_def msg_fields_def)
qed

section \<open>The buffer holds the wire format\<close>

text \<open>
  The state of the buffer between two writes. The allocated size stays below twice the length
  plus a constant, which bounds the message size for which no \<open>int\<close> overflows.
\<close>

definition buf_inv :: "int \<times> wbuf \<Rightarrow> bool" where
  "buf_inv st \<longleftrightarrow>
     fst st = int (length (wb_bytes (snd st))) \<and> fst st \<le> wb_size (snd st) \<and>
     wb_size (snd st) \<le> 2 * fst st + 1088"

definition MSG_MAX :: int where "MSG_MAX = 1073741279"

text \<open>\<open>writes f bs\<close>: from a consistent buffer with room below the bound, \<open>f\<close> appends \<open>bs\<close>.\<close>

definition writes :: "(int \<times> wbuf \<Rightarrow> (int \<times> wbuf) res) \<Rightarrow> bytes \<Rightarrow> bool" where
  "writes f bs \<longleftrightarrow>
     (\<forall>st. buf_inv st \<and> fst st + int (length bs) \<le> MSG_MAX \<longrightarrow>
        (\<exists>st'. f st = Inr st' \<and> buf_inv st' \<and> wb_bytes (snd st') = wb_bytes (snd st) @ bs))"

named_theorems writes_intros

lemma writes_emit:
  assumes "datalen = int (length bs)"
  shows "writes (emit bs datalen) bs"
  unfolding writes_def
proof (intro allI impI)
  fix st assume st: "buf_inv st \<and> fst st + int (length bs) \<le> MSG_MAX"
  obtain len b where [simp]: "st = (len, b)" by fastforce
  from st have len: "len = int (length (wb_bytes b))" "len \<le> wb_size b"
      "wb_size b \<le> 2 * len + 1088" "len + datalen \<le> 1073741279" "0 \<le> datalen"
    by (auto simp: buf_inv_def MSG_MAX_def assms)
  let ?size = "if len + datalen > wb_size b then wb_size b + (datalen + 64) else wb_size b"
  have "bufferadd b bs datalen = Inr (datalen, \<lparr>wb_bytes = wb_bytes b @ bs, wb_size = ?size\<rparr>)"
    using len assms by (auto simp: bufferadd_def Let_def)
  then have "emit bs datalen st = Inr (len + datalen, \<lparr>wb_bytes = wb_bytes b @ bs, wb_size = ?size\<rparr>)"
    using len by (simp add: emit_def)
  moreover have "buf_inv (len + datalen, \<lparr>wb_bytes = wb_bytes b @ bs, wb_size = ?size\<rparr>)"
    using len assms by (auto simp: buf_inv_def)
  ultimately show "\<exists>st'. emit bs datalen st = Inr st' \<and> buf_inv st' \<and>
      wb_bytes (snd st') = wb_bytes (snd st) @ bs"
    by auto
qed

lemma writes_bind [writes_intros]:
  assumes "writes f bs" and "writes g cs"
  shows "writes (\<lambda>st. rbind (f st) g) (bs @ cs)"
  unfolding writes_def
proof (intro allI impI)
  fix st assume st: "buf_inv st \<and> fst st + int (length (bs @ cs)) \<le> MSG_MAX"
  then obtain st1 where st1: "f st = Inr st1" "buf_inv st1" "wb_bytes (snd st1) = wb_bytes (snd st) @ bs"
    using assms(1) unfolding writes_def by fastforce
  then have "fst st1 + int (length cs) \<le> MSG_MAX" using st by (auto simp: buf_inv_def)
  with st1 assms(2) obtain st2 where "g st1 = Inr st2" "buf_inv st2"
      "wb_bytes (snd st2) = wb_bytes (snd st1) @ cs"
    unfolding writes_def by blast
  with st1 show "\<exists>st'. rbind (f st) g = Inr st' \<and> buf_inv st' \<and>
      wb_bytes (snd st') = wb_bytes (snd st) @ bs @ cs"
    by auto
qed

lemma writes_nothing [writes_intros]: "writes Inr []"
  by (simp add: writes_def)

lemma writes_be [writes_intros]:
  "writes (emit (mem_bytes 8 (htonll w)) 8) (be 8 w)"
  "writes (emit (mem_bytes 4 (htonl v)) 4) (be 4 v)"
  "writes (emit (mem_bytes 2 (htons u)) 2) (be 2 u)"
  by (simp_all add: be_def writes_emit wire_htonll wire_htonl wire_htons)

lemma writes_byte [writes_intros]: "writes (emit [b] 1) [b]"
  by (simp add: writes_emit)

lemma writes_block [writes_intros]:
  assumes "unat n = length bs"
  shows "writes (emit bs (sint (n :: u32))) bs"
proof (cases "int (length bs) \<le> MSG_MAX")
  case True
  then have "sint n = int (length bs)" using assms by (simp add: sint_small MSG_MAX_def)
  then show ?thesis by (rule writes_emit)
next
  case False
  then show ?thesis by (auto simp: writes_def buf_inv_def)
qed

lemma writes_raw [writes_intros]:
  "raw_ok r \<Longrightarrow> writes (emit_raw r) (concat (raw_fields r))"
  unfolding emit_raw_def [abs_def] raw_fields_def concat.simps concat_blk
  by (intro writes_intros) (simp add: raw_ok_def)

lemma writes_fileinfo [writes_intros]:
  "fileinfo_ok f \<Longrightarrow> writes (emit_fileinfo f) (concat (fileinfo_fields f))"
  unfolding emit_fileinfo_def [abs_def] fileinfo_fields_def concat.simps concat_append concat_blk
    append_Nil2
  by (auto simp: fileinfo_ok_def simp del: append_Cons intro!: writes_intros)

lemma writes_section [writes_intros]:
  assumes "section_ok s"
  shows "writes (emit_section s) (concat (section_fields s))"
proof -
  obtain t d where [simp]: "s = \<lparr>sec_type = t, sec_data = d\<rparr>" by (cases s)
  from assms have "data_ok t d" by (simp add: section_ok_def)
  then show ?thesis
    by (cases d) (auto simp: emit_section_def [abs_def] section_fields_def section_types
        cong: rbind_cong intro!: writes_intros)
qed

lemma writes_sections [writes_intros]:
  "list_all section_ok ss \<Longrightarrow>
     writes (emit_sections ss) (concat (concat (map section_fields ss)))"
proof (induction ss)
  case Nil
  have "emit_sections [] = Inr" by (rule ext) simp
  then show ?case by (simp add: writes_nothing)
next
  case (Cons s ss)
  have "emit_sections (s # ss) = (\<lambda>st. rbind (emit_section s st) (emit_sections ss))"
    by (rule ext) simp
  with Cons show ?case by (auto intro!: writes_intros)
qed

lemma writes_ids:
  "i + k \<le> length (ids m) \<Longrightarrow>
     writes (emit_ids i k m) (concat (map (be 8) (take k (drop i (ids m)))))"
proof (induction k arbitrary: i)
  case 0
  have "emit_ids i 0 m = Inr" by (rule ext) simp
  then show ?case by (simp add: writes_nothing)
next
  case (Suc k)
  then have "i < length (ids m)" by simp
  then have "emit_ids i (Suc k) m = (\<lambda>st. rbind (emit (mem_bytes 8 (htonll (ids m ! i))) 8 st)
      (emit_ids (Suc i) k m))" by (intro ext) simp
  moreover have "take (Suc k) (drop i (ids m)) = ids m ! i # take k (drop (Suc i) (ids m))"
    using \<open>i < length (ids m)\<close> by (simp add: Cons_nth_drop_Suc [symmetric])
  ultimately show ?case using Suc by (auto intro!: writes_intros)
qed

lemma fsmsg_to_buffer_wire_eq:
  assumes "msg_ok p m" and "int (length (wire p m)) \<le> MSG_MAX"
  shows "fsmsg_to_buffer m p = Inr (int (length (wire p m)), wire p m)"
proof -
  let ?f = "\<lambda>st. rbind (emit (mem_bytes 8 (htonll (tid m))) 8 st) (\<lambda>st.
     rbind (emit_ids 0 (idcount p) m st) (\<lambda>st.
     rbind (emit (mem_bytes 2 (htons (msg_type m))) 2 st) (emit_sections (sections m))))"
  have "writes ?f (be 8 (tid m) @ concat (map (be 8) (take (idcount p) (drop 0 (ids m)))) @
      be 2 (msg_type m) @ concat (concat (map section_fields (sections m))))"
    using assms(1) by (intro writes_intros writes_ids) (auto simp: msg_ok_def)
  then have "writes ?f (wire p m)" by (simp add: wire_def msg_fields_def)
  moreover have "buf_inv (0, \<lparr>wb_bytes = [], wb_size = 1024\<rparr>)" by (simp add: buf_inv_def)
  ultimately obtain st where st: "?f (0, \<lparr>wb_bytes = [], wb_size = 1024\<rparr>) = Inr st" "buf_inv st"
      "wb_bytes (snd st) = wire p m"
    using assms(2) unfolding writes_def by fastforce
  have "fsmsg_to_buffer m p =
      rbind (?f (0, \<lparr>wb_bytes = [], wb_size = 1024\<rparr>)) (\<lambda>(len, b). Inr (len, wb_bytes b))"
    by (simp add: fsmsg_to_buffer_def rbind_assoc)
  with st show ?thesis by (simp add: buf_inv_def split: prod.splits)
qed

text \<open>
  C9. Serialising a well-formed message of up to \<open>MSG_MAX\<close> bytes (about 1 GiB) succeeds: the returned
  length is the number of bytes in the buffer, no write leaves the buffer on the way, and no \<open>int\<close>
  overflows. For FAP and DCP the buffer holds exactly the documented format; for FCTP it is one id,
  8 bytes, shorter than that: only two of the three documented ids are written.
\<close>

theorem fsmsg_to_buffer_wire:
  assumes "msg_ok p m" and "int (length (wire p m)) \<le> MSG_MAX"
  shows "fsmsg_to_buffer m p = Inr (int (length (wire p m)), wire p m) \<and>
    (if p = FCTP
     then length (ids m) = 3 \<and> length (documented_wire p m) = length (wire p m) + 8 \<and>
       take 24 (wire p m) = be 8 (tid m) @ be 8 (ids m ! 0) @ be 8 (ids m ! 1)
     else wire p m = documented_wire p m)"
proof (cases p)
  case FCTP
  with assms(1) obtain a b c where "ids m = [a, b, c]"
    by (auto simp: msg_ok_def length_Suc_conv numeral_2_eq_2)
  with FCTP fsmsg_to_buffer_wire_eq [OF assms] show ?thesis
    by (simp add: wire_documented documented_wire_def)
qed (use fsmsg_to_buffer_wire_eq [OF assms] in \<open>simp_all add: wire_documented documented_wire_def\<close>)

theorem fsmsg_to_buffer_wire_witness:
  "(\<exists>b. fsmsg_to_buffer \<lparr>tid = 1, ids = [7, 8, 9, 0], msg_type = 3, sections = [end_sec]\<rparr> FAP = Inr (36, b)) \<and>
   (\<exists>b. fsmsg_to_buffer \<lparr>tid = 1, ids = [7, 8, 0], msg_type = 3, sections = [end_sec]\<rparr> FCTP = Inr (28, b))"
  using fsmsg_to_buffer_wire [of FAP "\<lparr>tid = 1, ids = [7, 8, 9, 0], msg_type = 3, sections = [end_sec]\<rparr>"]
    fsmsg_to_buffer_wire [of FCTP "\<lparr>tid = 1, ids = [7, 8, 0], msg_type = 3, sections = [end_sec]\<rparr>"]
  by (simp add: msg_ok_def length_wire MSG_MAX_def)

section \<open>Serialisation ends\<close>

lemma ends_emit [ends_intros]: "ends w (emit data n st)"
  by (auto simp: emit_def bufferadd_def Let_def intro!: ends_intros)

lemma ends_emit_section [ends_intros]: "ends w (emit_section s st)"
  by (auto simp: emit_section_def emit_raw_def emit_fileinfo_def intro!: ends_intros)

lemma ends_emit_lists [ends_intros]: "ends w (emit_ids i k msg st)" "ends w (emit_sections ss st)"
proof -
  show "ends w (emit_ids i k msg st)"
    by (induction k arbitrary: i st) (auto intro!: ends_intros)
  show "ends w (emit_sections ss st)"
    by (induction ss arbitrary: st) (auto intro!: ends_intros)
qed

lemma ends_to_buffer [ends_intros]: "ends w (fsmsg_to_buffer msg p)"
  by (auto simp: fsmsg_to_buffer_def intro!: ends_intros)

end
