(* ===== verification/Wire_In.thy ===== *)
theory Wire_In
  imports Sockets Wire_Out
begin

text \<open>
  The receiver's side: \<open>fsmsg_from_socket\<close> of \<^verbatim>\<open>src/src/protomsg.c\<close> over a stream that the network
  cuts into pieces. Every \<open>read\<close> that returns a positive count is taken for the whole field
  (macro \<open>TRY\<close>), so the bytes that did not arrive keep what the destination held before: \<open>junk\<close>
  is the content of memory the program has not written. The lemmas: each reader is a
  \<open>wire_codec\<close> for the fields the sender writes, hence a message whose fields are delivered whole
  is received as it was sent; and reception always ends.
\<close>

section \<open>Field readers\<close>

definition junk_bytes :: "(nat \<Rightarrow> u8) \<Rightarrow> nat \<Rightarrow> bytes" where
  "junk_bytes junk n = map junk [0..<n]"

lemma length_junk_bytes [simp]: "length (junk_bytes junk n) = n"
  by (simp add: junk_bytes_def)

definition read_u64 :: "(nat \<Rightarrow> u8) \<Rightarrow> u64 rdr" where
  "read_u64 junk = rdr_bind (rd_field (junk_bytes junk 8)) (\<lambda>b. rdr_return (ntohll (of_mem b)))"

definition read_u32 :: "(nat \<Rightarrow> u8) \<Rightarrow> u32 rdr" where
  "read_u32 junk = rdr_bind (rd_field (junk_bytes junk 4)) (\<lambda>b. rdr_return (ntohl (of_mem b)))"

definition read_u8 :: "(nat \<Rightarrow> u8) \<Rightarrow> u8 rdr" where
  "read_u8 junk = rdr_bind (rd_field (junk_bytes junk 1)) (\<lambda>b. rdr_return (hd b))"

text \<open>A 16-bit field, over a destination that holds \<open>old\<close>.\<close>

definition read_u16 :: "u16 \<Rightarrow> u16 rdr" where
  "read_u16 old = rdr_bind (rd_field (mem_bytes 2 old)) (\<lambda>b. rdr_return (ntohs (of_mem b)))"

text \<open>\<open>malloc(n)\<close> and a read of \<open>n\<close> bytes into it.\<close>

definition read_block :: "(nat \<Rightarrow> u8) \<Rightarrow> u32 \<Rightarrow> bytes rdr" where
  "read_block junk n = rd_field (junk_bytes junk (unat n))"

section \<open>Sections and messages\<close>

text \<open>
  For a length of 0 the code sets no \<open>data\<close> pointer: it keeps what the allocated memory held, and
  \<open>fsmsg_free\<close>, which is not modelled, frees it. Every other use of the section takes 0 bytes from it,
  which is what the empty block here stands for.
\<close>

definition read_raw :: "(nat \<Rightarrow> u8) \<Rightarrow> raw_sect rdr" where
  "read_raw junk =
     rdr_bind (read_u32 junk) (\<lambda>n.
     if 0 < n then rdr_bind (read_block junk n) (\<lambda>d. rdr_return \<lparr>rs_length = n, rs_data = d\<rparr>)
     else rdr_return \<lparr>rs_length = n, rs_data = []\<rparr>)"

definition fresh_pad :: "(nat \<Rightarrow> u8) \<Rightarrow> u32" where
  "fresh_pad junk = of_mem [junk 1, junk 2, junk 3]"

lemma fresh_pad_shifted: "push_bit 8 (fresh_pad junk) = 0 \<longleftrightarrow> fresh_pad junk = 0"
proof
  assume "push_bit 8 (fresh_pad junk) = 0"
  then have "\<not> bit (push_bit 8 (fresh_pad junk)) (n + 8)" for n by simp
  then have "n + 8 < 32 \<Longrightarrow> \<not> bit (fresh_pad junk) n" for n by (simp add: bit_simps)
  moreover have "bit (fresh_pad junk) n \<Longrightarrow> n < 24" for n
    unfolding fresh_pad_def bit_of_mem by (simp del: of_mem.simps) linarith
  ultimately have "\<not> bit (fresh_pad junk) n" for n by force
  then show "fresh_pad junk = 0" by (simp add: bit_eq_iff)
qed simp

definition read_fileinfo :: "(nat \<Rightarrow> u8) \<Rightarrow> fileinfo_sect rdr" where
  "read_fileinfo junk =
     rdr_bind (read_u8 junk) (\<lambda>ty.
     rdr_bind (read_u32 junk) (\<lambda>pl.
     rdr_bind (read_block junk pl) (\<lambda>p.
     rdr_bind (read_u32 junk) (\<lambda>ul.
     rdr_bind (read_block junk ul) (\<lambda>u.
     rdr_bind (read_u32 junk) (\<lambda>mo.
     rdr_bind (read_u32 junk) (\<lambda>sz.
     rdr_bind (read_u32 junk) (\<lambda>re.
     rdr_return \<lparr>fi_type = ty, fi_pad = fresh_pad junk, fi_pathlen = pl, fi_path = p,
       fi_usernamelen = ul, fi_username = u, fi_modified = mo, fi_size = sz,
       fi_replicas = re\<rparr>))))))))"

text \<open>The \<open>switch\<close> on the section type; an unknown type fails.\<close>

definition read_section :: "(nat \<Rightarrow> u8) \<Rightarrow> u16 \<Rightarrow> msg_section rdr" where
  "read_section junk t =
     (if t = ST_INTEGER then
        rdr_bind (read_u32 junk) (\<lambda>i. rdr_return \<lparr>sec_type = t, sec_data = DInteger i\<rparr>)
      else if t = ST_STRING then
        rdr_bind (read_raw junk) (\<lambda>r. rdr_return \<lparr>sec_type = t, sec_data = DString r\<rparr>)
      else if t = ST_BINARY then
        rdr_bind (read_raw junk) (\<lambda>r. rdr_return \<lparr>sec_type = t, sec_data = DBinary r\<rparr>)
      else if t = ST_FILEINFO then
        rdr_bind (read_fileinfo junk) (\<lambda>f. rdr_return \<lparr>sec_type = t, sec_data = DFileinfo f\<rparr>)
      else rdr_fail)"

lemma read_u16_consuming [consuming_intros]: "consuming (read_u16 old)"
  unfolding read_u16_def by (intro consuming_intros)

lemma read_section_consuming [consuming_intros]: "consuming (read_section junk t)"
  unfolding read_section_def read_raw_def read_fileinfo_def read_u32_def read_u8_def read_block_def
  by (auto intro!: consuming_intros)

lemma read_u16_decreasing:
  "read_u16 old rx = (Some t, rx') \<Longrightarrow> stream_size rx' < stream_size rx"
  by (auto simp: read_u16_def rdr_bind_def rdr_return_def dest: rd_field_decreasing
      split: prod.splits option.splits)

text \<open>
  The section loop. \<open>sectype\<close> is the local variable of that name, which keeps its value from one
  round to the next; \<open>acc\<close> holds the sections read so far.
\<close>

function read_sections ::
  "(nat \<Rightarrow> u8) \<Rightarrow> u16 \<Rightarrow> msg_section list \<Rightarrow> msg_section list rdr" where
  "read_sections junk sectype acc rx =
     (case read_u16 sectype rx of
        (None, rx') \<Rightarrow> (None, rx')
      | (Some t, rx') \<Rightarrow>
          if t = ST_NONEXT then (Some acc, rx')
          else (case read_section junk t rx' of
                  (None, rx'') \<Rightarrow> (None, rx'')
                | (Some s, rx'') \<Rightarrow> read_sections junk t (acc @ [s]) rx''))"
  by pat_completeness auto
termination
proof (relation "measure (\<lambda>(junk, sectype, acc, rx). stream_size rx)", goal_cases)
  case 1
  show ?case by simp
next
  case (2 junk sectype acc rx r rx' t r2 rx'' s)
  from 2 have "stream_size rx' < stream_size rx" by (metis read_u16_decreasing)
  moreover from 2 have "stream_size rx'' \<le> stream_size rx'"
    by (metis consumingD read_section_consuming)
  ultimately show ?case by simp
qed

declare read_sections.simps [simp del]

text \<open>
  \<open>junk\<close> stands for all the memory that the function allocates, every block with the same content.
  The count \<open>len\<close> of the bytes received, an \<open>int\<close> for the debug output that overflows after 2 GiB, is
  left out.
\<close>

definition fsmsg_from_socket :: "(nat \<Rightarrow> u8) \<Rightarrow> fsmsg_protocol \<Rightarrow> fsmsg rdr" where
  "fsmsg_from_socket junk protocol =
     rdr_bind (read_u64 junk) (\<lambda>t.
     rdr_bind (rdr_times (idcount protocol) (read_u64 junk)) (\<lambda>is.
     rdr_bind (read_u16 0) (\<lambda>ty.
     rdr_bind (read_sections junk (of_mem (junk_bytes junk 2)) []) (\<lambda>ss.
     rdr_return \<lparr>tid = t, ids = is @ [of_mem (junk_bytes junk 8)], msg_type = ty,
       sections = ss\<rparr>))))"

section \<open>The readers invert the sender\<close>

lemma rd_field_bind:
  assumes "delivers (f # fs) rx rx''" and "length f = length old" and "f \<noteq> []"
    and "\<And>rx'. delivers fs rx' rx'' \<Longrightarrow> g f rx' = r"
  shows "rdr_bind (rd_field old) g rx = r"
proof -
  from assms(1) obtain rx' where "delivers [f] rx rx'" "delivers fs rx' rx''" by auto
  with assms show ?thesis by (simp add: rdr_bind_def rd_field_delivers)
qed

lemma delivers_Nil_return: "delivers [] rx rx' \<Longrightarrow> rdr_return x rx = (Some x, rx')"
  by (simp add: rdr_return_def)

interpretation u64c: field_codec "be 8" "read_u64 junk" "\<lambda>_. True" for junk
proof unfold_locales
  fix x :: u64 and rx rx'
  assume "delivers [be 8 x] rx rx'"
  then show "read_u64 junk rx = (Some x, rx')"
    unfolding read_u64_def
    by (rule rd_field_bind) (simp_all add: be_def ntohll_of_wire rdr_return_def)
qed

interpretation u32c: field_codec "be 4" "read_u32 junk" "\<lambda>_. True" for junk
proof unfold_locales
  fix x :: u32 and rx rx'
  assume "delivers [be 4 x] rx rx'"
  then show "read_u32 junk rx = (Some x, rx')"
    unfolding read_u32_def
    by (rule rd_field_bind) (simp_all add: be_def ntohl_of_wire rdr_return_def)
qed

interpretation u16c: field_codec "be 2" "read_u16 old" "\<lambda>_. True" for old
proof unfold_locales
  fix x :: u16 and rx rx'
  assume "delivers [be 2 x] rx rx'"
  then show "read_u16 old rx = (Some x, rx')"
    unfolding read_u16_def
    by (rule rd_field_bind) (simp_all add: be_def ntohs_of_wire rdr_return_def)
qed

interpretation u8c: field_codec "\<lambda>b. [b]" "read_u8 junk" "\<lambda>_. True" for junk
proof unfold_locales
  fix x rx rx'
  assume "delivers [[x]] rx rx'"
  then show "read_u8 junk rx = (Some x, rx')"
    unfolding read_u8_def
    by (rule rd_field_bind) (simp_all add: rdr_return_def)
qed

interpretation blockc: field_codec "\<lambda>b. b" "read_block junk n" "\<lambda>b. b \<noteq> [] \<and> length b = unat n"
  for junk n
  by unfold_locales (simp add: read_block_def rd_field_delivers)

interpretation rawc: wire_codec raw_fields "read_raw junk" raw_ok for junk
proof unfold_locales
  fix r rx rx'
  assume ok: "raw_ok r" and d: "delivers (raw_fields r) rx rx'"
  show "read_raw junk rx = (Some r, rx')"
  proof (cases "rs_data r = []")
    case True
    with ok have n: "rs_length r = 0" by (simp add: raw_ok_def unat_eq_zero)
    with True have "r = \<lparr>rs_length = 0, rs_data = []\<rparr>" by simp
    with d have "delivers (be 4 (rs_length r) # []) rx rx'"
      by (simp add: raw_fields_def blk_def)
    then show ?thesis unfolding read_raw_def
      by (rule u32c.bind_field) (use n True in \<open>simp_all add: rdr_return_def\<close>)
  next
    case False
    with ok have n: "0 < rs_length r"
      by (metis length_greater_0_conv raw_ok_def unat_gt_0 word_neq_0_conv)
    with False ok have blk: "rs_data r \<noteq> [] \<and> length (rs_data r) = unat (rs_length r)"
      by (simp add: raw_ok_def)
    from d False have "delivers (be 4 (rs_length r) # [rs_data r]) rx rx'"
      by (simp add: raw_fields_def blk_def)
    then show ?thesis unfolding read_raw_def
      by (rule u32c.bind_field)
        (use n blk in \<open>auto intro!: blockc.bind_field simp: rdr_return_def simp del: delivers.simps(2)\<close>)
  qed
qed

text \<open>
  A file info section is received only with a non-empty path and a non-empty user name: a read of
  length 0 counts as a failure.
\<close>

definition fi_receivable :: "fileinfo_sect \<Rightarrow> bool" where
  "fi_receivable f \<longleftrightarrow> fileinfo_ok f \<and> fi_path f \<noteq> [] \<and> fi_username f \<noteq> []"

interpretation fileinfoc: wire_codec fileinfo_fields "read_fileinfo junk"
    "\<lambda>f. fi_receivable f \<and> fi_pad f = fresh_pad junk" for junk
proof unfold_locales
  fix f rx rx'
  assume ok: "fi_receivable f \<and> fi_pad f = fresh_pad junk"
    and d: "delivers (fileinfo_fields f) rx rx'"
  have f: "f = \<lparr>fi_type = fi_type f, fi_pad = fresh_pad junk, fi_pathlen = fi_pathlen f,
      fi_path = fi_path f, fi_usernamelen = fi_usernamelen f, fi_username = fi_username f,
      fi_modified = fi_modified f, fi_size = fi_size f, fi_replicas = fi_replicas f\<rparr>"
    using ok by simp
  from d ok have "delivers ([fi_type f] # be 4 (fi_pathlen f) # fi_path f #
      be 4 (fi_usernamelen f) # fi_username f #
      be 4 (fi_modified f) # be 4 (fi_size f) # be 4 (fi_replicas f) # []) rx rx'"
    by (simp add: fileinfo_fields_def blk_def fi_receivable_def)
  then show "read_fileinfo junk rx = (Some f, rx')"
    unfolding read_fileinfo_def
    apply (elim u8c.bind_field u32c.bind_field blockc.bind_field TrueI)
    using ok f by (auto simp: fi_receivable_def fileinfo_ok_def rdr_return_def)
qed

text \<open>
  What a section becomes on the other side: the padding of the new structure is what its memory
  held. The fields of a section do not depend on it.
\<close>

fun repad :: "u32 \<Rightarrow> section_data \<Rightarrow> section_data" where
  "repad p (DFileinfo f) = DFileinfo (f\<lparr>fi_pad := p\<rparr>)"
| "repad p d = d"

definition received :: "u32 \<Rightarrow> msg_section \<Rightarrow> msg_section" where
  "received p s = s\<lparr>sec_data := repad p (sec_data s)\<rparr>"

lemma data_fields_repad [simp]: "data_fields (repad p d) = data_fields d"
  by (cases d) (simp_all add: fileinfo_fields_def)

lemma received_simps [simp]:
  "received p (int_sec i) = int_sec i" "received p (str_sec b) = str_sec b"
  "received p (bin_sec b) = bin_sec b" "received p (fi_sec f) = fi_sec (f\<lparr>fi_pad := p\<rparr>)"
  "sec_type (received p s) = sec_type s"
  by (simp_all add: received_def sec_defs)

text \<open>Sections that the receiver accepts.\<close>

fun data_receivable :: "section_data \<Rightarrow> bool" where
  "data_receivable (DFileinfo f) \<longleftrightarrow> fi_path f \<noteq> [] \<and> fi_username f \<noteq> []"
| "data_receivable DUninit \<longleftrightarrow> False"
| "data_receivable _ \<longleftrightarrow> True"

definition receivable :: "msg_section \<Rightarrow> bool" where
  "receivable s \<longleftrightarrow> section_ok s \<and> data_receivable (sec_data s)"

lemma receivable_simps [simp]:
  "receivable (int_sec i)" "receivable (str_sec b) \<longleftrightarrow> short b" "receivable (bin_sec b) \<longleftrightarrow> short b"
  "receivable (fi_sec f) \<longleftrightarrow> fi_receivable f"
  by (auto simp: receivable_def fi_receivable_def)

lemma receivable_type: "receivable s \<Longrightarrow> sec_type s \<noteq> ST_NONEXT"
  by (cases "sec_data s") (auto simp: receivable_def section_ok_def section_types)

interpretation sectionc: wire_codec "\<lambda>s. data_fields (sec_data s)" "read_section junk t"
    "\<lambda>s. receivable s \<and> sec_type s = t \<and> received (fresh_pad junk) s = s" for junk t
proof unfold_locales
  fix s rx rx'
  assume ok: "receivable s \<and> sec_type s = t \<and> received (fresh_pad junk) s = s"
    and d: "delivers (data_fields (sec_data s)) rx rx'"
  obtain d' where [simp]: "s = \<lparr>sec_type = t, sec_data = d'\<rparr>" using ok by (cases s) simp
  show "read_section junk t rx = (Some s, rx')"
  proof (cases d')
    case (DInteger i)
    with d have "delivers (be 4 i # []) rx rx'" by simp
    with DInteger ok show ?thesis
      by (auto simp: read_section_def receivable_def section_ok_def rdr_return_def section_types
          simp del: delivers.simps(2) intro!: u32c.bind_field)
  next
    case (DString r)
    with d have "delivers (raw_fields r @ []) rx rx'" by simp
    with DString ok show ?thesis
      by (auto simp: read_section_def receivable_def section_ok_def rdr_return_def section_types
          simp del: append_Nil2 intro!: rawc.bind_enc)
  next
    case (DBinary r)
    with d have "delivers (raw_fields r @ []) rx rx'" by simp
    with DBinary ok show ?thesis
      by (auto simp: read_section_def receivable_def section_ok_def rdr_return_def section_types
          simp del: append_Nil2 intro!: rawc.bind_enc)
  next
    case (DFileinfo f)
    with d have del: "delivers (fileinfo_fields f @ []) rx rx'" by simp
    from DFileinfo ok have "fi_receivable f \<and> fi_pad f = fresh_pad junk" "t = ST_FILEINFO"
      by (auto simp: receivable_def section_ok_def fi_receivable_def received_def
          dest!: arg_cong[of _ _ fi_pad])
    with DFileinfo show ?thesis
      by (auto simp: read_section_def rdr_return_def section_types
          intro!: fileinfoc.bind_enc [OF del])
  next
    case DUninit
    with ok show ?thesis by (simp add: receivable_def)
  qed
qed

lemma receivable_received: "receivable s \<Longrightarrow> receivable (received p s)"
  by (cases "sec_data s") (auto simp: receivable_def section_ok_def received_def fileinfo_ok_def)

lemma received_idem: "received p (received p s) = received p s"
  by (cases "sec_data s") (simp_all add: received_def)

lemma section_fields_received [simp]: "section_fields (received p s) = section_fields s"
  by (simp add: section_fields_def received_def)

lemma read_sections_delivers:
  "list_all receivable ss \<Longrightarrow>
     delivers (concat (map section_fields ss) @ [be 2 ST_NONEXT]) rx rx' \<Longrightarrow>
     read_sections junk st acc rx = (Some (acc @ map (received (fresh_pad junk)) ss), rx')"
proof (induction ss arbitrary: st acc rx)
  case Nil
  then have "read_u16 st rx = (Some ST_NONEXT, rx')" by (intro u16c.dec_enc) simp_all
  then show ?case by (subst read_sections.simps) simp
next
  case (Cons s ss)
  let ?s = "received (fresh_pad junk) s"
  let ?rest = "concat (map section_fields ss) @ [be 2 ST_NONEXT]"
  from Cons.prems(2) have "delivers ([be 2 (sec_type s)] @ data_fields (sec_data s) @ ?rest) rx rx'"
    by (simp add: section_fields_def [of s])
  then obtain rx1 rx2 where d: "delivers [be 2 (sec_type s)] rx rx1"
      "delivers (data_fields (sec_data s)) rx1 rx2" "delivers ?rest rx2 rx'"
    by (auto simp only: delivers_append)
  from d(1) have t: "read_u16 st rx = (Some (sec_type s), rx1)" by (intro u16c.dec_enc) simp_all
  have "read_section junk (sec_type s) rx1 = (Some ?s, rx2)"
    by (rule sectionc.dec_enc)
      (use Cons.prems d(2) in \<open>simp_all add: receivable_received received_idem\<close>,
       simp add: received_def)
  with t Cons d(3) show ?case
    by (subst read_sections.simps) (simp add: receivable_type)
qed

lemma section_fields_end: "section_fields end_sec = [be 2 ST_NONEXT]"
  by (simp add: section_fields_def end_sec_def)

lemma receive_after_tid:
  assumes "read_u64 junk rx = (Some t, rx1)" and "length is = idcount p" and "list_all receivable ss"
    and "delivers (map (be 8) is @ be 2 ty # concat (map section_fields ss) @ [be 2 ST_NONEXT]) rx1 rx'"
  shows "fsmsg_from_socket junk p rx =
    (Some \<lparr>tid = t, ids = is @ [of_mem (junk_bytes junk 8)], msg_type = ty,
           sections = map (received (fresh_pad junk)) ss\<rparr>, rx')"
proof -
  have "map (be 8) is = concat (map (\<lambda>w. [be 8 w]) is)" by (induction "is") simp_all
  then have "delivers (concat (map (\<lambda>w. [be 8 w]) is) @ [be 2 ty] @
      concat (map section_fields ss) @ [be 2 ST_NONEXT]) rx1 rx'"
    using assms(4) by simp
  then obtain rx2 rx3 where d: "delivers (concat (map (\<lambda>w. [be 8 w]) is)) rx1 rx2"
      "delivers [be 2 ty] rx2 rx3"
      "delivers (concat (map section_fields ss) @ [be 2 ST_NONEXT]) rx3 rx'"
    by (auto simp only: delivers_append)
  have "rdr_times (idcount p) (read_u64 junk) rx1 = (Some is, rx2)"
    using u64c.times_enc[of "is" rx1 rx2 junk] d(1) assms(2) by simp
  moreover have "read_u16 0 rx2 = (Some ty, rx3)" using d(2) by (simp add: u16c.dec_enc)
  ultimately show ?thesis using read_sections_delivers[OF assms(3) d(3)] assms(1)
    by (simp add: fsmsg_from_socket_def rdr_bind_def rdr_return_def)
qed

lemma fsmsg_received:
  assumes "msg_ok p m" and "sections m = ss @ [end_sec]" and "list_all receivable ss"
    and "delivers (msg_fields p m) rx rx'"
  shows "fsmsg_from_socket junk p rx =
    (Some \<lparr>tid = tid m, ids = take (idcount p) (ids m) @ [of_mem (junk_bytes junk 8)],
           msg_type = msg_type m, sections = map (received (fresh_pad junk)) ss\<rparr>, rx')"
proof -
  obtain rx1 where rx1: "delivers [be 8 (tid m)] rx rx1"
      "delivers (map (be 8) (take (idcount p) (ids m)) @ be 2 (msg_type m) #
        concat (map section_fields ss) @ [be 2 ST_NONEXT]) rx1 rx'"
    using assms(4) by (auto simp: msg_fields_def assms(2) section_fields_end)
  have "read_u64 junk rx = (Some (tid m), rx1)" using rx1(1) by (simp add: u64c.dec_enc)
  then show ?thesis using assms(1,3) rx1(2) by (intro receive_after_tid) (auto simp: msg_ok_def)
qed

text \<open>
  C5. Round trip. A message built by the program (its sections end with \<open>ST_NONEXT\<close>, the others are
  receivable) is received as it was sent, whatever the receiver's memory held before, and the
  bytes after it are left in the stream, provided the network delivers each field whole.
\<close>

theorem fsmsg_roundtrip:
  assumes "msg_ok p m" and "sections m = ss @ [end_sec]" and "list_all receivable ss"
    and "delivers (msg_fields p m) rx rx'"
  shows "fsmsg_from_socket junk p rx =
    (Some \<lparr>tid = tid m, ids = take (idcount p) (ids m) @ [of_mem (junk_bytes junk 8)],
           msg_type = msg_type m, sections = map (received (fresh_pad junk)) ss\<rparr>, rx')"
  using assms by (rule fsmsg_received)

theorem fsmsg_roundtrip_witness:
  "\<exists>m. fsmsg_from_socket (\<lambda>_. 0) DCP
      [wire DCP \<lparr>tid = 1, ids = [7, 8, 0], msg_type = 5, sections = [int_sec 3, end_sec]\<rparr>] = (Some m, [[]]) \<and>
     tid m = 1 \<and> msg_type m = 5 \<and> sections m = [int_sec 3]"
proof -
  let ?m = "\<lparr>tid = 1, ids = [7, 8, 0], msg_type = 5, sections = [int_sec 3, end_sec]\<rparr>"
  have "delivers (msg_fields DCP ?m) ((concat (msg_fields DCP ?m) @ []) # []) ([] # [])"
    by (rule delivers_one_piece)
      (auto simp: msg_fields_def section_fields_def sec_defs)
  from fsmsg_roundtrip [OF _ _ _ this, of "[int_sec 3]" "\<lambda>_. 0"] show ?thesis
    by (simp add: msg_ok_def wire_def)
qed

lemma fields_nonempty:
  assumes "list_all receivable ss"
  shows "[] \<notin> set (concat (map section_fields (ss @ [end_sec])))"
proof -
  have "[] \<notin> set (data_fields (sec_data s))" if "s \<in> set ss" for s
    by (cases "sec_data s") (auto simp: raw_fields_def fileinfo_fields_def blk_def)
  then show ?thesis by (auto simp: section_fields_def end_sec_def)
qed

lemma msg_fields_nonempty:
  assumes "sections m = ss @ [end_sec]" and "list_all receivable ss"
  shows "[] \<notin> set (msg_fields p m)"
  using fields_nonempty[OF assms(2)] by (auto simp: msg_fields_def assms(1))

lemma to_buffer_from_socket:
  assumes "msg_ok p m" and "sections m = ss @ [end_sec]" and "list_all receivable ss"
    and "fsmsg_to_buffer m p = Inr (n, buf)" and "int (length (wire p m)) \<le> MSG_MAX"
  shows "fsmsg_from_socket junk p ((buf @ c) # cs) =
    (Some \<lparr>tid = tid m, ids = take (idcount p) (ids m) @ [of_mem (junk_bytes junk 8)],
           msg_type = msg_type m, sections = map (received (fresh_pad junk)) ss\<rparr>, c # cs)"
proof -
  have buf: "buf = concat (msg_fields p m)"
    using fsmsg_to_buffer_wire_eq[OF assms(1,5)] assms(4) by (simp add: wire_def)
  show ?thesis unfolding buf
    by (rule fsmsg_received[OF assms(1-3)])
      (rule delivers_one_piece, rule msg_fields_nonempty[OF assms(2,3)])
qed

text \<open>
  C26. A short read is not noticed: when the network delivers only the first bytes of a message's
  transaction id in the first piece, a message that is received at all has an id whose missing
  bytes are those that the receiver's memory held before.
\<close>

theorem fsmsg_short_read:
  assumes "0 < length c" and "length c < 8"
    and "fsmsg_from_socket junk p (c # cs) = (Some m, rx')"
  shows "be 8 (tid m) = c @ drop (length c) (junk_bytes junk 8)"
proof -
  let ?b = "c @ drop (length c) (junk_bytes junk 8)"
  have "read_u64 junk (c # cs) = (Some (ntohll (of_mem ?b)), [] # cs)"
    using assms(1,2) by (simp add: read_u64_def rdr_bind_def rd_field_def rdr_return_def)
  then have "tid m = ntohll (of_mem ?b)"
    using assms(3)
    by (auto simp: fsmsg_from_socket_def rdr_bind_def rdr_return_def
        split: prod.splits option.splits)
  then show ?thesis using assms(2)
    by (simp add: be_def ntohll_def wire_swap64 mem_bytes_of_mem)
qed

theorem fsmsg_short_read_witness:
  "be 8 (tid (the (fst (fsmsg_from_socket (\<lambda>_. 7) FCTP
     [[1, 2], be 8 (0::u64), be 8 (0::u64), be 2 (1::u16), be 2 ST_NONEXT])))) = [1, 2, 7, 7, 7, 7, 7, 7]"
proof -
  let ?cs = "[be 8 (0::u64), be 8 (0::u64), be 2 (1::u16), be 2 ST_NONEXT]"
  have "read_u64 (\<lambda>_. 7) ([1, 2] # ?cs) =
      (Some (ntohll (of_mem [1, 2, 7, 7, 7, 7, 7, 7])), [] # ?cs)"
    by (simp add: read_u64_def rdr_bind_def rd_field_def rdr_return_def junk_bytes_def upt_rec)
  then have "\<exists>m rx'. fsmsg_from_socket (\<lambda>_. 7) FCTP ([1, 2] # ?cs) = (Some m, rx')"
    using receive_after_tid[of "\<lambda>_. 7" "[1, 2] # ?cs" _ "[] # ?cs" "[0, 0]" FCTP "[]" 1 "[[]]"]
    by auto
  then show ?thesis
    using fsmsg_short_read[of "[1, 2]" "\<lambda>_. 7" FCTP ?cs] by (auto simp: junk_bytes_def upt_rec)
qed

end
