(* ===== verification/Netutil.thy ===== *)
theory Netutil
  imports Sockets
begin

text \<open>
  \<open>recvfile\<close> of \<^verbatim>\<open>src/src/netutil.c\<close>, the loop that copies a file of a given length from a
  socket. It always asks for a full buffer and stops only when the count of missing bytes is
  exactly 0 or a system call fails; a closed connection reads as 0 bytes and does not end it, and
  what a short write leaves over is dropped. The loop is a \<^theory_text>\<open>partial_function\<close> whose value
  \<open>None\<close> is a loop that never ends; the theorems say exactly when it ends. \<open>start_listen\<close> and
  \<open>get_server_address\<close> only wrap system calls and are not modelled.
\<close>

definition RECVBUFSIZE :: nat where "RECVBUFSIZE = 1024"

text \<open>
  \<open>err\<close>: what \<open>read\<close> returns after the last piece, an error (a reset connection) or 0. The bytes
  written so far are \<open>out\<close>.
\<close>

partial_function (option) recv_loop ::
  "writes \<Rightarrow> bool \<Rightarrow> nat \<Rightarrow> int \<Rightarrow> bytes \<Rightarrow> stream \<Rightarrow> (int \<times> bytes \<times> stream) res option" where
  "recv_loop wr err i left out rx =
     (if left = 0 then Some (Inr (0, out, rx))
      else let (got, rx') = rd RECVBUFSIZE rx in
        if got = [] \<and> err then Some (Inr (-1, out, rx'))
        else let w = min (int (length got)) (wr i (length got)) in
          if w < 0 then Some (Inr (-1, out, rx'))
          else if left - w < INT_MIN then Some (Inl (Fault IntOverflow))
          else recv_loop wr err (Suc i) (left - w) (out @ take (nat w) got) rx')"

definition recvfile :: "writes \<Rightarrow> bool \<Rightarrow> stream \<Rightarrow> int \<Rightarrow> (int \<times> bytes \<times> stream) res option" where
  "recvfile wr err rx len =
     map_option (\<lambda>r. rbind r (\<lambda>(ret, out, rx'). Inr (if ret < 0 then ret else len, out, rx')))
       (recv_loop wr err 0 len [] rx)"

section \<open>The rounds of the loop\<close>

text \<open>
  Round \<open>k\<close>, counted from 0: the stream before it, what it reads, what its write takes, and what has
  been written before it.
\<close>

fun rest_at :: "nat \<Rightarrow> stream \<Rightarrow> stream" where
  "rest_at 0 rx = rx"
| "rest_at (Suc k) rx = rest_at k (snd (rd RECVBUFSIZE rx))"

definition got_at :: "nat \<Rightarrow> stream \<Rightarrow> bytes" where
  "got_at k rx = fst (rd RECVBUFSIZE (rest_at k rx))"

definition taken_at :: "writes \<Rightarrow> nat \<Rightarrow> stream \<Rightarrow> bytes" where
  "taken_at wr k rx = take (nat (wr k (length (got_at k rx)))) (got_at k rx)"

definition copied :: "writes \<Rightarrow> nat \<Rightarrow> stream \<Rightarrow> bytes" where
  "copied wr k rx = concat (map (\<lambda>j. taken_at wr j rx) [0..<k])"

text \<open>The loop is over before the read of round \<open>k\<close>, or one of its system calls fails.\<close>

definition ends_at :: "writes \<Rightarrow> bool \<Rightarrow> int \<Rightarrow> stream \<Rightarrow> nat \<Rightarrow> bool" where
  "ends_at wr err len rx k \<longleftrightarrow> int (length (copied wr k rx)) = len \<or>
     got_at k rx = [] \<and> err \<or> wr k (length (got_at k rx)) < 0"

lemma round_shift:
  assumes "rd RECVBUFSIZE rx = (got, rx')"
  shows "got_at 0 rx = got" and "got_at (Suc k) rx = got_at k rx'"
    and "taken_at wr (Suc k) rx = taken_at (\<lambda>j. wr (Suc j)) k rx'"
    and "copied wr (Suc k) rx = taken_at wr 0 rx @ copied (\<lambda>j. wr (Suc j)) k rx'"
proof -
  show "got_at 0 rx = got" and g: "got_at (Suc k) rx = got_at k rx'" for k
    using assms by (simp_all add: got_at_def)
  from g show t: "taken_at wr (Suc k) rx = taken_at (\<lambda>j. wr (Suc j)) k rx'" for k
    by (simp add: taken_at_def)
  have "[0..<Suc k] = 0 # map Suc [0..<k]" by (simp add: map_Suc_upt upt_conv_Cons)
  then show "copied wr (Suc k) rx = taken_at wr 0 rx @ copied (\<lambda>j. wr (Suc j)) k rx'"
    by (simp add: copied_def t comp_def del: upt_Suc)
qed

lemma copied_0 [simp]: "copied wr 0 rx = []"
  by (simp add: copied_def)

lemma ends_shift:
  assumes "rd RECVBUFSIZE rx = (got, rx')" and "w = min (int (length got)) (wr 0 (length got))" and "0 \<le> w"
  shows "ends_at wr err len rx (Suc k) \<longleftrightarrow> ends_at (\<lambda>j. wr (Suc j)) err (len - w) rx' k"
proof -
  have "int (length (taken_at wr 0 rx)) = w"
    using assms(2,3) round_shift(1) [OF assms(1)] by (auto simp: taken_at_def min_def)
  then show ?thesis
    by (auto simp: ends_at_def round_shift [OF assms(1)])
qed

lemma ends_first:
  assumes "rd RECVBUFSIZE rx = (got, rx')"
  shows "ends_at wr err len rx 0 \<longleftrightarrow>
    len = 0 \<or> got = [] \<and> err \<or> min (int (length got)) (wr 0 (length got)) < 0"
  by (auto simp: ends_at_def round_shift(1) [OF assms])

text \<open>When some round ends the loop, the first such round does, with what has been written by then.\<close>

lemma recv_loop_ends:
  assumes "INT_MIN \<le> left - int (stream_size rx)" and "ends_at (\<lambda>j. wr (i + j)) err left rx k"
    and "\<forall>j<k. \<not> ends_at (\<lambda>j. wr (i + j)) err left rx j"
  shows "\<exists>rx'. recv_loop wr err i left out rx =
    Some (Inr (if int (length (copied (\<lambda>j. wr (i + j)) k rx)) = left then 0 else -1,
      out @ copied (\<lambda>j. wr (i + j)) k rx, rx'))"
  using assms
proof (induction k arbitrary: i left out rx)
  case 0
  obtain got rx' where rd: "rd RECVBUFSIZE rx = (got, rx')" by fastforce
  from 0(2) show ?case
    unfolding ends_first [OF rd] by (subst recv_loop.simps) (auto simp: rd Let_def)
next
  case (Suc k)
  let ?wr = "\<lambda>j. wr (i + j)"
  obtain got rx' where rd: "rd RECVBUFSIZE rx = (got, rx')" by fastforce
  define w where "w = min (int (length got)) (?wr 0 (length got))"
  from Suc.prems(3) have first: "left \<noteq> 0" "\<not> (got = [] \<and> err)" "0 \<le> w"
    using ends_first [OF rd, of ?wr err left] by (auto simp: w_def)
  note sh = ends_shift [where wr = ?wr, OF rd w_def first(3)]
  have size: "stream_size rx = length got + stream_size rx'" using rd by (rule rd_size)
  have w: "w \<le> int (length got)" by (simp add: w_def)
  with size Suc.prems(1) have no: "INT_MIN \<le> left - w - int (stream_size rx')" "\<not> left - w < INT_MIN"
    by linarith+
  have "min (int (length got)) (wr i (length got)) = w" by (simp add: w_def)
  with no first rd have step: "recv_loop wr err i left out rx =
      recv_loop wr err (Suc i) (left - w) (out @ take (nat w) got) rx'"
    by (subst recv_loop.simps) (auto simp: Let_def)
  have "ends_at (\<lambda>j. wr (Suc i + j)) err (left - w) rx' k"
    "\<forall>j<k. \<not> ends_at (\<lambda>j. wr (Suc i + j)) err (left - w) rx' j"
    using Suc.prems(2,3) sh by auto
  from Suc.IH [OF no(1) this] obtain rx'' where r: "recv_loop wr err i left out rx =
    Some (Inr (if int (length (copied (\<lambda>j. wr (Suc i + j)) k rx')) = left - w then 0 else -1,
      (out @ take (nat w) got) @ copied (\<lambda>j. wr (Suc i + j)) k rx', rx''))"
    unfolding step by blast
  have "taken_at ?wr 0 rx = take (nat w) got"
    using round_shift(1) [OF rd] by (auto simp: taken_at_def w_def min_def)
  then have c: "copied ?wr (Suc k) rx = take (nat w) got @ copied (\<lambda>j. wr (Suc i + j)) k rx'"
    using round_shift(4) [OF rd, of ?wr k] by simp
  have "int (length (take (nat w) got)) = w" using first(3) w by simp
  with r c show ?case by auto
qed

text \<open>When no round does, the loop has no end.\<close>

lemma recv_loop_returns:
  assumes "recv_loop wr err i left out rx = Some q" and "INT_MIN \<le> left - int (stream_size rx)"
  shows "\<exists>k. ends_at (\<lambda>j. wr (i + j)) err left rx k"
proof -
  have "INT_MIN \<le> left - int (stream_size rx) \<longrightarrow> (\<exists>k. ends_at (\<lambda>j. wr (i + j)) err left rx k)"
  proof (rule recv_loop.raw_induct [where P = "\<lambda>wr e i l ou s q. INT_MIN \<le> l - int (stream_size s) \<longrightarrow>
      (\<exists>k. ends_at (\<lambda>j. wr (i + j)) e l s k)", OF _ assms(1)], intro impI)
    fix f :: "writes \<Rightarrow> bool \<Rightarrow> nat \<Rightarrow> int \<Rightarrow> bytes \<Rightarrow> stream \<Rightarrow> (int \<times> bytes \<times> stream) res option"
    fix wr :: writes and e i l ou s q
    assume IH: "\<And>wr e i l ou s q. f wr e i l ou s = Some q \<Longrightarrow> INT_MIN \<le> l - int (stream_size s) \<longrightarrow>
        (\<exists>k. ends_at (\<lambda>j. wr (i + j)) e l s k)"
      and eq: "(if l = 0 then Some (Inr (0, ou, s))
        else let (got, rx') = rd RECVBUFSIZE s in
          if got = [] \<and> e then Some (Inr (- 1, ou, rx'))
          else let w = min (int (length got)) (wr i (length got)) in
            if w < 0 then Some (Inr (- 1, ou, rx'))
            else if l - w < INT_MIN then Some (Inl (Fault IntOverflow))
            else f wr e (Suc i) (l - w) (ou @ take (nat w) got) rx') = Some q"
      and min: "INT_MIN \<le> l - int (stream_size s)"
    obtain got s' where rd: "rd RECVBUFSIZE s = (got, s')" by fastforce
    define w where "w = min (int (length got)) (wr (i + 0) (length got))"
    show "\<exists>k. ends_at (\<lambda>j. wr (i + j)) e l s k"
    proof (cases "ends_at (\<lambda>j. wr (i + j)) e l s 0")
      case False
      with ends_first [OF rd, of "\<lambda>j. wr (i + j)" e l]
      have first: "l \<noteq> 0" "\<not> (got = [] \<and> e)" "0 \<le> w" by (auto simp: w_def)
      have "stream_size s = length got + stream_size s'" using rd by (rule rd_size)
      moreover have "w \<le> int (length got)" by (simp add: w_def)
      ultimately have no: "INT_MIN \<le> l - w - int (stream_size s')" "\<not> l - w < INT_MIN"
        using min by linarith+
      with first eq rd have "f wr e (Suc i) (l - w) (ou @ take (nat w) got) s' = Some q"
        by (auto simp: Let_def w_def split: if_splits)
      from IH [OF this] no(1) obtain k where "ends_at (\<lambda>j. wr (Suc i + j)) e (l - w) s' k" by auto
      with ends_shift [where wr = "\<lambda>j. wr (i + j)", OF rd w_def first(3), of e l k] show ?thesis by auto
    qed blast
  qed
  with assms(2) show ?thesis by simp
qed

section \<open>When the loop ends\<close>

text \<open>The reads the loop makes of a stream, up to its end.\<close>

function reads :: "stream \<Rightarrow> bytes list" where
  "reads rx = (let (got, rx') = rd RECVBUFSIZE rx in if got = [] then [] else got # reads rx')"
  by pat_completeness auto
termination
proof (relation "measure stream_size", goal_cases)
  case 1
  show ?case by simp
next
  case (2 rx r got rx')
  then have "stream_size rx = length got + stream_size rx'" by (metis rd_size)
  with 2 show ?case by simp
qed

declare reads.simps [simp del]

lemma concat_reads: "concat (reads rx) = concat rx"
proof (induction rx rule: reads.induct)
  case (1 rx)
  obtain got rx' where rd: "rd RECVBUFSIZE rx = (got, rx')" by fastforce
  show ?case
  proof (cases "got = []")
    case True
    then show ?thesis using rd rd_empty[of RECVBUFSIZE rx rx']
      by (subst reads.simps) (simp add: RECVBUFSIZE_def)
  next
    case False
    then have "concat (reads rx') = concat rx'" using 1 rd by simp
    then show ?thesis using False rd rd_concat[OF rd] by (subst reads.simps) simp
  qed
qed

text \<open>At the end of the stream nothing changes from one round to the next.\<close>

lemma got_at_end:
  assumes "concat rx = []"
  shows "got_at k rx = []" and "copied wr k rx = []"
proof -
  show g: "got_at k rx = []" for k
    using assms
  proof (induction k arbitrary: rx)
    case (0 rx)
    obtain got rx' where rd: "rd RECVBUFSIZE rx = (got, rx')" by fastforce
    from 0 rd_concat [OF rd] show ?case by (simp add: round_shift(1) [OF rd])
  next
    case (Suc k rx)
    obtain got rx' where rd: "rd RECVBUFSIZE rx = (got, rx')" by fastforce
    from Suc.prems rd_concat [OF rd] show ?case by (simp add: round_shift(2) [OF rd] Suc.IH)
  qed
  show "copied wr k rx = []" by (simp add: copied_def taken_at_def g)
qed

lemma recv_loop_at_end:
  assumes "whole wr" and "left \<noteq> 0" and "INT_MIN \<le> left" and "concat rx = []"
  shows "recv_loop wr False i left out rx = None"
proof (rule ccontr)
  assume "recv_loop wr False i left out rx \<noteq> None"
  then obtain q where "recv_loop wr False i left out rx = Some q" by auto
  from recv_loop_returns [OF this] assms(3,4) obtain k where
    "ends_at (\<lambda>j. wr (i + j)) False left rx k" by (auto simp: stream_size_def)
  moreover have "0 \<le> wr (i + k) 0" using assms(1) [unfolded whole_def, rule_format, of 0 "i + k"] by simp
  ultimately show False using assms(2) got_at_end [OF assms(4)] by (simp add: ends_at_def)
qed

definition stops_at :: "int \<Rightarrow> stream \<Rightarrow> bool" where
  "stops_at left rx \<longleftrightarrow>
     (\<exists>k \<le> length (reads rx). left = int (length (concat (take k (reads rx)))))"

lemma stops_at_step:
  assumes "rd RECVBUFSIZE rx = (got, rx')" and "got \<noteq> []"
  shows "stops_at left rx \<longleftrightarrow> left = 0 \<or> stops_at (left - int (length got)) rx'"
proof -
  have "reads rx = got # reads rx'" using assms by (subst reads.simps) simp
  then have "stops_at left rx \<longleftrightarrow> left = 0 \<or>
      (\<exists>k \<le> length (reads rx'). left = int (length got + length (concat (take k (reads rx')))))"
    by (auto simp: stops_at_def Ex_less_Suc2 less_Suc_eq_le [symmetric])
  moreover have "left = int (length got + n) \<longleftrightarrow> left - int (length got) = int n" for n by auto
  ultimately show ?thesis by (auto simp: stops_at_def)
qed

lemma stops_at_end: "rd RECVBUFSIZE rx = ([], rx') \<Longrightarrow> stops_at left rx \<longleftrightarrow> left = 0"
  by (simp add: stops_at_def reads.simps [of rx])

lemma stops_at_nonneg: "stops_at left rx \<Longrightarrow> 0 \<le> left"
  by (auto simp: stops_at_def)

lemma recv_loop_result:
  assumes "whole wr" and "INT_MIN \<le> left - int (stream_size rx)"
  shows "if stops_at left rx
     then \<exists>rx'. recv_loop wr err i left out rx = Some (Inr (0, out @ take (nat left) (concat rx), rx')) \<and>
            concat rx' = drop (nat left) (concat rx)
     else if err then \<exists>rx'. recv_loop wr err i left out rx = Some (Inr (-1, out @ concat rx, rx'))
     else recv_loop wr err i left out rx = None"
  using assms(2)
proof (induction rx arbitrary: i left out rule: reads.induct)
  case (1 rx)
  obtain got rx' where rd: "rd RECVBUFSIZE rx = (got, rx')" by fastforce
  show ?case
  proof (cases "left = 0")
    case True
    moreover have "stops_at 0 rx" by (auto simp: stops_at_def intro: exI [of _ 0])
    ultimately show ?thesis by (simp add: recv_loop.simps)
  next
    case left: False
    show ?thesis
    proof (cases "got = []")
      case True
      then have "concat rx = []" using rd rd_empty[of RECVBUFSIZE rx rx']
        by (simp add: RECVBUFSIZE_def)
      moreover have "INT_MIN \<le> left" using 1(2) by simp
      ultimately show ?thesis using left True rd recv_loop_at_end[OF assms(1), of left rx i out]
        by (cases err) (simp_all add: stops_at_end recv_loop.simps [of _ True])
    next
      case False
      let ?l = "left - int (length got)"
      have size: "stream_size rx = length got + stream_size rx'" using rd by (rule rd_size)
      then have "INT_MIN \<le> ?l" "INT_MIN \<le> ?l - int (stream_size rx')" using 1(2) by simp_all
      moreover have "min (int (length got)) (wr i (length got)) = int (length got)"
        using assms(1) by (auto simp: whole_def min_def dest: spec [of _ i] intro: antisym)
      with calculation have step: "recv_loop wr err i left out rx = recv_loop wr err (Suc i) ?l (out @ got) rx'"
        using left False rd by (subst recv_loop.simps) (simp add: Let_def)
      moreover have "concat rx = got @ concat rx'" using rd by (rule rd_concat)
      moreover have "stops_at left rx = stops_at ?l rx'"
        using left False rd by (simp add: stops_at_step)
      moreover have "stops_at ?l rx' \<Longrightarrow> nat left = length got + nat ?l"
        using stops_at_nonneg[of ?l rx'] by simp
      ultimately show ?thesis
        using "1.IH"[OF rd [symmetric] refl False, of ?l "Suc i" "out @ got"] by auto
    qed
  qed
qed

text \<open>A connection that holds exactly the file, in any pieces, is copied and left empty.\<close>

lemma recvfile_exact:
  assumes "whole wr"
  shows "\<exists>rx'. recvfile wr err rx (int (length (concat rx))) =
      Some (Inr (int (length (concat rx)), concat rx, rx')) \<and> concat rx' = []"
proof -
  have "stops_at (int (length (concat rx))) rx"
    unfolding stops_at_def by (rule exI [of _ "length (reads rx)"]) (simp add: concat_reads)
  then show ?thesis
    using recv_loop_result [OF assms, of "int (length (concat rx))" rx err 0 "[]"]
    by (auto simp: recvfile_def stream_size_def)
qed

text \<open>
  After a write that took less than it was given, the loop waits for bytes that do not come: no
  number of bytes that is written ever reaches the length of the file again.
\<close>

lemma copied_bound: "length (copied wr k rx) + stream_size (rest_at k rx) \<le> stream_size rx"
proof (induction k arbitrary: wr rx)
  case (Suc k)
  obtain got rx' where rd: "rd RECVBUFSIZE rx = (got, rx')" by fastforce
  have "length (taken_at wr 0 rx) \<le> length got" by (simp add: taken_at_def round_shift(1) [OF rd])
  with Suc.IH [of "\<lambda>j. wr (Suc j)" rx'] rd_size [OF rd] show ?case
    by (simp add: round_shift(4) [OF rd] rd)
qed simp

lemma copied_short:
  assumes "length (taken_at wr j rx) < length (got_at j rx)" and "j < k"
  shows "length (copied wr k rx) < stream_size rx"
  using assms
proof (induction k arbitrary: j wr rx)
  case (Suc k)
  obtain got rx' where rd: "rd RECVBUFSIZE rx = (got, rx')" by fastforce
  have le: "length (taken_at wr 0 rx) \<le> length got" by (simp add: taken_at_def round_shift(1) [OF rd])
  show ?case
  proof (cases j)
    case 0
    with Suc.prems have "length (taken_at wr 0 rx) < length got" by (simp add: round_shift(1) [OF rd])
    with copied_bound [of "\<lambda>j. wr (Suc j)" k rx'] rd_size [OF rd] show ?thesis
      by (simp add: round_shift(4) [OF rd])
  next
    case (Suc i)
    with Suc.prems have "length (taken_at (\<lambda>j. wr (Suc j)) i rx') < length (got_at i rx')" "i < k"
      by (simp_all add: round_shift(2,3) [OF rd])
    from Suc.IH [OF this] le rd_size [OF rd] show ?thesis by (simp add: round_shift(4) [OF rd])
  qed
qed simp

lemma got_at_add: "got_at (k + i) rx = got_at i (rest_at k rx)"
proof (induction k arbitrary: rx)
  case (Suc k)
  obtain got rx' where rd: "rd RECVBUFSIZE rx = (got, rx')" by fastforce
  with Suc.IH [of rx'] show ?case by (simp add: round_shift(2) [OF rd])
qed simp

lemma recvfile_short_write:
  assumes "\<forall>i n. 0 \<le> wr i n" and "stream_size rx < 2 ^ 31"
    and "length (taken_at wr j rx) < length (got_at j rx)"
  shows "recvfile wr False rx (int (stream_size rx)) = None"
proof (rule ccontr)
  assume "recvfile wr False rx (int (stream_size rx)) \<noteq> None"
  then obtain q where "recv_loop wr False 0 (int (stream_size rx)) [] rx = Some q"
    by (auto simp: recvfile_def)
  from recv_loop_returns [OF this] assms(1) obtain k where
    k: "length (copied wr k rx) = stream_size rx" by (auto simp: ends_at_def not_less [symmetric])
  show False
  proof (cases "j < k")
    case True
    from copied_short [OF assms(3) True] k show ?thesis by simp
  next
    case False
    then obtain i where "j = k + i" using le_iff_add [of k j] by auto
    moreover have "concat (rest_at k rx) = []" using copied_bound [of wr k rx] k by (simp add: stream_size_def)
    ultimately show ?thesis using assms(3) got_at_end(1) by (simp add: got_at_add)
  qed
qed

text \<open>
  C23. When \<open>recvfile\<close> returns. The loop ends if and only if there is a round before which exactly
  \<open>len\<close> bytes have been written, or in which a system call fails; the first such round decides the
  result, and the file holds what the writes of the rounds before it took. In particular, when the
  writes are complete and the peer closes after its data, it ends if and only if some number of the
  reads adds up to exactly \<open>len\<close>, having written exactly that prefix and left the rest; when the
  peer closes early, when the last read also takes bytes of what follows, or when \<open>len\<close> is
  negative, it loops for ever.
\<close>

theorem recvfile_returns_iff:
  assumes "INT_MIN \<le> len - int (stream_size rx)"
  shows "(recvfile wr err rx len \<noteq> None \<longleftrightarrow> (\<exists>k. ends_at wr err len rx k)) \<and>
    (\<forall>k. ends_at wr err len rx k \<and> (\<forall>j<k. \<not> ends_at wr err len rx j) \<longrightarrow>
      (\<exists>rx'. recvfile wr err rx len =
         Some (Inr (if int (length (copied wr k rx)) = len then len else -1, copied wr k rx, rx')))) \<and>
    (whole wr \<longrightarrow>
      (if stops_at len rx
       then \<exists>rx'. recvfile wr False rx len = Some (Inr (len, take (nat len) (concat rx), rx')) \<and>
              concat rx' = drop (nat len) (concat rx)
       else recvfile wr False rx len = None))"
proof (intro conjI allI impI)
  show "recvfile wr err rx len \<noteq> None \<longleftrightarrow> (\<exists>k. ends_at wr err len rx k)"
  proof
    assume "recvfile wr err rx len \<noteq> None"
    then obtain q where "recv_loop wr err 0 len [] rx = Some q" by (auto simp: recvfile_def)
    from recv_loop_returns [OF this assms] show "\<exists>k. ends_at wr err len rx k" by simp
  next
    assume "\<exists>k. ends_at wr err len rx k"
    then obtain k where "ends_at wr err len rx k" "\<forall>j<k. \<not> ends_at wr err len rx j"
      using exists_least_iff [of "ends_at wr err len rx"] by blast
    from recv_loop_ends [OF assms, of wr 0 err k "[]"] this show "recvfile wr err rx len \<noteq> None"
      by (auto simp: recvfile_def)
  qed
next
  fix k
  assume k: "ends_at wr err len rx k \<and> (\<forall>j<k. \<not> ends_at wr err len rx j)"
  from recv_loop_ends [OF assms, of wr 0 err k "[]"] k
  show "\<exists>rx'. recvfile wr err rx len =
      Some (Inr (if int (length (copied wr k rx)) = len then len else -1, copied wr k rx, rx'))"
    by (auto simp: recvfile_def)
next
  assume "whole wr"
  from recv_loop_result [OF this assms, of False 0 "[]"]
  show "if stops_at len rx
    then \<exists>rx'. recvfile wr False rx len = Some (Inr (len, take (nat len) (concat rx), rx')) \<and>
           concat rx' = drop (nat len) (concat rx)
    else recvfile wr False rx len = None"
    by (auto simp: recvfile_def split: if_splits)
qed

theorem recvfile_returns_iff_witness:
  "(\<exists>rx'. recvfile (\<lambda>_. int) False [[1, 2], [3]] 2 = Some (Inr (2, [1, 2], rx')) \<and> concat rx' = [3]) \<and>
   recvfile (\<lambda>_. int) False [[1, 2, 3]] 2 = None \<and>
   (\<exists>rx'. recvfile (\<lambda>i n. if i = 0 then 1 else -1) False [[1, 2], [3]] 2 = Some (Inr (-1, [1], rx')))"
proof -
  have w: "whole (\<lambda>_. int)" by (simp add: whole_def)
  have r: "reads [[1, 2], [3]] = [[1, 2], [3]]" "reads [[1, 2, 3]] = [[1, 2, 3]]"
    by (simp_all add: reads.simps RECVBUFSIZE_def)
  then have "stops_at 2 [[1, 2], [3]]" "\<not> stops_at 2 [[1, 2, 3]]"
    by (auto simp: stops_at_def take_Cons' intro!: exI [of _ 1])
  moreover let ?wr = "\<lambda>i n. if i = 0 then 1 else -1 :: int"
  have "ends_at ?wr False 2 [[1, 2], [3]] (Suc 0)" "\<forall>j<Suc 0. \<not> ends_at ?wr False 2 [[1, 2], [3]] j"
      "copied ?wr (Suc 0) [[1, 2], [3]] = [1]"
    by (simp_all add: ends_at_def got_at_def copied_def taken_at_def RECVBUFSIZE_def)
  ultimately show ?thesis
    using recvfile_returns_iff [of 2 "[[1, 2], [3]]" "\<lambda>_. int"] recvfile_returns_iff [of 2 "[[1, 2, 3]]" "\<lambda>_. int"]
      recvfile_returns_iff [of 2 "[[1, 2], [3]]" ?wr False, THEN conjunct2, THEN conjunct1, rule_format, of "Suc 0"] w
    by (simp add: stream_size_def)
qed

end
