(* ===== verification/Msg_Io.thy ===== *)
theory Msg_Io
  imports Wire_In
begin

text \<open>
  The network as a process sees it, \<open>fsmsg_send\<close> and \<open>fsmsg_from_socket\<close> on it, the macro
  \<open>TESTST\<close> of \<^verbatim>\<open>src/src/protomsg.h\<close> with which the protocols check the sections of a received
  message, and the fact that every received message is well-formed.
\<close>

section \<open>The network state of a process\<close>

text \<open>
  For each descriptor: what will still arrive, whether the end of it is an error, what has been
  written, whether the peer still takes data, and what the writes of a file's data to it return. A
  message is written to a blocking socket and goes out in one piece, or not at all.
\<close>

record netw =
  inq :: "int \<Rightarrow> stream"
  in_err :: "int \<Rightarrow> bool"
  outq :: "int \<Rightarrow> bytes"
  out_ok :: "int \<Rightarrow> bool"
  out_wr :: "int \<Rightarrow> writes"

text \<open>A network on which nothing has arrived or been sent.\<close>

definition idle_net :: netw where
  "idle_net = \<lparr>inq = \<lambda>_. [], in_err = \<lambda>_. False, outq = \<lambda>_. [], out_ok = \<lambda>_. True,
       out_wr = \<lambda>_ _. int\<rparr>"

lemma idle_net_simps [simp]:
  "inq idle_net sd = []" "outq idle_net sd = []" "out_ok idle_net sd" "\<not> in_err idle_net sd"
  "out_wr idle_net sd = (\<lambda>_. int)"
  by (simp_all add: idle_net_def)

text \<open>\<open>fsmsg_send\<close>: a failed \<open>write\<close> ends the process in \<open>syscallerr\<close>.\<close>

definition fsmsg_send :: "int \<Rightarrow> fsmsg \<Rightarrow> fsmsg_protocol \<Rightarrow> netw \<Rightarrow> (int \<times> netw) res" where
  "fsmsg_send sd msg protocol net =
     rbind (fsmsg_to_buffer msg protocol) (\<lambda>(len, buffer).
     if out_ok net sd
     then Inr (len, net\<lparr>outq := (outq net)(sd := outq net sd @ take (nat len) buffer)\<rparr>)
     else Inl Exit)"

lemma ends_send [ends_intros]: "ends w (fsmsg_send sd m p net)"
  by (auto simp: fsmsg_send_def intro!: ends_intros)

definition recv_msg ::
  "(nat \<Rightarrow> u8) \<Rightarrow> int \<Rightarrow> fsmsg_protocol \<Rightarrow> netw \<Rightarrow> fsmsg option \<times> netw" where
  "recv_msg junk sd protocol net =
     (let (r, s) = fsmsg_from_socket junk protocol (inq net sd)
      in (r, net\<lparr>inq := (inq net)(sd := s)\<rparr>))"

definition sent :: "int \<Rightarrow> bytes \<Rightarrow> netw \<Rightarrow> netw" where
  "sent sd b net = net\<lparr>outq := (outq net)(sd := outq net sd @ b)\<rparr>"

lemma sent_simps [simp]:
  "inq (sent sd b net) = inq net" "in_err (sent sd b net) = in_err net"
  "out_ok (sent sd b net) = out_ok net" "out_wr (sent sd b net) = out_wr net"
  "outq (sent sd b net) sd' = (if sd' = sd then outq net sd @ b else outq net sd')"
  by (simp_all add: sent_def)

lemma fsmsg_send_ok:
  assumes "msg_ok p m" and "int (length (wire p m)) \<le> MSG_MAX" and "out_ok net sd"
  shows "fsmsg_send sd m p net = Inr (int (length (wire p m)), sent sd (wire p m) net)"
  using fsmsg_to_buffer_wire_eq[OF assms(1,2)] assms(3) by (simp add: fsmsg_send_def sent_def)

text \<open>\<open>msg->ids[i]\<close>.\<close>

definition nth_id :: "fsmsg \<Rightarrow> nat \<Rightarrow> u64 res" where
  "nth_id m i = (if i < length (ids m) then Inr (ids m ! i) else Inl (Fault OutOfBounds))"

section \<open>Received messages are well-formed\<close>

text \<open>\<open>gives m P\<close>: every value the reader returns satisfies \<open>P\<close>.\<close>

definition gives :: "'a rdr \<Rightarrow> ('a \<Rightarrow> bool) \<Rightarrow> bool" where
  "gives m P \<longleftrightarrow> (\<forall>s x s'. m s = (Some x, s') \<longrightarrow> P x)"

named_theorems gives_intros

lemma gives_return [gives_intros]: "P x \<Longrightarrow> gives (rdr_return x) P"
  by (simp add: gives_def rdr_return_def)

lemma gives_fail [gives_intros]: "gives rdr_fail P"
  by (simp add: gives_def rdr_fail_def)

lemma gives_bind: "gives m Q \<Longrightarrow> (\<And>x. Q x \<Longrightarrow> gives (f x) P) \<Longrightarrow> gives (rdr_bind m f) P"
  unfolding gives_def rdr_bind_def by (fastforce split: prod.splits option.splits)

lemma gives_any: "gives m (\<lambda>_. True)"
  by (simp add: gives_def)

lemmas gives_bind_any [gives_intros] = gives_bind [OF gives_any]

lemma gives_times: "gives m P \<Longrightarrow> gives (rdr_times n m) (\<lambda>xs. length xs = n)"
  by (induction n) (auto simp: gives_def rdr_return_def rdr_bind_def
      split: prod.splits option.splits)

lemma gives_block: "gives (read_block junk n) (\<lambda>b. length b = unat n)"
  by (auto simp: gives_def read_block_def dest: rd_field_length)

lemma gives_raw: "gives (read_raw junk) raw_ok"
  unfolding read_raw_def
  by (auto intro!: gives_bind_any gives_bind [OF gives_block] gives_return
      simp: raw_ok_def word_gt_0 unat_eq_zero)

lemma gives_fileinfo: "gives (read_fileinfo junk) fileinfo_ok"
  unfolding read_fileinfo_def
  by (rule gives_bind_any, rule gives_bind_any, rule gives_bind [OF gives_block],
      rule gives_bind_any, rule gives_bind [OF gives_block])
    (auto intro!: gives_bind_any gives_return simp: fileinfo_ok_def)

text \<open>The types the receiver lets through.\<close>

definition known_type :: "u16 \<Rightarrow> bool" where
  "known_type t \<longleftrightarrow> t \<in> {ST_INTEGER, ST_STRING, ST_BINARY, ST_FILEINFO}"

definition received_ok :: "msg_section \<Rightarrow> bool" where
  "received_ok s \<longleftrightarrow> section_ok s \<and> known_type (sec_type s)"

lemma gives_section: "gives (read_section junk t) received_ok"
  unfolding read_section_def
  by (auto intro!: gives_bind_any gives_return gives_fail gives_bind [OF gives_raw]
      gives_bind [OF gives_fileinfo] simp: received_ok_def section_ok_def known_type_def)

lemma read_sections_ok:
  "read_sections junk st acc rx = (Some ss, rx') \<Longrightarrow> list_all received_ok acc \<Longrightarrow>
     list_all received_ok ss"
proof (induction junk st acc rx rule: read_sections.induct)
  case (1 junk st acc rx)
  have sec: "received_ok s" if "read_section junk t r = (Some s, r')" for t r s r'
    using that gives_section[of junk t] by (auto simp: gives_def)
  from 1(2) obtain t rx1 where t: "read_u16 st rx = (Some t, rx1)"
    by (subst (asm) read_sections.simps) (auto split: prod.splits option.splits)
  show ?case
  proof (cases "t = ST_NONEXT")
    case True
    with 1(2) t have "ss = acc" by (subst (asm) read_sections.simps) simp
    with 1(3) show ?thesis by simp
  next
    case False
    with 1(2) t obtain s rx2 where s: "read_section junk t rx1 = (Some s, rx2)"
        "read_sections junk t (acc @ [s]) rx2 = (Some ss, rx')"
      by (subst (asm) read_sections.simps) (auto split: prod.splits option.splits)
    with "1.IH"[OF t [symmetric] refl False s(1) [symmetric] refl s(2)] 1(3) sec
    show ?thesis by simp
  qed
qed

lemma from_socket_ok:
  assumes "fsmsg_from_socket junk p s = (Some m, s')"
  shows "msg_ok p m \<and> list_all received_ok (sections m)"
proof -
  have "gives (fsmsg_from_socket junk p) (\<lambda>m. msg_ok p m \<and> list_all received_ok (sections m))"
    unfolding fsmsg_from_socket_def
  proof (rule gives_bind_any, rule gives_bind [OF gives_times [OF gives_any]], rule gives_bind_any)
    fix t ty and js :: "u64 list" assume "length js = idcount p"
    have "gives (read_sections junk (of_mem (junk_bytes junk 2)) []) (list_all received_ok)"
      by (auto simp: gives_def dest: read_sections_ok)
    then show "gives (rdr_bind (read_sections junk (of_mem (junk_bytes junk 2)) []) (\<lambda>ss.
        rdr_return \<lparr>tid = t, ids = js @ [of_mem (junk_bytes junk 8)], msg_type = ty, sections = ss\<rparr>))
        (\<lambda>m. msg_ok p m \<and> list_all received_ok (sections m))"
      by (rule gives_bind)
        (use \<open>length js = idcount p\<close> in \<open>auto intro!: gives_return simp: msg_ok_def received_ok_def
          list_all_iff\<close>)
  qed
  with assms show ?thesis by (auto simp: gives_def)
qed

text \<open>
  C24. Whatever bytes arrive, in whatever pieces, a message that \<open>fsmsg_from_socket\<close> returns is
  well-formed: it has the identifiers of its protocol, every section has a known type and holds
  the union member that the type names, and every length is the size of the block it goes with.
\<close>

theorem fsmsg_from_socket_wellformed:
  assumes "fsmsg_from_socket junk p s = (Some m, s')"
  shows "msg_ok p m \<and> list_all received_ok (sections m)"
  using assms by (rule from_socket_ok)

theorem fsmsg_from_socket_wellformed_witness:
  "\<exists>m. fst (fsmsg_from_socket (\<lambda>_. 0) FCTP
       [[0,0,0,0,0,0,0,9, 0,0,0,0,0,0,0,1, 0,0,0,0,0,0,0,2, 0,1, 0,0]]) = Some m \<and> msg_ok FCTP m"
proof -
  let ?m = "\<lparr>tid = 9, ids = [1, 2, 0], msg_type = 1, sections = [end_sec]\<rparr>"
  let ?w = "[0,0,0,0,0,0,0,9, 0,0,0,0,0,0,0,1, 0,0,0,0,0,0,0,2, 0,1, 0,0] :: bytes"
  have w: "wire FCTP ?m = ?w"
    by (simp add: wire_def msg_fields_def section_fields_def end_sec_def ST_NONEXT_def be_def
        mem_bytes_def upt_rec)
  have "fsmsg_from_socket (\<lambda>_. 0) FCTP ((concat (msg_fields FCTP ?m) @ []) # []) =
      (Some \<lparr>tid = 9, ids = [1, 2] @ [of_mem (junk_bytes (\<lambda>_. 0) 8)], msg_type = 1, sections = []\<rparr>, [[]])"
    using fsmsg_received [of FCTP ?m "[]" _ _ "\<lambda>_. 0",
        OF _ _ _ delivers_one_piece [OF msg_fields_nonempty [of ?m "[]"], of FCTP "[]" "[]"]]
    by (simp add: msg_ok_def)
  then have "fsmsg_from_socket (\<lambda>_. 0) FCTP [?w] =
      (Some \<lparr>tid = 9, ids = [1, 2] @ [of_mem (junk_bytes (\<lambda>_. 0) 8)], msg_type = 1, sections = []\<rparr>, [[]])"
    using w by (simp add: wire_def)
  from fsmsg_from_socket_wellformed [OF this] this show ?thesis by simp
qed

lemma received_integer: "received_ok s \<Longrightarrow> sec_type s = ST_INTEGER \<Longrightarrow> \<exists>i. s = int_sec i"
  by (cases s; cases "sec_data s") (auto simp: received_ok_def section_ok_def sec_defs section_types)

lemma received_string: "received_ok s \<Longrightarrow> sec_type s = ST_STRING \<Longrightarrow> \<exists>b. s = str_sec b"
proof -
  assume "received_ok s" and t: "sec_type s = ST_STRING"
  then obtain r where r: "sec_data s = DString r" "raw_ok r"
    by (cases "sec_data s") (auto simp: received_ok_def section_ok_def section_types)
  from raw_ok_eq[OF r(2)] r(1) t have "s = str_sec (rs_data r)"
    by (cases s) (simp add: str_sec_def)
  then show ?thesis ..
qed

lemma received_fileinfo: "received_ok s \<Longrightarrow> sec_type s = ST_FILEINFO \<Longrightarrow> \<exists>f. s = fi_sec f"
  by (cases s; cases "sec_data s") (auto simp: received_ok_def section_ok_def sec_defs section_types)

text \<open>
  A complete message, as the program builds them: well-formed, closed by \<open>ST_NONEXT\<close>, receivable
  and not over the size limit; and what its receiver gets.
\<close>

definition complete_msg :: "fsmsg_protocol \<Rightarrow> fsmsg \<Rightarrow> bool" where
  "complete_msg p m \<longleftrightarrow>
     msg_ok p m \<and> (\<exists>ss. sections m = ss @ [end_sec] \<and> list_all receivable ss) \<and>
     int (length (wire p m)) \<le> MSG_MAX"

definition transported :: "(nat \<Rightarrow> u8) \<Rightarrow> fsmsg_protocol \<Rightarrow> fsmsg \<Rightarrow> fsmsg" where
  "transported junk p m =
     \<lparr>tid = tid m, ids = take (idcount p) (ids m) @ [of_mem (junk_bytes junk 8)],
      msg_type = msg_type m, sections = map (received (fresh_pad junk)) (butlast (sections m))\<rparr>"

lemma recv_wire:
  assumes "complete_msg p m" and "inq net sd = wire p m # cs"
  shows "recv_msg junk sd p net =
    (Some (transported junk p m), net\<lparr>inq := (inq net)(sd := [] # cs)\<rparr>)"
proof -
  from assms(1) obtain ss where ss: "msg_ok p m" "sections m = ss @ [end_sec]" "list_all receivable ss"
    by (auto simp: complete_msg_def)
  have "fsmsg_from_socket junk p ((concat (msg_fields p m) @ []) # cs) =
      (Some (transported junk p m), [] # cs)"
    unfolding transported_def
    using fsmsg_received [OF ss delivers_one_piece [OF msg_fields_nonempty [OF ss(2,3)], of p "[]" cs]]
    by (simp add: ss(2))
  with assms(2) show ?thesis by (simp add: recv_msg_def wire_def)
qed

lemma send_complete:
  "complete_msg p m \<Longrightarrow> out_ok net sd \<Longrightarrow>
     fsmsg_send sd m p net = Inr (int (length (wire p m)), sent sd (wire p m) net)"
  by (simp add: complete_msg_def fsmsg_send_ok)

lemma transported_simps [simp]:
  "tid (transported junk p m) = tid m" "msg_type (transported junk p m) = msg_type m"
  "sections (transported junk p m) = map (received (fresh_pad junk)) (butlast (sections m))"
  by (simp_all add: transported_def)

lemma transported_id [simp]:
  "i < idcount p \<Longrightarrow> msg_ok p m \<Longrightarrow> nth_id (transported junk p m) i = Inr (ids m ! i)"
  by (simp add: transported_def nth_id_def nth_append msg_ok_def)

section \<open>Checking sections: the macro TESTST\<close>

text \<open>
  The argument is the rest of the section array from index \<open>i\<close> on, the result the rest from \<open>i+1\<close>,
  or \<open>None\<close> when the checking function returns -1. At the NULL entry only \<open>ST_NONEXT\<close> passes: for
  any other expected type the macro dereferences the NULL.
\<close>

definition testst :: "u16 \<Rightarrow> msg_section list \<Rightarrow> msg_section list option res" where
  "testst t s =
     (case s of
        [] \<Rightarrow> if t = ST_NONEXT then Inr (Some []) else Inl (Fault NullDeref)
      | x # xs \<Rightarrow> if sec_type x = t then Inr (Some xs) else Inr None)"

definition vbind :: "'a option res \<Rightarrow> ('a \<Rightarrow> 'b option res) \<Rightarrow> 'b option res" where
  "vbind r f = rbind r (\<lambda>v. case v of None \<Rightarrow> Inr None | Some x \<Rightarrow> f x)"

text \<open>A sequence of tests.\<close>

fun tests :: "u16 list \<Rightarrow> msg_section list \<Rightarrow> msg_section list option res" where
  "tests [] s = Inr (Some s)"
| "tests (t # ts) s = vbind (testst t s) (tests ts)"

text \<open>The value of a checking function: 0 when all tests passed, -1 when one failed.\<close>

definition verdict :: "'a option res \<Rightarrow> int res" where
  "verdict r = rbind r (\<lambda>v. Inr (case v of None \<Rightarrow> -1 | Some x \<Rightarrow> 0))"

lemma vbind_simps [simp]:
  "vbind (Inl e) f = Inl e" "vbind (Inr None) f = Inr None" "vbind (Inr (Some x)) f = f x"
  by (simp_all add: vbind_def)

lemma vbind_Some_iff: "vbind r f = Inr (Some y) \<longleftrightarrow> (\<exists>x. r = Inr (Some x) \<and> f x = Inr (Some y))"
  by (auto simp: vbind_def rbind_Inr_iff split: option.splits)

lemma vbind_Inl_iff: "vbind r f = Inl e \<longleftrightarrow> r = Inl e \<or> (\<exists>x. r = Inr (Some x) \<and> f x = Inl e)"
  by (auto simp: vbind_def rbind_Inl_iff split: option.splits)

lemma verdict_0_iff: "verdict r = Inr 0 \<longleftrightarrow> (\<exists>x. r = Inr (Some x))"
  by (auto simp: verdict_def rbind_Inr_iff split: option.splits)

lemma verdict_Inl_iff: "verdict r = Inl e \<longleftrightarrow> r = Inl e"
  by (auto simp: verdict_def rbind_Inl_iff)

lemma verdict_simps [simp]:
  "verdict (Inl e) = Inl e" "verdict (Inr None) = Inr (-1)" "verdict (Inr (Some x)) = Inr 0"
  by (simp_all add: verdict_def)

lemma tests_pass_iff:
  "ST_NONEXT \<notin> set ts \<Longrightarrow>
     tests ts s = Inr (Some r) \<longleftrightarrow> (\<exists>us. s = us @ r \<and> map sec_type us = ts)"
proof (induction ts arbitrary: s)
  case Nil
  then show ?case by auto
next
  case (Cons t ts)
  then show ?case
    by (cases s) (auto simp: testst_def Cons_eq_append_conv)
qed

lemma tests_null_iff:
  "ST_NONEXT \<notin> set ts \<Longrightarrow>
     tests ts s = Inl e \<longleftrightarrow> e = Fault NullDeref \<and> (\<exists>ts'. ts = map sec_type s @ ts' \<and> ts' \<noteq> [])"
proof (induction ts arbitrary: s)
  case Nil
  then show ?case by auto
next
  case (Cons t ts)
  then show ?case by (cases s) (auto simp: testst_def)
qed

text \<open>The closing test of every checking function, on a received message.\<close>

lemma end_pass_iff:
  "list_all received_ok s \<Longrightarrow> testst ST_NONEXT s = Inr (Some r) \<longleftrightarrow> s = [] \<and> r = []"
  by (cases s) (auto simp: testst_def received_ok_def known_type_def section_types)

lemma end_no_fault [simp]: "testst ST_NONEXT s \<noteq> Inl e"
  by (cases s) (auto simp: testst_def)

text \<open>
  On received messages the tests of a sequence of types pass to the end exactly when the sections
  have these types; and where they stop at the NULL, the message can be completed.
\<close>

lemma received_type_iff:
  assumes "received_ok s"
  shows "sec_type s = ST_INTEGER \<longleftrightarrow> (\<exists>i. s = int_sec i)"
    and "sec_type s = ST_STRING \<longleftrightarrow> (\<exists>b. s = str_sec b)"
    and "sec_type s = ST_FILEINFO \<longleftrightarrow> (\<exists>f. s = fi_sec f)"
  using assms received_integer received_string received_fileinfo by auto

definition shaped :: "msg_section list \<Rightarrow> u16 list \<Rightarrow> bool" where
  "shaped s ts \<longleftrightarrow> list_all received_ok s \<and> map sec_type s = ts"

lemma received_ok_simps [simp]:
  "received_ok (int_sec i)" "received_ok (str_sec b) \<longleftrightarrow> short b"
  "received_ok (bin_sec b) \<longleftrightarrow> short b" "received_ok (fi_sec f) \<longleftrightarrow> fileinfo_ok f"
  by (simp_all add: received_ok_def known_type_def)

lemma shaped_simps [simp]:
  "shaped s [] \<longleftrightarrow> s = []"
  "shaped s (ST_INTEGER # ts) \<longleftrightarrow> (\<exists>i xs. s = int_sec i # xs \<and> shaped xs ts)"
  "shaped s (ST_STRING # ts) \<longleftrightarrow> (\<exists>b xs. s = str_sec b # xs \<and> short b \<and> shaped xs ts)"
  "shaped s (ST_FILEINFO # ts) \<longleftrightarrow> (\<exists>f xs. s = fi_sec f # xs \<and> fileinfo_ok f \<and> shaped xs ts)"
proof -
  show "shaped s [] \<longleftrightarrow> s = []" by (auto simp: shaped_def)
  show "shaped s (ST_INTEGER # ts) \<longleftrightarrow> (\<exists>i xs. s = int_sec i # xs \<and> shaped xs ts)"
    by (cases s) (auto simp: shaped_def received_type_iff)
  show "shaped s (ST_STRING # ts) \<longleftrightarrow> (\<exists>b xs. s = str_sec b # xs \<and> short b \<and> shaped xs ts)"
    by (cases s) (auto simp: shaped_def received_type_iff)
  show "shaped s (ST_FILEINFO # ts) \<longleftrightarrow> (\<exists>f xs. s = fi_sec f # xs \<and> fileinfo_ok f \<and> shaped xs ts)"
    by (cases s) (auto simp: shaped_def received_type_iff)
qed

lemma shaped_fileinfos:
  "shaped s (replicate n ST_FILEINFO) \<longleftrightarrow>
     (\<exists>fs. s = map fi_sec fs \<and> length fs = n \<and> list_all fileinfo_ok fs)"
proof (induction n arbitrary: s)
  case 0
  then show ?case by simp
next
  case (Suc n)
  show ?case
  proof
    assume "shaped s (replicate (Suc n) ST_FILEINFO)"
    then obtain f fs where "s = map fi_sec (f # fs)" "length (f # fs) = Suc n"
        "list_all fileinfo_ok (f # fs)"
      using Suc by auto
    then show "\<exists>fs. s = map fi_sec fs \<and> length fs = Suc n \<and> list_all fileinfo_ok fs"
      by blast
  next
    assume "\<exists>fs. s = map fi_sec fs \<and> length fs = Suc n \<and> list_all fileinfo_ok fs"
    then show "shaped s (replicate (Suc n) ST_FILEINFO)"
      using Suc by (auto simp: length_Suc_conv)
  qed
qed

definition checked :: "u16 list \<Rightarrow> bool" where
  "checked ts \<longleftrightarrow> list_all known_type ts"

lemma checked_no_end: "checked ts \<Longrightarrow> ST_NONEXT \<notin> set ts"
  by (auto simp: checked_def list_all_iff known_type_def section_types)

lemma tests_end_iff:
  assumes "checked ts" and "list_all received_ok s"
  shows "(\<exists>r x. tests ts s = Inr (Some r) \<and> testst ST_NONEXT r = Inr (Some x)) \<longleftrightarrow>
    map sec_type s = ts"
proof
  assume "map sec_type s = ts"
  then have "tests ts s = Inr (Some [])"
    using assms(1) by (simp add: tests_pass_iff checked_no_end)
  then show "\<exists>r x. tests ts s = Inr (Some r) \<and> testst ST_NONEXT r = Inr (Some x)"
    by (simp add: testst_def)
next
  assume "\<exists>r x. tests ts s = Inr (Some r) \<and> testst ST_NONEXT r = Inr (Some x)"
  then show "map sec_type s = ts"
    using assms by (auto simp: tests_pass_iff checked_no_end end_pass_iff)
qed

lemma section_of_type: "known_type t \<Longrightarrow> \<exists>s. sec_type s = t \<and> received_ok s"
proof -
  let ?f = "\<lparr>fi_type = 0, fi_pad = 0, fi_pathlen = 0, fi_path = [], fi_usernamelen = 0,
    fi_username = [], fi_modified = 0, fi_size = 0, fi_replicas = 0\<rparr>"
  have "received_ok (int_sec 0)" "received_ok (str_sec [])" "received_ok (bin_sec [])"
      "received_ok (fi_sec ?f)"
    by (simp_all add: received_ok_def known_type_def fileinfo_ok_def)
  moreover assume "known_type t"
  ultimately show ?thesis unfolding known_type_def
    by (metis empty_iff insert_iff sec_type_simps(1-4))
qed

lemma sections_of_types:
  "checked ts \<Longrightarrow> \<exists>ss. map sec_type ss = ts \<and> list_all received_ok ss"
proof (induction ts)
  case Nil
  then show ?case by simp
next
  case (Cons t ts)
  then obtain s ss where "sec_type s = t" "received_ok s" "map sec_type ss = ts"
      "list_all received_ok ss"
    using section_of_type[of t] by (auto simp: checked_def)
  then have "map sec_type (s # ss) = t # ts" "list_all received_ok (s # ss)" by simp_all
  then show ?case by (intro exI [of _ "s # ss"]) simp
qed

lemma tests_fault_iff:
  assumes "checked ts" and "list_all received_ok s"
  shows "tests ts s = Inl e \<longleftrightarrow> e = Fault NullDeref \<and>
    (\<exists>ss. ss \<noteq> [] \<and> shaped (s @ ss) ts)"
proof -
  have "\<exists>ss. ss \<noteq> [] \<and> list_all received_ok ss \<and> map sec_type ss = ts'"
    if "ts = map sec_type s @ ts'" "ts' \<noteq> []" for ts'
  proof -
    from that assms(1) have "checked ts'" by (simp add: checked_def)
    from sections_of_types[OF this] that(2) show ?thesis by force
  qed
  then show ?thesis unfolding tests_null_iff[OF checked_no_end[OF assms(1)]]
    using assms(2) by (fastforce simp: shaped_def)
qed

lemma verdict_tests:
  assumes "checked ts" and "list_all received_ok s"
  shows "verdict (vbind (tests ts s) (testst ST_NONEXT)) = Inr 0 \<longleftrightarrow> shaped s ts"
    and "verdict (vbind (tests ts s) (testst ST_NONEXT)) = Inl e \<longleftrightarrow> e = Fault NullDeref \<and>
      (\<exists>ss. ss \<noteq> [] \<and> shaped (s @ ss) ts)"
proof -
  show "verdict (vbind (tests ts s) (testst ST_NONEXT)) = Inr 0 \<longleftrightarrow> shaped s ts"
    using tests_end_iff[OF assms] assms(2)
    by (simp add: verdict_0_iff vbind_Some_iff shaped_def) blast
  show "verdict (vbind (tests ts s) (testst ST_NONEXT)) = Inl e \<longleftrightarrow> e = Fault NullDeref \<and>
      (\<exists>ss. ss \<noteq> [] \<and> shaped (s @ ss) ts)"
    using tests_fault_iff[OF assms] by (simp add: verdict_Inl_iff vbind_Inl_iff)
qed

section \<open>Evaluating the tests\<close>

lemma testst_simps [simp]:
  "testst ST_INTEGER [] = Inl (Fault NullDeref)"
  "testst ST_STRING [] = Inl (Fault NullDeref)"
  "testst ST_FILEINFO [] = Inl (Fault NullDeref)"
  "testst ST_NONEXT [] = Inr (Some [])"
  "testst t (x # xs) = (if sec_type x = t then Inr (Some xs) else Inr None)"
  by (simp_all add: testst_def section_types)

lemma checked_simps [simp]:
  "checked []" "checked (t # ts) \<longleftrightarrow> known_type t \<and> checked ts"
  "known_type ST_INTEGER" "known_type ST_STRING" "known_type ST_FILEINFO"
  "checked (replicate n t) \<longleftrightarrow> n = 0 \<or> known_type t"
  by (auto simp: checked_def known_type_def list_all_iff)

lemma received_head:
  assumes "list_all received_ok (x # xs)" and "sec_type x = ST_INTEGER"
  obtains i where "x = int_sec i"
  using assms received_integer by auto

lemma SECI_int [simp]:
  "sections m = int_sec i # xs \<Longrightarrow> SECI m 0 = Inr i"
  "sections m = x # int_sec i # xs \<Longrightarrow> SECI m 1 = Inr i"
  "sections m = x # int_sec i # xs \<Longrightarrow> SECI m (Suc 0) = Inr i"
  by (simp_all add: SECI_def sec_at_def)

text \<open>A counted run of sections of one type.\<close>

lemma map_sec_type: "(\<And>x. sec_type (mk x) = t) \<Longrightarrow> map sec_type (map mk xs) = replicate (length xs) t"
  by (induction xs) simp_all

lemma tests_run:
  assumes "\<And>x. sec_type (mk x) = t" and "t \<noteq> ST_NONEXT"
  shows "tests (replicate (length xs) t) (map mk xs) = Inr (Some [])"
  using map_sec_type [of mk, OF assms(1), of xs] assms(2) by (subst tests_pass_iff) auto

lemma tests_truncated_run:
  assumes "\<And>x. sec_type (mk x) = t" and "t \<noteq> ST_NONEXT"
    and "map mk xs = ys @ ss" and "ss \<noteq> []" and "length xs = n"
  shows "tests (replicate n t) ys = Inl (Fault NullDeref)"
proof -
  from map_sec_type [of mk, OF assms(1), of xs] assms(3,5)
  have "replicate n t = map sec_type ys @ map sec_type ss" by (metis map_append)
  moreover have "ST_NONEXT \<notin> set (replicate n t)" using assms(2) by auto
  ultimately show ?thesis using assms(4) by (metis tests_null_iff map_is_Nil_conv)
qed

lemma tests_runs [simp]:
  "tests (replicate (length fs) ST_FILEINFO) (map fi_sec fs) = Inr (Some [])"
  "tests (replicate (length bs) ST_STRING) (map str_sec bs) = Inr (Some [])"
  by (rule tests_run; simp add: section_types)+

lemma tests_truncated_runs:
  "map fi_sec fs = ys @ ss \<Longrightarrow> ss \<noteq> [] \<Longrightarrow> length fs = n \<Longrightarrow>
     tests (replicate n ST_FILEINFO) ys = Inl (Fault NullDeref)"
  "map str_sec bs = ys @ ss \<Longrightarrow> ss \<noteq> [] \<Longrightarrow> length bs = n \<Longrightarrow>
     tests (replicate n ST_STRING) ys = Inl (Fault NullDeref)"
  by (rule tests_truncated_run [of fi_sec]; simp add: section_types)
    (rule tests_truncated_run [of str_sec]; simp add: section_types)

lemma shaped_strings:
  "shaped s (replicate n ST_STRING) \<longleftrightarrow>
     (\<exists>bs. s = map str_sec bs \<and> length bs = n \<and> list_all short bs)"
proof (induction n arbitrary: s)
  case 0
  then show ?case by simp
next
  case (Suc n)
  show ?case
  proof
    assume "shaped s (replicate (Suc n) ST_STRING)"
    then obtain b bs where "s = map str_sec (b # bs)" "length (b # bs) = Suc n"
        "list_all short (b # bs)"
      using Suc by auto
    then show "\<exists>bs. s = map str_sec bs \<and> length bs = Suc n \<and> list_all short bs"
      by blast
  next
    assume "\<exists>bs. s = map str_sec bs \<and> length bs = Suc n \<and> list_all short bs"
    then show "shaped s (replicate (Suc n) ST_STRING)"
      using Suc by (auto simp: length_Suc_conv)
  qed
qed

lemma SECSDUP_str:
  "i < length (sections m) \<Longrightarrow> sections m ! i = str_sec b \<Longrightarrow> short b \<Longrightarrow> 0 \<notin> set b \<Longrightarrow> SECSDUP m i = Inr b"
  by (simp add: sec_access str_sec_def raw_of_def strndup_exact unat_of_nat)

section \<open>The contract of a section checker\<close>

text \<open>
  What the section checks of the two message protocols share. The messages of a protocol are given
  by their payloads \<open>'b\<close>; the laws say that the checker accepts the messages of the protocol, stops
  at the NULL on their proper truncations, and treats every received message in one of three ways.
\<close>

locale section_checker =
  fixes validate :: "fsmsg \<Rightarrow> int res"
    and body_valid :: "'b \<Rightarrow> bool"
    and body_type :: "'b \<Rightarrow> u16"
    and body_sections :: "'b \<Rightarrow> msg_section list"
  assumes complete: "body_valid b \<Longrightarrow> msg_type m = body_type b \<Longrightarrow> sections m = body_sections b \<Longrightarrow>
      validate m = Inr 0"
    and truncated: "body_valid b \<Longrightarrow> body_type b = msg_type m \<Longrightarrow>
      body_sections b = sections m @ ss \<Longrightarrow> ss \<noteq> [] \<Longrightarrow> validate m = Inl (Fault NullDeref)"
    and classes: "list_all received_ok (sections m) \<Longrightarrow>
      (\<And>b ss. validate m = Inl (Fault NullDeref) \<Longrightarrow> body_valid b \<Longrightarrow> body_type b = msg_type m \<Longrightarrow>
         body_sections b = sections m @ ss \<Longrightarrow> ss \<noteq> [] \<Longrightarrow> thesis) \<Longrightarrow>
      (\<And>us s ts. sections m = us @ s \<Longrightarrow> checked ts \<Longrightarrow>
         validate m = verdict (vbind (tests ts s) (testst ST_NONEXT)) \<Longrightarrow>
         (\<And>s'. shaped s' ts \<Longrightarrow> \<exists>b. body_valid b \<and> body_type b = msg_type m \<and>
            body_sections b = us @ s') \<Longrightarrow> thesis) \<Longrightarrow>
      (validate m = Inr (-1) \<Longrightarrow> thesis) \<Longrightarrow> thesis"
begin

lemmas class_cases = classes [consumes 1, case_names truncated payload refused]

lemma accepts_iff:
  assumes "list_all received_ok (sections m)"
  shows "validate m = Inr 0 \<longleftrightarrow>
    (\<exists>b. body_valid b \<and> msg_type m = body_type b \<and> sections m = body_sections b)"
proof
  assume ok: "validate m = Inr 0"
  from assms show "\<exists>b. body_valid b \<and> msg_type m = body_type b \<and> sections m = body_sections b"
  proof (cases rule: class_cases)
    case (payload us s ts)
    from payload(1) assms have "list_all received_ok s" by simp
    with ok payload have "shaped s ts" by (simp add: verdict_tests)
    from payload(4) [OF this] payload(1) show ?thesis by auto
  qed (use ok in simp_all)
qed (auto intro: complete)

lemma faults_iff:
  assumes "list_all received_ok (sections m)"
  shows "validate m = Inl e \<longleftrightarrow> e = Fault NullDeref \<and>
    (\<exists>b ss. body_valid b \<and> body_type b = msg_type m \<and> body_sections b = sections m @ ss \<and> ss \<noteq> [])"
proof
  assume f: "validate m = Inl e"
  from assms show "e = Fault NullDeref \<and>
    (\<exists>b ss. body_valid b \<and> body_type b = msg_type m \<and> body_sections b = sections m @ ss \<and> ss \<noteq> [])"
  proof (cases rule: class_cases)
    case (payload us s ts)
    from payload(1) assms have "list_all received_ok s" by simp
    with f payload obtain ss where "e = Fault NullDeref" "ss \<noteq> []" "shaped (s @ ss) ts"
      by (auto simp: verdict_tests)
    moreover from payload(4) [OF this(3)] payload(1) obtain b where "body_valid b"
        "body_type b = msg_type m" "body_sections b = sections m @ ss" by auto
    ultimately show ?thesis by blast
  qed (use f in auto)
qed (auto intro: truncated)

text \<open>On a received message the checker answers or stops at the NULL; it has no third outcome.\<close>

lemma outcomes:
  assumes "list_all received_ok (sections m)"
  shows "validate m \<in> {Inr 0, Inr (-1), Inl (Fault NullDeref)}"
  using assms
proof (cases rule: class_cases)
  case (payload us s ts)
  from payload(1) assms have "list_all received_ok s" by simp
  with payload show ?thesis
    by (cases "tests ts s") (auto simp: tests_null_iff checked_no_end testst_def vbind_def
        split: option.splits list.splits)
qed simp_all

end

end
