(* ===== verification/Fap_Msg.thy ===== *)
theory Fap_Msg
  imports Msg_Io
begin

text \<open>
  The file access protocol between clients and file servers, message level
  (\<^verbatim>\<open>src/src/fap.h\<close>, \<^verbatim>\<open>src/src/fap.c\<close>): message, command and response numbers,
  \<open>fap_create_msg\<close>, \<open>fap_validate_sections\<close>, \<open>fap_check_response\<close>, and the messages that
  \<open>fap_send_error\<close> and \<open>fap_send_ok\<close> send. The datatype \<open>fap_body\<close> has the messages with their
  payload that the code knows; validation is proved to accept exactly these, and to dereference NULL
  on exactly the truncated ones. \<open>fap_documented\<close> are the messages of the protocol document, and the
  theorem on acceptance says where the two differ.
\<close>

section \<open>Numbers\<close>

definition FAP_HELLO :: u16 where "FAP_HELLO = 1"
definition FAP_HELLO_RESPONSE :: u16 where "FAP_HELLO_RESPONSE = 2"
definition FAP_QUIT :: u16 where "FAP_QUIT = 3"
definition FAP_COMMAND :: u16 where "FAP_COMMAND = 5"
definition FAP_RESPONSE :: u16 where "FAP_RESPONSE = 6"
definition FAP_ERROR :: u16 where "FAP_ERROR = 8"

lemmas fap_types = FAP_HELLO_def FAP_HELLO_RESPONSE_def FAP_QUIT_def FAP_COMMAND_def
  FAP_RESPONSE_def FAP_ERROR_def

definition FAP_CMD_CREATE :: u32 where "FAP_CMD_CREATE = 1"
definition FAP_CMD_OPEN :: u32 where "FAP_CMD_OPEN = 2"
definition FAP_CMD_CLOSE :: u32 where "FAP_CMD_CLOSE = 3"
definition FAP_CMD_STAT :: u32 where "FAP_CMD_STAT = 4"
definition FAP_CMD_READ :: u32 where "FAP_CMD_READ = 5"
definition FAP_CMD_WRITE :: u32 where "FAP_CMD_WRITE = 6"
definition FAP_CMD_DELETE :: u32 where "FAP_CMD_DELETE = 7"
definition FAP_CMD_COPY :: u32 where "FAP_CMD_COPY = 8"
definition FAP_CMD_FIND :: u32 where "FAP_CMD_FIND = 9"
definition FAP_CMD_LIST :: u32 where "FAP_CMD_LIST = 10"

lemmas fap_commands = FAP_CMD_CREATE_def FAP_CMD_OPEN_def FAP_CMD_CLOSE_def FAP_CMD_STAT_def
  FAP_CMD_READ_def FAP_CMD_WRITE_def FAP_CMD_DELETE_def FAP_CMD_COPY_def FAP_CMD_FIND_def
  FAP_CMD_LIST_def

definition FAP_OK :: u32 where "FAP_OK = 1"
definition FAP_FILEINFO :: u32 where "FAP_FILEINFO = 2"
definition FAP_DATAOUT :: u32 where "FAP_DATAOUT = 3"

lemmas fap_responses = FAP_OK_def FAP_FILEINFO_def FAP_DATAOUT_def

section \<open>Message functions\<close>

text \<open>The transaction id that \<open>fsmsg_create\<close> leaves unset (here 0) is overwritten at once.\<close>

definition fap_create_msg :: "u64 \<Rightarrow> u64 \<Rightarrow> u64 \<Rightarrow> u64 \<Rightarrow> u16 \<Rightarrow> fsmsg" where
  "fap_create_msg t server_id client_id filesystem_id ty =
     (let msg = fsmsg_create 0 FAP in
      msg\<lparr>tid := t, ids := (ids msg)[0 := server_id, 1 := client_id, 2 := filesystem_id],
          msg_type := ty\<rparr>)"

text \<open>The \<open>TESTST\<close>s of a command, after its number, and of a response.\<close>

definition fap_command_tests :: "u32 \<Rightarrow> msg_section list \<Rightarrow> msg_section list option res" where
  "fap_command_tests cmd s =
     (if cmd = FAP_CMD_CREATE then tests [ST_STRING, ST_INTEGER] s
      else if cmd = FAP_CMD_OPEN \<or> cmd = FAP_CMD_CLOSE \<or> cmd = FAP_CMD_STAT then tests [ST_STRING] s
      else if cmd = FAP_CMD_READ then tests [ST_STRING, ST_INTEGER, ST_INTEGER] s
      else if cmd = FAP_CMD_WRITE then tests [ST_STRING, ST_INTEGER] s
      else if cmd = FAP_CMD_DELETE then tests [ST_STRING, ST_INTEGER] s
      else if cmd = FAP_CMD_COPY then tests [ST_STRING, ST_STRING, ST_INTEGER] s
      else if cmd = FAP_CMD_FIND then tests [ST_STRING, ST_STRING] s
      else if cmd = FAP_CMD_LIST then tests [ST_INTEGER, ST_STRING] s
      else Inr None)"

definition fap_response_tests :: "fsmsg \<Rightarrow> u32 \<Rightarrow> msg_section list \<Rightarrow> msg_section list option res" where
  "fap_response_tests msg resp s =
     (if resp = FAP_OK then Inr (Some s)
      else if resp = FAP_FILEINFO then
        vbind (testst ST_INTEGER s) (\<lambda>s.
        rbind (SECI msg 1) (\<lambda>count. tests (replicate (nat (sint count)) ST_FILEINFO) s))
      else if resp = FAP_DATAOUT then tests [ST_INTEGER] s
      else Inr None)"

definition fap_validate_sections :: "fsmsg \<Rightarrow> int res" where
  "fap_validate_sections msg =
     (let s = sections msg; ty = msg_type msg in
      verdict (vbind
        (if ty = FAP_HELLO then tests [ST_STRING, ST_STRING] s
         else if ty = FAP_HELLO_RESPONSE then tests [ST_STRING, ST_INTEGER] s
         else if ty = FAP_QUIT then Inr (Some s)
         else if ty = FAP_COMMAND then
           vbind (testst ST_INTEGER s) (\<lambda>s.
           rbind (SECI msg 0) (\<lambda>cmd. fap_command_tests cmd s))
         else if ty = FAP_RESPONSE then
           vbind (testst ST_INTEGER s) (\<lambda>s.
           rbind (SECI msg 0) (\<lambda>resp. fap_response_tests msg resp s))
         else if ty = FAP_ERROR then tests [ST_INTEGER, ST_STRING] s
         else Inr None)
        (testst ST_NONEXT)))"

text \<open>
  \<open>printf("%.*s", length, data)\<close>: at most \<open>length\<close> bytes, a negative precision is none at all,
  and a NUL ends the output; a read past the block is a fault.
\<close>

definition print_prec :: "raw_sect \<Rightarrow> unit res" where
  "print_prec r =
     (if 0 \<in> set (rs_data r) \<or> (0 \<le> sint (rs_length r) \<and> unat (rs_length r) \<le> length (rs_data r))
      then Inr () else Inl (Fault OutOfBounds))"

text \<open>
  The arguments \<open>et\<close>, \<open>es\<close>, \<open>ec\<close>, \<open>ef\<close> are the expected transaction, server, client and file
  system ids; 0 matches any id. A missing message is \<open>None\<close>.
\<close>

definition fap_check_response ::
  "fsmsg option \<Rightarrow> u64 \<Rightarrow> u64 \<Rightarrow> u64 \<Rightarrow> u64 \<Rightarrow> u16 \<Rightarrow> int res" where
  "fap_check_response msg et es ec ef request_type =
     (case msg of None \<Rightarrow> Inr (-1)
      | Some m \<Rightarrow>
         if et \<noteq> 0 \<and> tid m \<noteq> et then Inr (-2)
         else rbind (nth_id m 0) (\<lambda>i0. if es \<noteq> 0 \<and> i0 \<noteq> es then Inr (-3)
         else rbind (nth_id m 1) (\<lambda>i1. if ec \<noteq> 0 \<and> i1 \<noteq> ec then Inr (-4)
         else rbind (nth_id m 2) (\<lambda>i2. if ef \<noteq> 0 \<and> i2 \<noteq> ef then Inr (-5)
         else let t = msg_type m in
           if t = FAP_ERROR then rbind (SECS m 1) (\<lambda>r. rbind (print_prec r) (\<lambda>_. Inr (-6)))
           else if request_type = FAP_HELLO then
             (if t \<noteq> FAP_HELLO_RESPONSE then Inr (-7) else Inr 0)
           else if request_type = FAP_QUIT \<or> request_type = FAP_COMMAND then
             (if t \<noteq> FAP_RESPONSE then Inr (-7) else Inr 0)
           else Inr 0))))"

text \<open>The messages of \<open>fap_send_error\<close> and \<open>fap_send_ok\<close>, and the sending of them.\<close>

definition fap_error_msg :: "u64 \<Rightarrow> u64 \<Rightarrow> u64 \<Rightarrow> u64 \<Rightarrow> u32 \<Rightarrow> bytes \<Rightarrow> fsmsg res" where
  "fap_error_msg sid fsid t client_id errorn errstr =
     rbind (fsmsg_add_section (fap_create_msg t sid client_id fsid FAP_ERROR) ST_INTEGER
              (DInteger errorn)) (\<lambda>m.
     rbind (fsmsg_add_section m ST_STRING (DString (raw_of errstr))) (\<lambda>m.
     fsmsg_add_section m ST_NONEXT DUninit))"

definition fap_send_error ::
  "u64 \<Rightarrow> u64 \<Rightarrow> int \<Rightarrow> u64 \<Rightarrow> u64 \<Rightarrow> u32 \<Rightarrow> bytes \<Rightarrow> netw \<Rightarrow> netw res" where
  "fap_send_error sid fsid sd t client_id errorn errstr net =
     rbind (fap_error_msg sid fsid t client_id errorn errstr) (\<lambda>m.
     rbind (fsmsg_send sd m FAP net) (\<lambda>(ret, net'). Inr net'))"

definition fap_ok_msg :: "u64 \<Rightarrow> u64 \<Rightarrow> u64 \<Rightarrow> u64 \<Rightarrow> fsmsg res" where
  "fap_ok_msg sid fsid t client_id =
     rbind (fsmsg_add_section (fap_create_msg t sid client_id fsid FAP_RESPONSE) ST_INTEGER
              (DInteger FAP_OK)) (\<lambda>m.
     fsmsg_add_section m ST_NONEXT DUninit)"

definition fap_send_ok :: "u64 \<Rightarrow> u64 \<Rightarrow> int \<Rightarrow> u64 \<Rightarrow> u64 \<Rightarrow> netw \<Rightarrow> netw res" where
  "fap_send_ok sid fsid sd t client_id net =
     rbind (fap_ok_msg sid fsid t client_id) (\<lambda>m.
     rbind (fsmsg_send sd m FAP net) (\<lambda>(ret, net'). Inr net'))"

section \<open>The messages of the protocol\<close>

text \<open>
  The payloads the code knows. The count of \<open>FFileinfo\<close> is part of the payload; the code takes a
  message that has that many file infos, and none when the count is negative.
\<close>

datatype fap_body =
    FHello bytes bytes
  | FHelloResponse bytes u32
  | FQuit
  | FCreate bytes u32
  | FOpen bytes
  | FClose bytes
  | FStat bytes
  | FRead bytes u32 u32
  | FWrite bytes u32
  | FDelete bytes u32
  | FCopy bytes bytes u32
  | FFind bytes bytes
  | FList u32 bytes
  | FOk
  | FFileinfo u32 "fileinfo_sect list"
  | FDataout u32
  | FError u32 bytes

fun fap_body_type :: "fap_body \<Rightarrow> u16" where
  "fap_body_type (FHello _ _) = FAP_HELLO"
| "fap_body_type (FHelloResponse _ _) = FAP_HELLO_RESPONSE"
| "fap_body_type FQuit = FAP_QUIT"
| "fap_body_type FOk = FAP_RESPONSE"
| "fap_body_type (FFileinfo _ _) = FAP_RESPONSE"
| "fap_body_type (FDataout _) = FAP_RESPONSE"
| "fap_body_type (FError _ _) = FAP_ERROR"
| "fap_body_type _ = FAP_COMMAND"

fun fap_body_sections :: "fap_body \<Rightarrow> msg_section list" where
  "fap_body_sections (FHello h u) = [str_sec h, str_sec u]"
| "fap_body_sections (FHelloResponse n p) = [str_sec n, int_sec p]"
| "fap_body_sections FQuit = []"
| "fap_body_sections (FCreate p t) = [int_sec FAP_CMD_CREATE, str_sec p, int_sec t]"
| "fap_body_sections (FOpen p) = [int_sec FAP_CMD_OPEN, str_sec p]"
| "fap_body_sections (FClose p) = [int_sec FAP_CMD_CLOSE, str_sec p]"
| "fap_body_sections (FStat p) = [int_sec FAP_CMD_STAT, str_sec p]"
| "fap_body_sections (FRead p k n) = [int_sec FAP_CMD_READ, str_sec p, int_sec k, int_sec n]"
| "fap_body_sections (FWrite p n) = [int_sec FAP_CMD_WRITE, str_sec p, int_sec n]"
| "fap_body_sections (FDelete p t) = [int_sec FAP_CMD_DELETE, str_sec p, int_sec t]"
| "fap_body_sections (FCopy p q t) = [int_sec FAP_CMD_COPY, str_sec p, str_sec q, int_sec t]"
| "fap_body_sections (FFind w d) = [int_sec FAP_CMD_FIND, str_sec w, str_sec d]"
| "fap_body_sections (FList r p) = [int_sec FAP_CMD_LIST, int_sec r, str_sec p]"
| "fap_body_sections FOk = [int_sec FAP_OK]"
| "fap_body_sections (FFileinfo n fs) = int_sec FAP_FILEINFO # int_sec n # map fi_sec fs"
| "fap_body_sections (FDataout n) = [int_sec FAP_DATAOUT, int_sec n]"
| "fap_body_sections (FError e s) = [int_sec e, str_sec s]"

fun fap_body_valid :: "fap_body \<Rightarrow> bool" where
  "fap_body_valid (FFileinfo n fs) \<longleftrightarrow> length fs = nat (sint n)"
| "fap_body_valid _ \<longleftrightarrow> True"

definition fap_speaks :: "fsmsg \<Rightarrow> fap_body \<Rightarrow> bool" where
  "fap_speaks m b \<longleftrightarrow>
     fap_body_valid b \<and> msg_type m = fap_body_type b \<and> sections m = fap_body_sections b"

text \<open>
  The messages of \<^verbatim>\<open>doc/desc/protocols.md\<close>: at most 127 sections; \<open>ack\<close>, type 7, without a payload; and
  the payloads above, with a count that is not negative. The document also names the values of some
  integers (file types, the recurse flag), which are not part of the layout.
\<close>

definition fap_documented :: "fsmsg \<Rightarrow> bool" where
  "fap_documented m \<longleftrightarrow> length (sections m) \<le> 127 \<and>
     (msg_type m = 7 \<and> sections m = [] \<or>
      (\<exists>b. msg_type m = fap_body_type b \<and> sections m = fap_body_sections b \<and>
         (\<forall>n fs. b = FFileinfo n fs \<longrightarrow> 0 \<le> sint n \<and> sint n = int (length fs))))"

text \<open>A listing with a negative count, or with more file infos than a message may have sections.\<close>

definition fap_odd_listing :: "fsmsg \<Rightarrow> bool" where
  "fap_odd_listing m \<longleftrightarrow> (\<exists>n fs. msg_type m = FAP_RESPONSE \<and>
     sections m = int_sec FAP_FILEINFO # int_sec n # map fi_sec fs \<and>
     (sint n < 0 \<and> fs = [] \<or> sint n = int (length fs) \<and> 125 < length fs))"

lemma fap_speaks_documented:
  "(\<exists>b. fap_speaks m b) \<longleftrightarrow> fap_documented m \<and> msg_type m \<noteq> 7 \<or> fap_odd_listing m"
proof
  assume "\<exists>b. fap_speaks m b"
  then obtain b where b: "fap_body_valid b" "msg_type m = fap_body_type b" "sections m = fap_body_sections b"
    by (auto simp: fap_speaks_def)
  show "fap_documented m \<and> msg_type m \<noteq> 7 \<or> fap_odd_listing m"
  proof (cases b)
    case (FFileinfo n fs)
    show ?thesis
    proof (cases "fap_odd_listing m")
      case False
      with b FFileinfo have "0 \<le> sint n" "sint n = int (length fs)" "length fs \<le> 125"
        by (cases "sint n < 0"; auto simp: fap_odd_listing_def not_less [symmetric])+
      with b FFileinfo show ?thesis by (auto simp: fap_documented_def fap_types intro!: exI [of _ b])
    qed simp
  qed (use b in \<open>auto simp: fap_documented_def fap_types intro!: exI [of _ b]\<close>)
next
  assume "fap_documented m \<and> msg_type m \<noteq> 7 \<or> fap_odd_listing m"
  then show "\<exists>b. fap_speaks m b"
  proof
    assume "fap_documented m \<and> msg_type m \<noteq> 7"
    then obtain b where b: "msg_type m = fap_body_type b" "sections m = fap_body_sections b"
      "\<forall>n fs. b = FFileinfo n fs \<longrightarrow> 0 \<le> sint n \<and> sint n = int (length fs)"
      by (auto simp: fap_documented_def)
    then have "fap_body_valid b" by (cases b) auto
    with b show ?thesis by (auto simp: fap_speaks_def)
  next
    assume "fap_odd_listing m"
    then obtain n fs where "msg_type m = FAP_RESPONSE"
      "sections m = int_sec FAP_FILEINFO # int_sec n # map fi_sec fs" "length fs = nat (sint n)"
      by (auto simp: fap_odd_listing_def)
    then have "fap_speaks m (FFileinfo n fs)" by (simp add: fap_speaks_def)
    then show ?thesis by blast
  qed
qed

section \<open>Validation accepts exactly these messages\<close>

text \<open>The section types of a command after its number, \<open>None\<close> for an unknown command.\<close>

definition fap_command_types :: "u32 \<Rightarrow> u16 list option" where
  "fap_command_types cmd =
     (if cmd = FAP_CMD_CREATE \<or> cmd = FAP_CMD_WRITE \<or> cmd = FAP_CMD_DELETE
        then Some [ST_STRING, ST_INTEGER]
      else if cmd = FAP_CMD_OPEN \<or> cmd = FAP_CMD_CLOSE \<or> cmd = FAP_CMD_STAT then Some [ST_STRING]
      else if cmd = FAP_CMD_READ then Some [ST_STRING, ST_INTEGER, ST_INTEGER]
      else if cmd = FAP_CMD_COPY then Some [ST_STRING, ST_STRING, ST_INTEGER]
      else if cmd = FAP_CMD_FIND then Some [ST_STRING, ST_STRING]
      else if cmd = FAP_CMD_LIST then Some [ST_INTEGER, ST_STRING]
      else None)"

lemma fap_command_tests_types:
  "fap_command_tests cmd s =
     (case fap_command_types cmd of None \<Rightarrow> Inr None | Some ts \<Rightarrow> tests ts s)"
  by (simp add: fap_command_tests_def fap_command_types_def fap_commands)

lemma fap_command_types_checked: "fap_command_types cmd = Some ts \<Longrightarrow> checked ts"
  by (auto simp: fap_command_types_def checked_def known_type_def split: if_splits)

lemma fap_command_body:
  assumes "fap_command_types cmd = Some ts" and "shaped s ts"
  shows "\<exists>b. fap_body_valid b \<and> fap_body_type b = FAP_COMMAND \<and> fap_body_sections b = int_sec cmd # s"
proof -
  consider "cmd = FAP_CMD_CREATE" | "cmd = FAP_CMD_WRITE" | "cmd = FAP_CMD_DELETE"
    | "cmd = FAP_CMD_OPEN" | "cmd = FAP_CMD_CLOSE" | "cmd = FAP_CMD_STAT" | "cmd = FAP_CMD_READ"
    | "cmd = FAP_CMD_COPY" | "cmd = FAP_CMD_FIND" | "cmd = FAP_CMD_LIST"
    using assms(1) by (auto simp: fap_command_types_def split: if_splits)
  then show ?thesis
  proof cases
    case 1
    with assms obtain p t where "s = [str_sec p, int_sec t]"
      by (auto simp: fap_command_types_def fap_commands)
    with 1 show ?thesis by (intro exI [of _ "FCreate p t"]) simp
  next
    case 2
    with assms obtain p t where "s = [str_sec p, int_sec t]"
      by (auto simp: fap_command_types_def fap_commands)
    with 2 show ?thesis by (intro exI [of _ "FWrite p t"]) simp
  next
    case 3
    with assms obtain p t where "s = [str_sec p, int_sec t]"
      by (auto simp: fap_command_types_def fap_commands)
    with 3 show ?thesis by (intro exI [of _ "FDelete p t"]) simp
  next
    case 4
    with assms obtain p where "s = [str_sec p]"
      by (auto simp: fap_command_types_def fap_commands)
    with 4 show ?thesis by (intro exI [of _ "FOpen p"]) simp
  next
    case 5
    with assms obtain p where "s = [str_sec p]"
      by (auto simp: fap_command_types_def fap_commands)
    with 5 show ?thesis by (intro exI [of _ "FClose p"]) simp
  next
    case 6
    with assms obtain p where "s = [str_sec p]"
      by (auto simp: fap_command_types_def fap_commands)
    with 6 show ?thesis by (intro exI [of _ "FStat p"]) simp
  next
    case 7
    with assms obtain p k n where "s = [str_sec p, int_sec k, int_sec n]"
      by (auto simp: fap_command_types_def fap_commands)
    with 7 show ?thesis by (intro exI [of _ "FRead p k n"]) simp
  next
    case 8
    with assms obtain p q t where "s = [str_sec p, str_sec q, int_sec t]"
      by (auto simp: fap_command_types_def fap_commands)
    with 8 show ?thesis by (intro exI [of _ "FCopy p q t"]) simp
  next
    case 9
    with assms obtain w d where "s = [str_sec w, str_sec d]"
      by (auto simp: fap_command_types_def fap_commands)
    with 9 show ?thesis by (intro exI [of _ "FFind w d"]) simp
  next
    case 10
    with assms obtain r p where "s = [int_sec r, str_sec p]"
      by (auto simp: fap_command_types_def fap_commands)
    with 10 show ?thesis by (intro exI [of _ "FList r p"]) simp
  qed
qed

lemma fap_speaks_accepted:
  assumes "fap_speaks m b"
  shows "fap_validate_sections m = Inr 0"
  using assms tests_runs(1)
  by (cases b) (auto dest!: sym [of "length _"] simp: fap_speaks_def fap_validate_sections_def
      fap_types fap_command_tests_def fap_commands fap_response_tests_def fap_responses)

text \<open>Validation of a message by its type.\<close>

lemma fap_validate_command:
  assumes "msg_type m = FAP_COMMAND" and "sections m = int_sec cmd # xs"
  shows "fap_validate_sections m =
    (case fap_command_types cmd of None \<Rightarrow> Inr (-1)
     | Some ts \<Rightarrow> verdict (vbind (tests ts xs) (testst ST_NONEXT)))"
  using assms by (simp add: fap_validate_sections_def fap_types fap_command_tests_types
      split: option.splits)

lemma fap_validate_response:
  assumes "msg_type m = FAP_RESPONSE" and "sections m = int_sec resp # xs"
  shows "fap_validate_sections m =
    verdict (vbind (fap_response_tests m resp xs) (testst ST_NONEXT))"
  using assms by (simp add: fap_validate_sections_def fap_types)

lemma fap_validate_hello:
  assumes "msg_type m = FAP_HELLO \<and> ts = [ST_STRING, ST_STRING] \<or>
    msg_type m = FAP_HELLO_RESPONSE \<and> ts = [ST_STRING, ST_INTEGER] \<or>
    msg_type m = FAP_QUIT \<and> ts = [] \<or>
    msg_type m = FAP_ERROR \<and> ts = [ST_INTEGER, ST_STRING]"
  shows "fap_validate_sections m = verdict (vbind (tests ts (sections m)) (testst ST_NONEXT))"
  using assms by (auto simp: fap_validate_sections_def fap_types)

lemma fap_validate_first:
  assumes "list_all received_ok (sections m)" and "msg_type m = FAP_COMMAND \<or> msg_type m = FAP_RESPONSE"
  shows "(sections m = [] \<and> fap_validate_sections m = Inl (Fault NullDeref)) \<or>
    fap_validate_sections m = Inr (-1) \<or> (\<exists>i xs. sections m = int_sec i # xs)"
proof (cases "sections m")
  case Nil
  with assms show ?thesis by (auto simp: fap_validate_sections_def fap_types)
next
  case (Cons x xs)
  show ?thesis
  proof (cases "sec_type x = ST_INTEGER")
    case True
    with assms(1) Cons show ?thesis by (metis received_head)
  next
    case False
    with assms Cons show ?thesis by (auto simp: fap_validate_sections_def fap_types)
  qed
qed

lemma fap_validate_fileinfo:
  assumes "msg_type m = FAP_RESPONSE" and "sections m = int_sec FAP_FILEINFO # int_sec n # ys"
  shows "fap_validate_sections m =
    verdict (vbind (tests (replicate (nat (sint n)) ST_FILEINFO) ys) (testst ST_NONEXT))"
  using assms by (simp add: fap_validate_response fap_response_tests_def fap_responses
      flip: One_nat_def)

lemma fap_validate_other:
  "msg_type m \<notin> {FAP_HELLO, FAP_HELLO_RESPONSE, FAP_QUIT, FAP_ERROR, FAP_COMMAND, FAP_RESPONSE} \<Longrightarrow>
     fap_validate_sections m = Inr (-1)"
  by (simp add: fap_validate_sections_def)

text \<open>
  Every received message falls in one of three classes: it is refused; it stops at the NULL before
  its payload is known; or the rest of its sections is tested against the types of a payload.
\<close>

lemma fap_validate_class:
  assumes "list_all received_ok (sections m)"
  obtains (refused) "fap_validate_sections m = Inr (-1)"
  | (header) b ss where "fap_validate_sections m = Inl (Fault NullDeref)" "fap_body_valid b"
      "fap_body_type b = msg_type m" "fap_body_sections b = sections m @ ss" "ss \<noteq> []"
  | (payload) us s ts where "sections m = us @ s" "checked ts"
      "fap_validate_sections m = verdict (vbind (tests ts s) (testst ST_NONEXT))"
      "\<And>s'. shaped s' ts \<Longrightarrow> \<exists>b. fap_body_valid b \<and> fap_body_type b = msg_type m \<and>
         fap_body_sections b = us @ s'"
proof -
  note res = refused header payload
  consider "msg_type m = FAP_HELLO" | "msg_type m = FAP_HELLO_RESPONSE" | "msg_type m = FAP_QUIT"
    | "msg_type m = FAP_ERROR" | "msg_type m = FAP_COMMAND" | "msg_type m = FAP_RESPONSE"
    | "fap_validate_sections m = Inr (-1)"
    using fap_validate_other by blast
  then show thesis
  proof cases
    case 1
    show ?thesis
      by (rule res(3) [of "[]" "sections m" "[ST_STRING, ST_STRING]"])
        (use 1 fap_validate_hello [of m "[ST_STRING, ST_STRING]"] in \<open>auto intro: exI [of _ "FHello _ _"]\<close>)
  next
    case 2
    show ?thesis
      by (rule res(3) [of "[]" "sections m" "[ST_STRING, ST_INTEGER]"])
        (use 2 fap_validate_hello [of m "[ST_STRING, ST_INTEGER]"] in \<open>auto intro: exI [of _ "FHelloResponse _ _"]\<close>)
  next
    case 3
    show ?thesis
      by (rule res(3) [of "[]" "sections m" "[]"])
        (use 3 fap_validate_hello [of m "[]"] in \<open>auto intro: exI [of _ FQuit]\<close>)
  next
    case 4
    show ?thesis
      by (rule res(3) [of "[]" "sections m" "[ST_INTEGER, ST_STRING]"])
        (use 4 fap_validate_hello [of m "[ST_INTEGER, ST_STRING]"] in \<open>auto intro: exI [of _ "FError _ _"]\<close>)
  next
    case 5
    with assms consider "sections m = []" "fap_validate_sections m = Inl (Fault NullDeref)"
      | "fap_validate_sections m = Inr (-1)" | cmd xs where "sections m = int_sec cmd # xs"
      using fap_validate_first by blast
    then show ?thesis
    proof cases
      case 1
      show ?thesis by (rule res(2) [OF 1(2), of "FOpen []" "[int_sec FAP_CMD_OPEN, str_sec []]"]) (use 1 5 in simp_all)
    next
      case 2
      then show ?thesis by (rule res(1))
    next
      case (3 cmd xs)
      show ?thesis
      proof (cases "fap_command_types cmd")
        case None
        with 3 5 show ?thesis by (intro res(1)) (simp add: fap_validate_command)
      next
        case (Some ts)
        show ?thesis
          by (rule res(3) [of "[int_sec cmd]" xs ts])
            (use 3 5 Some in \<open>simp_all add: fap_validate_command fap_command_types_checked
              fap_command_body\<close>)
      qed
    qed
  next
    case 6
    with assms consider "sections m = []" "fap_validate_sections m = Inl (Fault NullDeref)"
      | "fap_validate_sections m = Inr (-1)" | resp xs where "sections m = int_sec resp # xs"
      using fap_validate_first by blast
    then show ?thesis
    proof cases
      case 1
      show ?thesis by (rule res(2) [OF 1(2), of FOk "[int_sec FAP_OK]"]) (use 1 6 in simp_all)
    next
      case 2
      then show ?thesis by (rule res(1))
    next
      case (3 resp xs)
      note v = fap_validate_response [OF 6 3]
      consider "resp = FAP_OK" | "resp = FAP_DATAOUT" | "resp = FAP_FILEINFO" "xs = []"
        | n ys where "resp = FAP_FILEINFO" "xs = int_sec n # ys"
        | "fap_validate_sections m = Inr (-1)"
      proof (cases "resp \<in> {FAP_OK, FAP_FILEINFO, FAP_DATAOUT}")
        case known: True
        show ?thesis
        proof (cases xs)
          case Nil
          with known that(1-3) show ?thesis by auto
        next
          case (Cons y ys)
          show ?thesis
          proof (cases "sec_type y = ST_INTEGER")
            case True
            with Cons assms 3 received_integer [of y] obtain n where "y = int_sec n" by auto
            with Cons known that(1,2,4) show ?thesis by auto
          next
            case False
            with Cons v have "resp = FAP_FILEINFO \<Longrightarrow> fap_validate_sections m = Inr (-1)"
              by (simp add: fap_response_tests_def fap_responses)
            with known that(1,2,5) show ?thesis by auto
          qed
        qed
      next
        case False
        with v have "fap_validate_sections m = Inr (-1)" by (simp add: fap_response_tests_def)
        then show ?thesis by (rule that(5))
      qed
      then show ?thesis
      proof cases
        case 1
        show ?thesis
          by (rule res(3) [of "[int_sec FAP_OK]" xs "[]"])
            (use 1 3 6 v in \<open>auto simp: fap_response_tests_def intro: exI [of _ FOk]\<close>)
      next
        case 2
        show ?thesis
          by (rule res(3) [of "[int_sec FAP_DATAOUT]" xs "[ST_INTEGER]"])
            (use 2 3 6 v in \<open>auto simp: fap_response_tests_def fap_responses
              intro: exI [of _ "FDataout _"]\<close>)
      next
        case c: 3
        show ?thesis
          by (rule res(2) [of "FFileinfo 0 []" "[int_sec 0]"])
            (use c 3 6 v in \<open>auto simp: fap_response_tests_def fap_responses\<close>)
      next
        case (4 n ys)
        show ?thesis
          by (rule res(3) [of "[int_sec FAP_FILEINFO, int_sec n]" ys
                "replicate (nat (sint n)) ST_FILEINFO"])
            (use 4 3 6 in \<open>auto simp: fap_validate_fileinfo shaped_fileinfos
              intro: exI [of _ "FFileinfo n _"]\<close>)
      next
        case 5
        then show ?thesis by (rule res(1))
      qed
    qed
  next
    case 7
    then show ?thesis by (rule res(1))
  qed
qed

lemma fap_truncated_fault:
  assumes "fap_body_valid b" "fap_body_type b = msg_type m" "fap_body_sections b = sections m @ ss"
    and "ss \<noteq> []"
  shows "fap_validate_sections m = Inl (Fault NullDeref)"
  using assms
  by (cases b) (auto dest!: sym [of _ "msg_type m"] sym [of _ "sections m"]
      simp: Cons_eq_append_conv fap_validate_sections_def fap_types fap_command_tests_def fap_commands
        fap_response_tests_def fap_responses tests_truncated_runs)

interpretation fap: section_checker fap_validate_sections fap_body_valid fap_body_type
  fap_body_sections
proof (unfold_locales, goal_cases)
  case (1 b m)
  then show ?case by (simp add: fap_speaks_accepted fap_speaks_def)
next
  case (2 b m ss)
  then show ?case by (rule fap_truncated_fault)
next
  case (3 m thesis)
  from 3(1) show ?case
  proof (cases rule: fap_validate_class)
    case refused
    then show ?thesis by (rule 3(4))
  next
    case (header b ss)
    then show ?thesis by (rule 3(2))
  next
    case (payload us s ts)
    then show ?thesis by (rule 3(3))
  qed
qed

text \<open>
  C15. Validation accepts a received message exactly when its type and sections are those the protocol
  document gives to one of its messages other than \<open>ack\<close>, or when it is a listing that the document
  rules out: one with a negative count and no file info, or with more than 127 sections.
\<close>

theorem fap_validate_accepts:
  assumes "list_all received_ok (sections m)"
  shows "fap_validate_sections m = Inr 0 \<longleftrightarrow> fap_documented m \<and> msg_type m \<noteq> 7 \<or> fap_odd_listing m"
  using fap.accepts_iff [OF assms] fap_speaks_documented [of m] by (simp add: fap_speaks_def)

theorem fap_validate_accepts_witness:
  "fap_documented \<lparr>tid = 1, ids = [0, 2, 0], msg_type = 5, sections = [int_sec 2, str_sec (cstr ''/a'')]\<rparr> \<and>
   fap_validate_sections \<lparr>tid = 1, ids = [0, 2, 0], msg_type = 6, sections = [int_sec 2, int_sec (-1)]\<rparr> = Inr 0 \<and>
   fap_validate_sections \<lparr>tid = 1, ids = [0, 2, 0], msg_type = 7, sections = []\<rparr> \<noteq> Inr 0"
proof (intro conjI)
  have "fap_validate_sections \<lparr>tid = 1, ids = [0, 2, 0], msg_type = 5,
      sections = [int_sec 2, str_sec (cstr ''/a'')]\<rparr> = Inr 0"
    by (simp add: fap_validate_sections_def fap_types fap_command_tests_def fap_commands)
  then show "fap_documented \<lparr>tid = 1, ids = [0, 2, 0], msg_type = 5, sections = [int_sec 2, str_sec (cstr ''/a'')]\<rparr>"
    by (subst (asm) fap_validate_accepts) (simp_all add: fap_odd_listing_def fap_types)
  show "fap_validate_sections \<lparr>tid = 1, ids = [0, 2, 0], msg_type = 6, sections = [int_sec 2, int_sec (-1)]\<rparr> = Inr 0"
    by (subst fap_validate_accepts)
      (auto simp: fap_odd_listing_def fap_types fap_responses intro!: exI [of _ "-1"])
  show "fap_validate_sections \<lparr>tid = 1, ids = [0, 2, 0], msg_type = 7, sections = []\<rparr> \<noteq> Inr 0"
    by (subst fap_validate_accepts) (simp_all add: fap_odd_listing_def)
qed

text \<open>
  C16. Validation reads through the NULL that ends the section array exactly on the proper
  truncations of the protocol's messages, so such a message stops the process; it has no other
  fault.
\<close>

theorem fap_validate_faults:
  assumes "list_all received_ok (sections m)"
  shows "fap_validate_sections m = Inl e \<longleftrightarrow> e = Fault NullDeref \<and>
    (\<exists>b ss. fap_body_valid b \<and> fap_body_type b = msg_type m \<and>
       fap_body_sections b = sections m @ ss \<and> ss \<noteq> [])"
  using assms by (rule fap.faults_iff)

theorem fap_validate_faults_witness:
  "fap_validate_sections \<lparr>tid = 1, ids = [0, 2, 0], msg_type = 5, sections = [int_sec 2]\<rparr> =
     Inl (Fault NullDeref)"
  by (subst fap_validate_faults)
    (auto simp: fap_types intro!: exI [of _ "FOpen []"] exI [of _ "[str_sec []]"] simp: fap_commands)

end
