(* ===== verification/Dcp_Msg.thy ===== *)
theory Dcp_Msg
  imports Msg_Io
begin

text \<open>
  The protocol between file servers and the directory server, message level
  (\<^verbatim>\<open>src/src/dcp.h\<close>, \<^verbatim>\<open>src/src/dcp.c\<close>): message numbers, \<open>dcp_create_msg\<close>,
  \<open>dcp_validate_sections\<close>, \<open>dcp_check_response\<close>, and the messages of \<open>dcp_send_error\<close>,
  \<open>dcp_send_fileinfo\<close> and \<open>dcp_send_replica_list\<close>. The payloads that the code knows are the datatype
  \<open>dcp_body\<close>, and the section checks are proved to meet the contract \<open>section_checker\<close> for it;
  \<open>dcp_documented\<close> are the messages of the protocol document, which differ.
\<close>

section \<open>Numbers\<close>

definition DCP_HELLO :: u16 where "DCP_HELLO = 1"
definition DCP_HELLO_RESPONSE :: u16 where "DCP_HELLO_RESPONSE = 2"
definition DCP_LOCK :: u16 where "DCP_LOCK = 3"
definition DCP_CREATE :: u16 where "DCP_CREATE = 4"
definition DCP_READ :: u16 where "DCP_READ = 5"
definition DCP_UPDATE :: u16 where "DCP_UPDATE = 6"
definition DCP_DELETE :: u16 where "DCP_DELETE = 7"
definition DCP_SEARCH :: u16 where "DCP_SEARCH = 8"
definition DCP_INVALIDATE :: u16 where "DCP_INVALIDATE = 9"
definition DCP_REPLICA_UPDATE :: u16 where "DCP_REPLICA_UPDATE = 10"
definition DCP_REPLICA_STATUS :: u16 where "DCP_REPLICA_STATUS = 11"
definition DCP_GET_REPLICAS :: u16 where "DCP_GET_REPLICAS = 12"
definition DCP_DISCONNECT :: u16 where "DCP_DISCONNECT = 13"
definition DCP_FILEINFO :: u16 where "DCP_FILEINFO = 15"
definition DCP_ERROR :: u16 where "DCP_ERROR = 16"

lemmas dcp_types = DCP_HELLO_def DCP_HELLO_RESPONSE_def DCP_LOCK_def DCP_CREATE_def DCP_READ_def
  DCP_UPDATE_def DCP_DELETE_def DCP_SEARCH_def DCP_INVALIDATE_def DCP_REPLICA_UPDATE_def
  DCP_REPLICA_STATUS_def DCP_GET_REPLICAS_def DCP_DISCONNECT_def DCP_FILEINFO_def DCP_ERROR_def

section \<open>Message functions\<close>

definition dcp_create_msg :: "u64 \<Rightarrow> u64 \<Rightarrow> u64 \<Rightarrow> u16 \<Rightarrow> fsmsg" where
  "dcp_create_msg t server_id filesystem_id ty =
     (let msg = fsmsg_create 0 DCP in
      msg\<lparr>tid := t, ids := (ids msg)[0 := server_id, 1 := filesystem_id], msg_type := ty\<rparr>)"

text \<open>
  The cases of the switch in \<open>dcp_validate_sections\<close>. The types without a \<open>TESTST\<close> of their own,
  and any number that is no type at all (the switch has no default), fall through to the closing
  test.
\<close>

definition dcp_type_tests :: "fsmsg \<Rightarrow> u16 \<Rightarrow> msg_section list \<Rightarrow> msg_section list option res" where
  "dcp_type_tests msg ty s =
     (if ty = DCP_HELLO then tests [ST_STRING, ST_INTEGER, ST_INTEGER, ST_INTEGER] s
      else if ty = DCP_HELLO_RESPONSE then tests [ST_INTEGER] s
      else if ty = DCP_LOCK then Inr (Some s)
      else if ty = DCP_CREATE then tests [ST_FILEINFO] s
      else if ty = DCP_READ then tests [ST_INTEGER, ST_STRING] s
      else if ty = DCP_UPDATE then tests [ST_FILEINFO] s
      else if ty = DCP_REPLICA_STATUS then
        vbind (testst ST_INTEGER s) (\<lambda>s.
        rbind (SECI msg 0) (\<lambda>n. tests (replicate (nat (sint n)) ST_STRING) s))
      else if ty = DCP_GET_REPLICAS then tests [ST_STRING] s
      else if ty = DCP_FILEINFO then
        vbind (testst ST_INTEGER s) (\<lambda>s.
        rbind (SECI msg 0) (\<lambda>n. tests (replicate (nat (sint n)) ST_FILEINFO) s))
      else Inr (Some s))"

definition dcp_validate_sections :: "fsmsg \<Rightarrow> int res" where
  "dcp_validate_sections msg =
     verdict (vbind (dcp_type_tests msg (msg_type msg) (sections msg)) (testst ST_NONEXT))"

text \<open>The arguments \<open>et\<close>, \<open>es\<close>, \<open>ef\<close> are the expected ids; 0 matches any id.\<close>

definition dcp_check_response :: "fsmsg option \<Rightarrow> u64 \<Rightarrow> u64 \<Rightarrow> u64 \<Rightarrow> u16 \<Rightarrow> int res" where
  "dcp_check_response msg et es ef request_type =
     (case msg of None \<Rightarrow> Inr (-1)
      | Some m \<Rightarrow>
         if et \<noteq> 0 \<and> tid m \<noteq> et then Inr (-2)
         else rbind (nth_id m 0) (\<lambda>i0. if es \<noteq> 0 \<and> i0 \<noteq> es then Inr (-3)
         else rbind (nth_id m 1) (\<lambda>i1. if ef \<noteq> 0 \<and> i1 \<noteq> ef then Inr (-4)
         else let t = msg_type m in
           if request_type = 0 then Inr 0
           else if t = DCP_ERROR then Inr (-5)
           else if request_type = DCP_HELLO then
             (if t \<noteq> DCP_HELLO_RESPONSE then Inr (-6) else Inr 0)
           else if request_type = DCP_READ \<or> request_type = DCP_CREATE \<or> request_type = DCP_UPDATE then
             (if t \<noteq> DCP_FILEINFO then Inr (-6) else Inr 0)
           else if request_type = DCP_GET_REPLICAS then
             (if t \<noteq> DCP_REPLICA_STATUS then Inr (-6) else Inr 0)
           else Inr 0)))"

text \<open>Both ends keep the file server's connection in a \<open>fileserv_info\<close> (the thread left out).\<close>

record fileserv_info =
  sv_id :: u64
  sv_lasttid :: u64
  sv_sd :: int
  sv_name :: bytes
  sv_address :: bytes
  sv_max_capacity :: u32
  sv_disk_usage :: u32
  sv_file_count :: u32

definition dcp_error_msg :: "u64 \<Rightarrow> u64 \<Rightarrow> u64 \<Rightarrow> u32 \<Rightarrow> bytes \<Rightarrow> fsmsg res" where
  "dcp_error_msg fsid t sid errorn errstr =
     rbind (fsmsg_add_section (dcp_create_msg t sid fsid DCP_ERROR) ST_INTEGER (DInteger errorn)) (\<lambda>m.
     rbind (fsmsg_add_section m ST_STRING (DString (raw_of errstr))) (\<lambda>m.
     fsmsg_add_section m ST_NONEXT DUninit))"

definition dcp_send_error :: "u64 \<Rightarrow> int \<Rightarrow> u64 \<Rightarrow> u64 \<Rightarrow> u32 \<Rightarrow> bytes \<Rightarrow> netw \<Rightarrow> netw res" where
  "dcp_send_error fsid sd t sid errorn errstr net =
     rbind (dcp_error_msg fsid t sid errorn errstr) (\<lambda>m.
     rbind (fsmsg_send sd m DCP net) (\<lambda>(ret, net'). Inr net'))"

definition dcp_fileinfo_msg :: "u64 \<Rightarrow> fileserv_info \<Rightarrow> fileinfo_sect \<Rightarrow> fsmsg res" where
  "dcp_fileinfo_msg fsid srv file =
     rbind (fsmsg_add_section (dcp_create_msg (sv_lasttid srv) (sv_id srv) fsid DCP_FILEINFO)
              ST_INTEGER (DInteger 1)) (\<lambda>m.
     rbind (fsmsg_add_section m ST_FILEINFO (DFileinfo file)) (\<lambda>m.
     fsmsg_add_section m ST_NONEXT DUninit))"

definition dcp_send_fileinfo ::
  "u64 \<Rightarrow> fileserv_info \<Rightarrow> fileinfo_sect \<Rightarrow> netw \<Rightarrow> (int \<times> netw) res" where
  "dcp_send_fileinfo fsid srv file net =
     rbind (dcp_fileinfo_msg fsid srv file) (\<lambda>m. fsmsg_send (sv_sd srv) m DCP net)"

definition dcp_replica_msg :: "u64 \<Rightarrow> fileserv_info \<Rightarrow> bytes \<Rightarrow> fsmsg res" where
  "dcp_replica_msg fsid srv address =
     rbind (fsmsg_add_section (dcp_create_msg (sv_lasttid srv) (sv_id srv) fsid DCP_REPLICA_STATUS)
              ST_INTEGER (DInteger 1)) (\<lambda>m.
     rbind (fsmsg_add_section m ST_STRING (DString (raw_of address))) (\<lambda>m.
     fsmsg_add_section m ST_NONEXT DUninit))"

definition dcp_send_replica_list :: "u64 \<Rightarrow> fileserv_info \<Rightarrow> bytes \<Rightarrow> netw \<Rightarrow> (int \<times> netw) res" where
  "dcp_send_replica_list fsid srv address net =
     rbind (dcp_replica_msg fsid srv address) (\<lambda>m. fsmsg_send (sv_sd srv) m DCP net)"

section \<open>The messages of the protocol\<close>

text \<open>
  The payloads the code accepts. \<open>DPlain\<close> is a message without sections, of a type that has no
  \<open>TESTST\<close> of its own.
\<close>

datatype dcp_body =
    DHello bytes u32 u32 u32
  | DHelloResponse u32
  | DCreate fileinfo_sect
  | DRead u32 bytes
  | DUpdate fileinfo_sect
  | DReplicaStatus u32 "bytes list"
  | DGetReplicas bytes
  | DFileinfos u32 "fileinfo_sect list"
  | DPlain u16

fun dcp_body_type :: "dcp_body \<Rightarrow> u16" where
  "dcp_body_type (DHello _ _ _ _) = DCP_HELLO"
| "dcp_body_type (DHelloResponse _) = DCP_HELLO_RESPONSE"
| "dcp_body_type (DCreate _) = DCP_CREATE"
| "dcp_body_type (DRead _ _) = DCP_READ"
| "dcp_body_type (DUpdate _) = DCP_UPDATE"
| "dcp_body_type (DReplicaStatus _ _) = DCP_REPLICA_STATUS"
| "dcp_body_type (DGetReplicas _) = DCP_GET_REPLICAS"
| "dcp_body_type (DFileinfos _ _) = DCP_FILEINFO"
| "dcp_body_type (DPlain t) = t"

fun dcp_body_sections :: "dcp_body \<Rightarrow> msg_section list" where
  "dcp_body_sections (DHello h c u n) = [str_sec h, int_sec c, int_sec u, int_sec n]"
| "dcp_body_sections (DHelloResponse r) = [int_sec r]"
| "dcp_body_sections (DCreate f) = [fi_sec f]"
| "dcp_body_sections (DRead r p) = [int_sec r, str_sec p]"
| "dcp_body_sections (DUpdate f) = [fi_sec f]"
| "dcp_body_sections (DReplicaStatus n as) = int_sec n # map str_sec as"
| "dcp_body_sections (DGetReplicas p) = [str_sec p]"
| "dcp_body_sections (DFileinfos n fs) = int_sec n # map fi_sec fs"
| "dcp_body_sections (DPlain t) = []"

fun dcp_body_valid :: "dcp_body \<Rightarrow> bool" where
  "dcp_body_valid (DReplicaStatus n as) \<longleftrightarrow> length as = nat (sint n)"
| "dcp_body_valid (DFileinfos n fs) \<longleftrightarrow> length fs = nat (sint n)"
| "dcp_body_valid (DPlain t) \<longleftrightarrow>
     t \<notin> {DCP_HELLO, DCP_HELLO_RESPONSE, DCP_CREATE, DCP_READ, DCP_UPDATE, DCP_REPLICA_STATUS,
          DCP_GET_REPLICAS, DCP_FILEINFO}"
| "dcp_body_valid _ \<longleftrightarrow> True"

definition dcp_speaks :: "fsmsg \<Rightarrow> dcp_body \<Rightarrow> bool" where
  "dcp_speaks m b \<longleftrightarrow>
     dcp_body_valid b \<and> msg_type m = dcp_body_type b \<and> sections m = dcp_body_sections b"

text \<open>
  The messages of \<^verbatim>\<open>doc/desc/protocols.md\<close> by type number and layout of their sections, in its
  order; \<open>ack\<close> has the number 14 there and no name in the code.
\<close>

definition dcp_documented :: "fsmsg \<Rightarrow> bool" where
  "dcp_documented m \<longleftrightarrow> (let ty = msg_type m; s = sections m in
     ty = DCP_HELLO \<and> (\<exists>h c u n. s = [str_sec h, int_sec c, int_sec u, int_sec n]) \<or>
     ty = DCP_HELLO_RESPONSE \<and> (\<exists>r. s = [int_sec r]) \<or>
     ty = DCP_LOCK \<and> (\<exists>l p. s = [int_sec l, str_sec p]) \<or>
     ty = DCP_CREATE \<and> (\<exists>f. s = [fi_sec f]) \<or>
     ty = DCP_READ \<and> (\<exists>r p. s = [int_sec r, str_sec p]) \<or>
     ty = DCP_UPDATE \<and> (\<exists>f. s = [fi_sec f]) \<or>
     ty = DCP_DELETE \<and> (\<exists>p. s = [str_sec p]) \<or>
     ty = DCP_SEARCH \<and> (\<exists>w. s = [str_sec w]) \<or>
     ty = DCP_INVALIDATE \<and> (\<exists>p. s = [str_sec p]) \<or>
     ty = DCP_REPLICA_UPDATE \<and> (\<exists>a p. s = [int_sec a, str_sec p]) \<or>
     ty = DCP_REPLICA_STATUS \<and> (\<exists>n hs. s = int_sec n # map str_sec hs \<and> sint n = int (length hs)) \<or>
     ty = DCP_GET_REPLICAS \<and> (\<exists>p. s = [str_sec p]) \<or>
     ty = DCP_DISCONNECT \<and> s = [] \<or>
     ty = 14 \<and> s = [] \<or>
     ty = DCP_FILEINFO \<and> (\<exists>n fs. s = int_sec n # map fi_sec fs \<and> sint n = int (length fs)) \<or>
     ty = DCP_ERROR \<and> (\<exists>e w. s = [int_sec e, str_sec w]))"

text \<open>The types whose documented sections the code does not know, and those that do not exist.\<close>

definition dcp_bare :: "u16 \<Rightarrow> bool" where
  "dcp_bare ty \<longleftrightarrow> ty \<in> {DCP_LOCK, DCP_DELETE, DCP_SEARCH, DCP_INVALIDATE, DCP_REPLICA_UPDATE, DCP_ERROR}"

definition dcp_unknown :: "u16 \<Rightarrow> bool" where
  "dcp_unknown ty \<longleftrightarrow> ty = 0 \<or> 16 < ty"

text \<open>A count below 0, with nothing counted.\<close>

definition dcp_negative_count :: "fsmsg \<Rightarrow> bool" where
  "dcp_negative_count m \<longleftrightarrow> (msg_type m = DCP_REPLICA_STATUS \<or> msg_type m = DCP_FILEINFO) \<and>
     (\<exists>n. sections m = [int_sec n] \<and> sint n < 0)"

lemma dcp_plain_types:
  "dcp_body_valid (DPlain ty) \<longleftrightarrow> dcp_bare ty \<or> dcp_unknown ty \<or> ty = DCP_DISCONNECT \<or> ty = 14"
proof -
  have "ty = 0 \<or> 16 < ty \<or> ty \<in> {1, 2, 3, 4, 5, 6, 7, 8, 9, 10, 11, 12, 13, 14, 15, 16}"
  proof (cases "16 < ty")
    case False
    then have "unat ty \<le> 16" by (simp add: word_less_nat_alt)
    then have "unat ty \<in> {0, 1, 2, 3, 4, 5, 6, 7, 8, 9, 10, 11, 12, 13, 14, 15, 16}"
      by simp presburger
    then show ?thesis by (auto dest: arg_cong [of _ _ "of_nat :: nat \<Rightarrow> u16"])
  qed simp
  then consider "16 < ty" | "ty = 0 \<or> ty \<in> {1, 2, 3, 4, 5, 6, 7, 8, 9, 10, 11, 12, 13, 14, 15, 16}" by blast
  then show ?thesis
  proof cases
    case 1
    then have "ty \<noteq> k" if "k \<le> 16" for k using that by auto
    then have "ty \<noteq> 1" "ty \<noteq> 2" "ty \<noteq> 4" "ty \<noteq> 5" "ty \<noteq> 6" "ty \<noteq> 11" "ty \<noteq> 12" "ty \<noteq> 15" by simp_all
    with 1 show ?thesis by (simp add: dcp_unknown_def dcp_types)
  next
    case 2
    then show ?thesis by (elim disjE insertE emptyE) (simp_all add: dcp_bare_def dcp_unknown_def dcp_types)
  qed
qed

lemma dcp_speaks_documented:
  "(\<exists>b. dcp_speaks m b) \<longleftrightarrow> dcp_documented m \<and> \<not> dcp_bare (msg_type m) \<or>
     (dcp_bare (msg_type m) \<or> dcp_unknown (msg_type m)) \<and> sections m = [] \<or> dcp_negative_count m"
proof
  assume "\<exists>b. dcp_speaks m b"
  then obtain b where b: "dcp_body_valid b" "msg_type m = dcp_body_type b" "sections m = dcp_body_sections b"
    by (auto simp: dcp_speaks_def)
  show "dcp_documented m \<and> \<not> dcp_bare (msg_type m) \<or>
     (dcp_bare (msg_type m) \<or> dcp_unknown (msg_type m)) \<and> sections m = [] \<or> dcp_negative_count m"
  proof (cases b)
    case (DReplicaStatus n hs)
    with b show ?thesis
      by (cases "sint n < 0") (auto simp: dcp_documented_def dcp_bare_def dcp_negative_count_def dcp_types)
  next
    case (DFileinfos n fs)
    with b show ?thesis
      by (cases "sint n < 0") (auto simp: dcp_documented_def dcp_bare_def dcp_negative_count_def dcp_types)
  next
    case (DPlain ty)
    with b dcp_plain_types [of ty] show ?thesis by (auto simp: dcp_documented_def dcp_bare_def dcp_types)
  qed (use b in \<open>auto simp: dcp_documented_def dcp_bare_def dcp_types\<close>)
next
  assume "dcp_documented m \<and> \<not> dcp_bare (msg_type m) \<or>
     (dcp_bare (msg_type m) \<or> dcp_unknown (msg_type m)) \<and> sections m = [] \<or> dcp_negative_count m"
  then consider "dcp_documented m" "\<not> dcp_bare (msg_type m)"
    | "dcp_bare (msg_type m) \<or> dcp_unknown (msg_type m)" "sections m = []" | "dcp_negative_count m" by blast
  then show "\<exists>b. dcp_speaks m b"
  proof cases
    case 1
    then consider h c u n where "msg_type m = DCP_HELLO" "sections m = [str_sec h, int_sec c, int_sec u, int_sec n]"
      | r where "msg_type m = DCP_HELLO_RESPONSE" "sections m = [int_sec r]"
      | f where "msg_type m = DCP_CREATE" "sections m = [fi_sec f]"
      | r p where "msg_type m = DCP_READ" "sections m = [int_sec r, str_sec p]"
      | f where "msg_type m = DCP_UPDATE" "sections m = [fi_sec f]"
      | n hs where "msg_type m = DCP_REPLICA_STATUS" "sections m = int_sec n # map str_sec hs" "sint n = int (length hs)"
      | p where "msg_type m = DCP_GET_REPLICAS" "sections m = [str_sec p]"
      | "msg_type m = DCP_DISCONNECT \<or> msg_type m = 14" "sections m = []"
      | n fs where "msg_type m = DCP_FILEINFO" "sections m = int_sec n # map fi_sec fs" "sint n = int (length fs)"
      unfolding dcp_documented_def dcp_bare_def Let_def by blast
    then show ?thesis
    proof cases
      case (1 h c u n)
      then show ?thesis by (intro exI [of _ "DHello h c u n"]) (simp add: dcp_speaks_def)
    next
      case (2 r)
      then show ?thesis by (intro exI [of _ "DHelloResponse r"]) (simp add: dcp_speaks_def)
    next
      case (3 f)
      then show ?thesis by (intro exI [of _ "DCreate f"]) (simp add: dcp_speaks_def)
    next
      case (4 r p)
      then show ?thesis by (intro exI [of _ "DRead r p"]) (simp add: dcp_speaks_def)
    next
      case (5 f)
      then show ?thesis by (intro exI [of _ "DUpdate f"]) (simp add: dcp_speaks_def)
    next
      case (6 n hs)
      then show ?thesis by (intro exI [of _ "DReplicaStatus n hs"]) (simp add: dcp_speaks_def)
    next
      case (7 p)
      then show ?thesis by (intro exI [of _ "DGetReplicas p"]) (simp add: dcp_speaks_def)
    next
      case 8
      with dcp_plain_types [of "msg_type m"] show ?thesis
        by (intro exI [of _ "DPlain (msg_type m)"]) (simp add: dcp_speaks_def)
    next
      case (9 n fs)
      then show ?thesis by (intro exI [of _ "DFileinfos n fs"]) (simp add: dcp_speaks_def)
    qed
  next
    case 2
    then have "dcp_body_valid (DPlain (msg_type m))" by (simp only: dcp_plain_types) blast
    with 2(2) show ?thesis by (intro exI [of _ "DPlain (msg_type m)"]) (simp add: dcp_speaks_def)
  next
    case 3
    then obtain n where n: "sections m = [int_sec n]" "sint n < 0"
      "msg_type m = DCP_REPLICA_STATUS \<or> msg_type m = DCP_FILEINFO"
      by (auto simp: dcp_negative_count_def)
    then have "dcp_speaks m (DReplicaStatus n []) \<or> dcp_speaks m (DFileinfos n [])"
      by (auto simp: dcp_speaks_def)
    then show ?thesis by blast
  qed
qed

section \<open>The checks meet their contract\<close>

text \<open>The section types of the message types that have tests and no count.\<close>

definition dcp_fixed_types :: "u16 \<Rightarrow> u16 list option" where
  "dcp_fixed_types ty =
     (if ty = DCP_HELLO then Some [ST_STRING, ST_INTEGER, ST_INTEGER, ST_INTEGER]
      else if ty = DCP_HELLO_RESPONSE then Some [ST_INTEGER]
      else if ty = DCP_CREATE \<or> ty = DCP_UPDATE then Some [ST_FILEINFO]
      else if ty = DCP_READ then Some [ST_INTEGER, ST_STRING]
      else if ty = DCP_REPLICA_STATUS \<or> ty = DCP_FILEINFO then None
      else if ty = DCP_GET_REPLICAS then Some [ST_STRING]
      else Some [])"

lemma dcp_fixed:
  assumes "dcp_fixed_types (msg_type m) = Some ts"
  shows "checked ts"
    and "dcp_validate_sections m = verdict (vbind (tests ts (sections m)) (testst ST_NONEXT))"
    and "shaped s ts \<Longrightarrow> \<exists>b. dcp_body_valid b \<and> dcp_body_type b = msg_type m \<and>
      dcp_body_sections b = s"
proof -
  show "checked ts" using assms by (auto simp: dcp_fixed_types_def split: if_splits)
  show "dcp_validate_sections m = verdict (vbind (tests ts (sections m)) (testst ST_NONEXT))"
    using assms by (auto simp: dcp_fixed_types_def dcp_validate_sections_def dcp_type_tests_def
        dcp_types split: if_splits)
  consider "msg_type m = DCP_HELLO" | "msg_type m = DCP_HELLO_RESPONSE" | "msg_type m = DCP_CREATE"
    | "msg_type m = DCP_UPDATE" | "msg_type m = DCP_READ" | "msg_type m = DCP_GET_REPLICAS"
    | "dcp_body_valid (DPlain (msg_type m))" "ts = []"
    using assms by (auto simp: dcp_fixed_types_def split: if_splits)
  then show "shaped s ts \<Longrightarrow> \<exists>b. dcp_body_valid b \<and> dcp_body_type b = msg_type m \<and>
      dcp_body_sections b = s"
  proof cases
    case 1
    assume "shaped s ts"
    with 1 assms obtain h c u n where "s = [str_sec h, int_sec c, int_sec u, int_sec n]"
      by (auto simp: dcp_fixed_types_def dcp_types)
    with 1 show ?thesis by (intro exI [of _ "DHello h c u n"]) simp
  next
    case 2
    assume "shaped s ts"
    with 2 assms obtain r where "s = [int_sec r]"
      by (auto simp: dcp_fixed_types_def dcp_types)
    with 2 show ?thesis by (intro exI [of _ "DHelloResponse r"]) simp
  next
    case 3
    assume "shaped s ts"
    with 3 assms obtain f where "s = [fi_sec f]"
      by (auto simp: dcp_fixed_types_def dcp_types)
    with 3 show ?thesis by (intro exI [of _ "DCreate f"]) simp
  next
    case 4
    assume "shaped s ts"
    with 4 assms obtain f where "s = [fi_sec f]"
      by (auto simp: dcp_fixed_types_def dcp_types)
    with 4 show ?thesis by (intro exI [of _ "DUpdate f"]) simp
  next
    case 5
    assume "shaped s ts"
    with 5 assms obtain r p where "s = [int_sec r, str_sec p]"
      by (auto simp: dcp_fixed_types_def dcp_types)
    with 5 show ?thesis by (intro exI [of _ "DRead r p"]) simp
  next
    case 6
    assume "shaped s ts"
    with 6 assms obtain p where "s = [str_sec p]"
      by (auto simp: dcp_fixed_types_def dcp_types)
    with 6 show ?thesis by (intro exI [of _ "DGetReplicas p"]) simp
  next
    case 7
    then show "shaped s ts \<Longrightarrow> ?thesis" by (auto intro: exI [of _ "DPlain (msg_type m)"])
  qed
qed

text \<open>The two counted message types: \<open>t\<close> is the type of the counted sections.\<close>

definition dcp_counted :: "u16 \<Rightarrow> u16 \<Rightarrow> bool" where
  "dcp_counted ty t \<longleftrightarrow>
     ty = DCP_REPLICA_STATUS \<and> t = ST_STRING \<or> ty = DCP_FILEINFO \<and> t = ST_FILEINFO"

lemma dcp_fixed_or_counted:
  obtains ts where "dcp_fixed_types ty = Some ts" | t where "dcp_counted ty t"
proof (cases "dcp_fixed_types ty")
  case None
  then have "dcp_counted ty (if ty = DCP_FILEINFO then ST_FILEINFO else ST_STRING)"
    by (auto simp: dcp_fixed_types_def dcp_counted_def split: if_splits)
  then show thesis by (rule that(2))
qed (rule that(1))

lemma dcp_counted_validate:
  assumes "dcp_counted (msg_type m) t" and "sections m = int_sec n # ys"
  shows "dcp_validate_sections m =
    verdict (vbind (tests (replicate (nat (sint n)) t) ys) (testst ST_NONEXT))"
  using assms by (auto simp: dcp_counted_def dcp_validate_sections_def dcp_type_tests_def dcp_types)

lemma dcp_counted_first:
  assumes "dcp_counted (msg_type m) t"
  shows "sections m = [] \<Longrightarrow> dcp_validate_sections m = Inl (Fault NullDeref)"
    and "sections m = y # ys \<Longrightarrow> sec_type y \<noteq> ST_INTEGER \<Longrightarrow> dcp_validate_sections m = Inr (-1)"
  using assms by (auto simp: dcp_counted_def dcp_validate_sections_def dcp_type_tests_def dcp_types)

lemma dcp_counted_body:
  assumes "dcp_counted ty t" and "shaped s (replicate (nat (sint n)) t)"
  shows "\<exists>b. dcp_body_valid b \<and> dcp_body_type b = ty \<and> dcp_body_sections b = int_sec n # s"
proof -
  from assms consider bs where "ty = DCP_REPLICA_STATUS" "s = map str_sec bs" "length bs = nat (sint n)"
    | fs where "ty = DCP_FILEINFO" "s = map fi_sec fs" "length fs = nat (sint n)"
    by (auto simp: dcp_counted_def shaped_strings shaped_fileinfos)
  then show ?thesis
  proof cases
    case (1 bs)
    then show ?thesis by (intro exI [of _ "DReplicaStatus n bs"]) simp
  next
    case (2 fs)
    then show ?thesis by (intro exI [of _ "DFileinfos n fs"]) simp
  qed
qed

lemma dcp_speaks_accepted:
  assumes "dcp_body_valid b" "msg_type m = dcp_body_type b" "sections m = dcp_body_sections b"
  shows "dcp_validate_sections m = Inr 0"
  using assms tests_runs
  by (cases b) (auto dest!: sym [of "length _"] simp: dcp_validate_sections_def dcp_type_tests_def
      dcp_types)

lemma dcp_truncated_fault:
  assumes "dcp_body_valid b" "dcp_body_type b = msg_type m" "dcp_body_sections b = sections m @ ss"
    and "ss \<noteq> []"
  shows "dcp_validate_sections m = Inl (Fault NullDeref)"
  using assms
  by (cases b) (auto dest!: sym [of _ "msg_type m"] sym [of _ "sections m"]
      simp: Cons_eq_append_conv dcp_validate_sections_def dcp_type_tests_def dcp_types
        tests_truncated_runs)

interpretation dcp: section_checker dcp_validate_sections dcp_body_valid dcp_body_type
  dcp_body_sections
proof (unfold_locales, goal_cases)
  case (1 b m)
  then show ?case by (rule dcp_speaks_accepted)
next
  case (2 b m ss)
  then show ?case by (rule dcp_truncated_fault)
next
  case (3 m thesis)
  show ?case
  proof (cases rule: dcp_fixed_or_counted [of "msg_type m"])
    case (1 ts)
    from dcp_fixed [OF this] show ?thesis by (intro 3(3) [of "[]" "sections m" ts]) simp_all
  next
    case (2 t)
    note c = this
    show ?thesis
    proof (cases "sections m")
      case Nil
      have "checked (replicate 0 t)" by simp
      have "\<exists>b. dcp_body_valid b \<and> dcp_body_type b = msg_type m \<and> dcp_body_sections b = [int_sec 0]"
        using dcp_counted_body [OF c, of "[]" 0] by simp
      with Nil dcp_counted_first(1) [OF c Nil] show ?thesis by (auto intro: 3(2))
    next
      case (Cons y ys)
      show ?thesis
      proof (cases "sec_type y = ST_INTEGER")
        case True
        with Cons 3(1) obtain n where n: "sections m = int_sec n # ys" by (auto dest: received_integer)
        have "checked (replicate (nat (sint n)) t)" using c by (auto simp: dcp_counted_def)
        then show ?thesis
          using n dcp_counted_validate [OF c n] dcp_counted_body [OF c]
          by (intro 3(3) [of "[int_sec n]" ys]) simp_all
      next
        case False
        with dcp_counted_first(2) [OF c Cons] show ?thesis by (intro 3(4))
      qed
    qed
  qed
qed

text \<open>
  C17. Validation accepts a received message exactly when it is laid out as in the protocol document
  and of a type whose sections the code knows; or when it has no sections and its type is one of the
  six that should have some (lock, delete, search, invalidate, replica, error), or no type at all; or
  when its count is negative. It stops at the NULL that ends the section array exactly on the proper
  truncations of the messages it accepts.
\<close>

theorem dcp_validate_accepts:
  assumes "list_all received_ok (sections m)"
  shows "(dcp_validate_sections m = Inr 0 \<longleftrightarrow>
      dcp_documented m \<and> \<not> dcp_bare (msg_type m) \<or>
      (dcp_bare (msg_type m) \<or> dcp_unknown (msg_type m)) \<and> sections m = [] \<or> dcp_negative_count m) \<and>
    (dcp_validate_sections m = Inl e \<longleftrightarrow> e = Fault NullDeref \<and>
      (\<exists>b ss. dcp_body_valid b \<and> dcp_body_type b = msg_type m \<and>
         dcp_body_sections b = sections m @ ss \<and> ss \<noteq> []))"
  using dcp.accepts_iff [OF assms] dcp.faults_iff [OF assms] dcp_speaks_documented [of m]
  by (simp add: dcp_speaks_def)

theorem dcp_validate_accepts_witness:
  "dcp_documented \<lparr>tid = 1, ids = [1, 7, 0], msg_type = 16, sections = [int_sec 2, str_sec (cstr ''no'')]\<rparr> \<and>
   dcp_validate_sections \<lparr>tid = 1, ids = [1, 7, 0], msg_type = 16,
      sections = [int_sec 2, str_sec (cstr ''no'')]\<rparr> \<noteq> Inr 0 \<and>
   dcp_validate_sections \<lparr>tid = 1, ids = [1, 7, 0], msg_type = 5,
      sections = [int_sec 1, str_sec (cstr ''/a'')]\<rparr> = Inr 0 \<and>
   dcp_validate_sections \<lparr>tid = 1, ids = [1, 7, 0], msg_type = 5, sections = []\<rparr> = Inl (Fault NullDeref)"
proof (intro conjI)
  show "dcp_documented \<lparr>tid = 1, ids = [1, 7, 0], msg_type = 16, sections = [int_sec 2, str_sec (cstr ''no'')]\<rparr>"
    by (simp add: dcp_documented_def dcp_types)
  show "dcp_validate_sections \<lparr>tid = 1, ids = [1, 7, 0], msg_type = 16,
      sections = [int_sec 2, str_sec (cstr ''no'')]\<rparr> \<noteq> Inr 0"
    by (subst dcp_validate_accepts [THEN conjunct1])
      (simp_all add: dcp_bare_def dcp_negative_count_def dcp_types)
  show "dcp_validate_sections \<lparr>tid = 1, ids = [1, 7, 0], msg_type = 5,
      sections = [int_sec 1, str_sec (cstr ''/a'')]\<rparr> = Inr 0"
    by (subst dcp_validate_accepts [THEN conjunct1])
      (simp_all add: dcp_documented_def dcp_bare_def dcp_types)
  show "dcp_validate_sections \<lparr>tid = 1, ids = [1, 7, 0], msg_type = 5, sections = []\<rparr> =
     Inl (Fault NullDeref)"
    by (simp add: dcp_validate_sections_def dcp_type_tests_def dcp_types)
qed

text \<open>
  An error message of the directory server carries two sections, which its own protocol's
  validation refuses.
\<close>

lemma dcp_error_refused:
  "msg_type m = DCP_ERROR \<Longrightarrow> sections m = [int_sec e, str_sec s] \<Longrightarrow>
     dcp_validate_sections m = Inr (-1)"
  by (simp add: dcp_validate_sections_def dcp_type_tests_def dcp_types section_types)

end
