(* ===== verification/Dcp_Conn.thy ===== *)
theory Dcp_Conn
  imports Dcp_Msg
begin

text \<open>
  The handshake of a file server with the directory server (\<open>dcp_open\<close> and \<open>dcp_accept\<close> of
  \<^verbatim>\<open>src/src/dcp.c\<close>). The result of \<open>connect\<close>, the local host name and the random transaction id
  are arguments; the descriptors live in the network state.
\<close>

section \<open>Opening the connection\<close>

definition dcp_hello_msg :: "u64 \<Rightarrow> bytes \<Rightarrow> u32 \<Rightarrow> u32 \<Rightarrow> u32 \<Rightarrow> fsmsg res" where
  "dcp_hello_msg t host capacity usage filecnt =
     rbind (fsmsg_add_section (dcp_create_msg t 0 0 DCP_HELLO) ST_STRING (DString (raw_of host))) (\<lambda>m.
     rbind (fsmsg_add_section m ST_INTEGER (DInteger capacity)) (\<lambda>m.
     rbind (fsmsg_add_section m ST_INTEGER (DInteger usage)) (\<lambda>m.
     rbind (fsmsg_add_section m ST_INTEGER (DInteger filecnt)) (\<lambda>m.
     fsmsg_add_section m ST_NONEXT DUninit))))"

text \<open>
  \<open>conn\<close> is the connected descriptor, or \<open>Inl\<close> of the negative result of \<open>connect\<close>. The result
  holds the returned value, \<open>*server_id\<close>, the global \<open>fsid\<close> and the network.
\<close>

definition dcp_open ::
  "(nat \<Rightarrow> u8) \<Rightarrow> int + int \<Rightarrow> u64 \<Rightarrow> bytes \<Rightarrow> u32 \<Rightarrow> u32 \<Rightarrow> u32 \<Rightarrow> u64 \<Rightarrow> u64 \<Rightarrow> netw \<Rightarrow>
     (int \<times> u64 \<times> u64 \<times> netw) res" where
  "dcp_open junk conn t host capacity usage filecnt server_id fsid net =
     (case conn of
        Inl ret \<Rightarrow> Inr (ret, server_id, fsid, net)
      | Inr sd \<Rightarrow>
          rbind (dcp_hello_msg t host capacity usage filecnt) (\<lambda>msg.
          rbind (fsmsg_send sd msg DCP net) (\<lambda>(_, net).
          let (resp, net) = recv_msg junk sd DCP net in
          rbind (dcp_check_response resp t 0 0 DCP_HELLO) (\<lambda>ret.
          if ret < 0 then
            rbind (dcp_send_error fsid sd t server_id ERR_MSG
                     (cstr ''response type or some id was wrong'') net) (\<lambda>net.
            Inr (-1, server_id, fsid, net))
          else case resp of
            None \<Rightarrow> Inl (Fault NullDeref)
          | Some m \<Rightarrow>
              rbind (nth_id m 0) (\<lambda>i0. rbind (nth_id m 1) (\<lambda>i1.
              rbind (dcp_validate_sections m) (\<lambda>ret.
              Inr (if ret < 0 then -1 else sd, i0, i1, net))))))))"

section \<open>Accepting it\<close>

definition dcp_hello_response_msg :: "u64 \<Rightarrow> u64 \<Rightarrow> u64 \<Rightarrow> fsmsg res" where
  "dcp_hello_response_msg t sid fsid =
     rbind (fsmsg_add_section (dcp_create_msg t sid fsid DCP_HELLO_RESPONSE) ST_INTEGER (DInteger 1)) (\<lambda>m.
     fsmsg_add_section m ST_NONEXT DUninit)"

definition dcp_accept ::
  "(nat \<Rightarrow> u8) \<Rightarrow> u64 \<Rightarrow> fileserv_info \<Rightarrow> netw \<Rightarrow> (int \<times> fileserv_info \<times> netw) res" where
  "dcp_accept junk fsid info net =
     (let (msg, net) = recv_msg junk (sv_sd info) DCP net in
      case msg of
        None \<Rightarrow> Inr (-1, info, net)
      | Some m \<Rightarrow>
          if msg_type m \<noteq> DCP_HELLO then Inr (-2, info, net)
          else rbind (dcp_validate_sections m) (\<lambda>v.
          if v < 0 then Inr (-1, info, net)
          else
            rbind (SECSDUP m 0) (\<lambda>name.
            rbind (SECI m 1) (\<lambda>cap. rbind (SECI m 2) (\<lambda>usage. rbind (SECI m 3) (\<lambda>cnt.
            let info = info\<lparr>sv_name := name, sv_max_capacity := cap, sv_disk_usage := usage,
                            sv_file_count := cnt\<rparr> in
            rbind (dcp_hello_response_msg (tid m) (sv_id info) fsid) (\<lambda>resp.
            rbind (fsmsg_send (sv_sd info) resp DCP net) (\<lambda>(_, net).
            Inr (0, info, net)))))))))"

section \<open>The messages of the handshake\<close>

lemma msg_ok_dcp_create [simp]: "msg_ok DCP (dcp_create_msg t s f ty)"
  by (simp add: dcp_create_msg_def fsmsg_create_def msg_ok_def)

lemma dcp_create_simps [simp]:
  "tid (dcp_create_msg t s f ty) = t" "msg_type (dcp_create_msg t s f ty) = ty"
  "sections (dcp_create_msg t s f ty) = []" "ids (dcp_create_msg t s f ty) = [s, f, 0]"
  by (simp_all add: dcp_create_msg_def fsmsg_create_def Let_def numeral_3_eq_3 numeral_2_eq_2)

text \<open>A message of the directory protocol with the sections of a payload.\<close>

definition dcp_msg :: "u64 \<Rightarrow> u64 \<Rightarrow> u64 \<Rightarrow> dcp_body \<Rightarrow> fsmsg" where
  "dcp_msg t s f b = (dcp_create_msg t s f (dcp_body_type b))\<lparr>sections := dcp_body_sections b @ [end_sec]\<rparr>"

lemma dcp_msg_simps [simp]:
  "tid (dcp_msg t s f b) = t" "msg_type (dcp_msg t s f b) = dcp_body_type b"
  "sections (dcp_msg t s f b) = dcp_body_sections b @ [end_sec]" "ids (dcp_msg t s f b) = [s, f, 0]"
  by (simp_all add: dcp_msg_def)

lemma dcp_msg_ids [simp]:
  "nth_id (transported junk DCP (dcp_msg t s f b)) 0 = Inr s"
  "nth_id (transported junk DCP (dcp_msg t s f b)) (Suc 0) = Inr f"
  by (simp_all add: transported_def nth_id_def nth_append)

lemma complete_dcp_msg:
  "complete_msg DCP (dcp_msg t s f b) \<longleftrightarrow> list_all receivable (dcp_body_sections b) \<and>
     int (length (wire DCP (dcp_msg t s f b))) \<le> MSG_MAX"
proof -
  have "list_all receivable ss \<Longrightarrow> list_all section_ok ss" for ss
    by (auto simp: list_all_iff receivable_def)
  then show ?thesis
    by (auto simp: complete_msg_def msg_ok_def dcp_msg_def dcp_create_msg_def fsmsg_create_def)
qed

lemma hello_msg_eq:
  "short host \<Longrightarrow> dcp_hello_msg t host c u n = Inr (dcp_msg t 0 0 (DHello host c u n))"
  by (simp add: dcp_hello_msg_def dcp_msg_def)

lemma hello_response_eq: "dcp_hello_response_msg t s f = Inr (dcp_msg t s f (DHelloResponse 1))"
  by (simp add: dcp_hello_response_msg_def dcp_msg_def)

text \<open>What a payload becomes on the way.\<close>

fun rebody :: "u32 \<Rightarrow> dcp_body \<Rightarrow> dcp_body" where
  "rebody p (DCreate f) = DCreate (f\<lparr>fi_pad := p\<rparr>)"
| "rebody p (DUpdate f) = DUpdate (f\<lparr>fi_pad := p\<rparr>)"
| "rebody p (DFileinfos n fs) = DFileinfos n (map (\<lambda>f. f\<lparr>fi_pad := p\<rparr>) fs)"
| "rebody p b = b"

lemma rebody_simps [simp]:
  "map (received p) (dcp_body_sections b) = dcp_body_sections (rebody p b)"
  "dcp_body_type (rebody p b) = dcp_body_type b" "dcp_body_valid (rebody p b) = dcp_body_valid b"
  by (cases b; simp)+

lemma dcp_msg_accepted:
  "dcp_body_valid b \<Longrightarrow> dcp_validate_sections (transported junk DCP (dcp_msg t s f b)) = Inr 0"
  by (rule dcp_speaks_accepted [of "rebody (fresh_pad junk) b"]) simp_all

lemma length_wire_dcp:
  "length (wire DCP (dcp_msg t s f b)) = 28 + sum_list (map section_size (dcp_body_sections b))"
  by (simp add: length_wire)

lemma complete_hello:
  "length host \<le> 255 \<Longrightarrow> complete_msg DCP (dcp_msg t s f (DHello host c u n))"
  by (simp add: complete_dcp_msg length_wire_dcp MSG_MAX_def)

lemma complete_hello_response: "complete_msg DCP (dcp_msg t s f (DHelloResponse r))"
  by (simp add: complete_dcp_msg length_wire_dcp MSG_MAX_def)

lemma complete_dcp_paths:
  assumes "length p < 2 ^ 29"
  shows "complete_msg DCP (dcp_msg t s f (DRead r p))"
    and "complete_msg DCP (dcp_msg t s f (DGetReplicas p))"
  using assms by (simp_all add: complete_dcp_msg length_wire_dcp MSG_MAX_def)

lemma complete_dcp_infos:
  assumes "fi_receivable f" and "length (fi_path f) < 2 ^ 29" and "length (fi_username f) \<le> 255"
  shows "complete_msg DCP (dcp_msg t s fs (DCreate f))"
    and "complete_msg DCP (dcp_msg t s fs (DUpdate f))"
  using assms by (simp_all add: complete_dcp_msg length_wire_dcp MSG_MAX_def)

section \<open>The handshake\<close>

lemma dcp_accept_hello:
  assumes "length host \<le> 255" and "0 \<notin> set host"
    and "inq net (sv_sd info) = wire DCP (dcp_msg t s f (DHello host c u n)) # cs"
    and "out_ok net (sv_sd info)"
  shows "dcp_accept junk fsid info net =
    Inr (0, info\<lparr>sv_name := host, sv_max_capacity := c, sv_disk_usage := u, sv_file_count := n\<rparr>,
         sent (sv_sd info) (wire DCP (dcp_msg t (sv_id info) fsid (DHelloResponse 1)))
           (net\<lparr>inq := (inq net)(sv_sd info := [] # cs)\<rparr>))"
proof -
  let ?m = "dcp_msg t s f (DHello host c u n)"
  have v: "dcp_validate_sections (transported junk DCP ?m) = Inr 0"
    by (intro dcp_msg_accepted) simp
  have "strndup host (of_nat (length host)) = Inr host"
    using assms(1,2) by (intro strndup_exact) (simp_all add: unat_of_nat)
  then show ?thesis
    using recv_wire [OF complete_hello [OF assms(1)] assms(3), of junk] v assms(4)
    by (simp add: dcp_accept_def sec_access hello_response_eq
        send_complete [OF complete_hello_response] raw_of_def)
qed

lemma dcp_check_hello_response:
  "dcp_check_response (Some (transported junk DCP (dcp_msg t i f (DHelloResponse r)))) t 0 0 DCP_HELLO =
     Inr 0"
  by (simp add: dcp_check_response_def dcp_types)

lemma dcp_open_response:
  assumes "length host \<le> 255"
    and "inq net sd = wire DCP (dcp_msg t i f (DHelloResponse r)) # cs" and "out_ok net sd"
  shows "dcp_open junk (Inr sd) t host c u n s0 f0 net =
    Inr (sd, i, f, (sent sd (wire DCP (dcp_msg t 0 0 (DHello host c u n))) net)
                     \<lparr>inq := (inq net)(sd := [] # cs)\<rparr>)"
proof -
  let ?m = "dcp_msg t i f (DHelloResponse r)"
  let ?net = "sent sd (wire DCP (dcp_msg t 0 0 (DHello host c u n))) net"
  have v: "dcp_validate_sections (transported junk DCP ?m) = Inr 0"
    by (intro dcp_msg_accepted) simp
  have "inq ?net sd = wire DCP ?m # cs" using assms(2) by simp
  from recv_wire [OF complete_hello_response this, of junk] v assms(1,3) dcp_check_hello_response
  show ?thesis
    by (simp add: dcp_open_def hello_msg_eq send_complete [OF complete_hello [OF assms(1)]])
qed

text \<open>
  C18. Handshake. When the hello of a file server with a host name of at most \<open>HOST_NAME_MAX\<close> bytes
  reaches the directory server, \<open>dcp_accept\<close> records the name and the figures in it and answers
  with the id it gave the server and the file system's id, and with refresh 1 whatever the file
  count \<open>n\<close> (the protocol document asks for 0 when that is 0); and when that answer reaches the file
  server, its \<open>dcp_open\<close> has sent that hello and returns the connection with these ids.
\<close>

theorem dcp_handshake:
  assumes "length host \<le> 255" and "0 \<notin> set host" and "out_ok net (sv_sd info)" and "out_ok net' sd"
    and "inq net (sv_sd info) = wire DCP (dcp_msg t 0 0 (DHello host c u n)) # cs"
    and "inq net' sd = wire DCP (dcp_msg t (sv_id info) fsid (DHelloResponse 1)) # cs'"
  shows "(\<exists>net1. dcp_accept junk fsid info net =
      Inr (0, info\<lparr>sv_name := host, sv_max_capacity := c, sv_disk_usage := u, sv_file_count := n\<rparr>, net1)
      \<and> outq net1 (sv_sd info) = outq net (sv_sd info) @
           wire DCP (dcp_msg t (sv_id info) fsid (DHelloResponse 1)))
    \<and> (\<exists>net2. dcp_open junk' (Inr sd) t host c u n s0 f0 net' = Inr (sd, sv_id info, fsid, net2)
      \<and> outq net2 sd = outq net' sd @ wire DCP (dcp_msg t 0 0 (DHello host c u n)))"
  using dcp_accept_hello [OF assms(1,2,5,3)] dcp_open_response [OF assms(1,6,4)] by simp

theorem dcp_handshake_witness:
  "\<exists>net2. dcp_open (\<lambda>_. 0) (Inr 4) 7 (cstr ''fs1'') 10 0 0 0 0
     \<lparr>inq = \<lambda>_. [wire DCP (dcp_msg 7 1 1333333337 (DHelloResponse 1))], in_err = \<lambda>_. False,
      outq = \<lambda>_. [], out_ok = \<lambda>_. True,
       out_wr = \<lambda>_ _. int\<rparr> = Inr (4, 1, 1333333337, net2)"
proof -
  let ?info = "\<lparr>sv_id = 1, sv_lasttid = 0, sv_sd = 5, sv_name = [], sv_address = [],
    sv_max_capacity = 0, sv_disk_usage = 0, sv_file_count = 0\<rparr>"
  let ?net = "\<lparr>inq = \<lambda>_. [wire DCP (dcp_msg 7 0 0 (DHello (cstr ''fs1'') 10 0 0))],
    in_err = \<lambda>_. False, outq = \<lambda>_. [], out_ok = \<lambda>_. True,
       out_wr = \<lambda>_ _. int\<rparr>"
  show ?thesis
    using dcp_handshake [of "cstr ''fs1''" ?net ?info
        "\<lparr>inq = \<lambda>_. [wire DCP (dcp_msg 7 1 1333333337 (DHelloResponse 1))], in_err = \<lambda>_. False,
          outq = \<lambda>_. [], out_ok = \<lambda>_. True,
       out_wr = \<lambda>_ _. int\<rparr>" 4 7 10 0 0 "[]" 1333333337 "[]" "\<lambda>_. 0" "\<lambda>_. 0" 0 0]
    by auto
qed

end
