(* ===== verification/Dirtree.thy ===== *)
theory Dirtree
  imports Protomsg
begin

text \<open>
  The directory tree of the directory server (\<^verbatim>\<open>src/src/fsdird.c\<close>, lines 278 to 348): the heap of
  \<open>struct node\<close>s with their child and sibling pointers, path lookup with \<open>strtok\<close>, insertion, and
  an abstract tree that the heap represents. Lookup and insertion are proved to implement lookup
  and insertion in the abstract tree; from that follow the laws of a directory, which the file
  operations of the server rest on.
\<close>

section \<open>Nodes and paths\<close>

text \<open>
  An address is an index of the heap, NULL is \<open>None\<close>; \<open>calloc\<close> extends the heap and nothing is ever
  freed. \<open>nd_fileserv\<close> points into the array of file servers.
\<close>

record node =
  nd_name :: bytes
  nd_user :: "bytes option"
  nd_children :: "nat option"
  nd_next :: "nat option"
  nd_fileserv :: "nat option"

type_synonym heap = "node list"

definition node_at :: "heap \<Rightarrow> nat \<Rightarrow> node res" where
  "node_at h a = (if a < length h then Inr (h ! a) else Inl (Fault OutOfBounds))"

abbreviation slash :: u8 where "slash \<equiv> 47"

definition new_node :: "bytes \<Rightarrow> node" where
  "new_node name =
     \<lparr>nd_name = name, nd_user = None, nd_children = None, nd_next = None, nd_fileserv = None\<rparr>"

text \<open>\<open>dir_init\<close>: the root is the first node, \<open>dirroot\<close> its address.\<close>

definition dir_init :: heap where "dir_init = [new_node [slash]]"

definition dirroot :: nat where "dirroot = 0"

text \<open>One call of \<open>strtok\<close> with delimiter \<open>/\<close>: the token and the string its next call works on.\<close>

definition strtok_slash :: "bytes \<Rightarrow> (bytes \<times> bytes) option" where
  "strtok_slash s =
     (let t = dropWhile (\<lambda>c. c = slash) s in
      if t = [] then None
      else Some (takeWhile (\<lambda>c. c \<noteq> slash) t, drop 1 (dropWhile (\<lambda>c. c \<noteq> slash) t)))"

text \<open>What follows the last \<open>/\<close>: \<open>strrchr(s, '/') + 1\<close>, \<open>None\<close> where \<open>strrchr\<close> gives NULL.\<close>

definition after_last_slash :: "bytes \<Rightarrow> bytes option" where
  "after_last_slash s =
     (if slash \<in> set s then Some (rev (takeWhile (\<lambda>c. c \<noteq> slash) (rev s))) else None)"

lemma strtok_slash_shorter: "strtok_slash s = Some (l, r) \<Longrightarrow> length r < length s"
proof -
  assume "strtok_slash s = Some (l, r)"
  then have t: "dropWhile (\<lambda>c. c = slash) s \<noteq> []"
    and r: "r = drop 1 (dropWhile (\<lambda>c. c \<noteq> slash) (dropWhile (\<lambda>c. c = slash) s))"
    by (auto simp: strtok_slash_def Let_def split: if_splits)
  let ?t = "dropWhile (\<lambda>c. c = slash) s"
  from t have "hd ?t \<noteq> slash" using hd_dropWhile by blast
  with t obtain c u where u: "?t = c # u" "c \<noteq> slash" by (cases ?t) auto
  then have "length r \<le> length u" unfolding r
    using length_dropWhile_le [of "\<lambda>c. c \<noteq> slash" u] by simp
  also have "\<dots> < length ?t" using u by simp
  also have "\<dots> \<le> length s" by (rule length_dropWhile_le)
  finally show ?thesis .
qed

section \<open>Lookup and insertion\<close>

text \<open>
  The loops over siblings run on fuel. A walk over more nodes than the heap has repeats one, so
  fuel of one more than the heap's size is enough for every walk that ends at all.
\<close>

fun find_child :: "nat \<Rightarrow> heap \<Rightarrow> bytes \<Rightarrow> nat option \<Rightarrow> nat option res" where
  "find_child 0 h level n = Inl Diverge"
| "find_child (Suc k) h level None = Inr None"
| "find_child (Suc k) h level (Some a) =
     rbind (node_at h a) (\<lambda>nd.
       if nd_name nd = level then Inr (Some a) else find_child k h level (nd_next nd))"

text \<open>The loop over the levels of a path, from \<open>p\<close> and \<open>n\<close>; the result is \<open>p\<close> and \<open>n\<close> at its end.\<close>

function find_levels :: "heap \<Rightarrow> bytes \<Rightarrow> nat \<Rightarrow> nat option \<Rightarrow> (nat \<times> nat option) res" where
  "find_levels h path p n =
     (case strtok_slash path of
        None \<Rightarrow> Inr (p, n)
      | Some (level, rest) \<Rightarrow>
          rbind (node_at h p) (\<lambda>pn.
          rbind (find_child (Suc (length h)) h level (nd_children pn)) (\<lambda>c.
          case c of None \<Rightarrow> Inr (p, None) | Some a \<Rightarrow> find_levels h rest a (Some a))))"
  by pat_completeness auto
termination
  by (relation "measure (\<lambda>(h, path, p, n). length path)") (auto dest: strtok_slash_shorter)

declare find_levels.simps [simp del]

definition dir_find_node :: "heap \<Rightarrow> bytes \<Rightarrow> bool \<Rightarrow> nat option res" where
  "dir_find_node h path exact =
     (case strtok_slash path of
        None \<Rightarrow> Inr (Some dirroot)
      | Some _ \<Rightarrow>
          rbind (find_levels h path dirroot None) (\<lambda>(p, n). Inr (if exact then n else Some p)))"

fun last_sibling :: "nat \<Rightarrow> heap \<Rightarrow> nat \<Rightarrow> nat res" where
  "last_sibling 0 h i = Inl Diverge"
| "last_sibling (Suc k) h i =
     rbind (node_at h i) (\<lambda>nd.
       case nd_next nd of None \<Rightarrow> Inr i | Some j \<Rightarrow> last_sibling k h j)"

definition add_child :: "heap \<Rightarrow> nat \<Rightarrow> nat \<Rightarrow> heap res" where
  "add_child h p c =
     rbind (node_at h p) (\<lambda>pn.
       case nd_children pn of
         None \<Rightarrow> Inr (h[p := pn\<lparr>nd_children := Some c\<rparr>])
       | Some i \<Rightarrow>
           rbind (last_sibling (Suc (length h)) h i) (\<lambda>l.
           Inr (h[l := (h ! l)\<lparr>nd_next := Some c\<rparr>])))"

text \<open>
  \<open>add_node\<close>: for a path without \<open>/\<close> it computes \<open>NULL + 1\<close> and copies the string there. The
  result is the address of the new node and the heap.
\<close>

definition add_node :: "heap \<Rightarrow> bytes \<Rightarrow> (nat \<times> heap) res" where
  "add_node h path =
     (case after_last_slash path of
        None \<Rightarrow> Inl (Fault NullDeref)
      | Some base \<Rightarrow>
          let n = length h; h1 = h @ [new_node base] in
          rbind (dir_find_node h1 path False) (\<lambda>p.
          case p of
            None \<Rightarrow> Inl (Fault NullDeref)
          | Some p \<Rightarrow> rbind (add_child h1 p n) (\<lambda>h2. Inr (n, h2))))"

text \<open>
  \<open>fileinfo_from_node\<close>: everything else of the structure is cleared, its padding too.
\<close>

definition fileinfo_from_node :: "node \<Rightarrow> fileinfo_sect" where
  "fileinfo_from_node n =
     (let user = (case nd_user n of Some u \<Rightarrow> u | None \<Rightarrow> cstr ''user'') in
      \<lparr>fi_type = 0, fi_pad = 0, fi_pathlen = of_nat (length (nd_name n)), fi_path = nd_name n,
       fi_usernamelen = of_nat (length user), fi_username = user,
       fi_modified = 0, fi_size = 0, fi_replicas = 0\<rparr>)"

section \<open>The abstract tree\<close>

text \<open>A node with its address, name, file server and children in order.\<close>

datatype atree = ANode (aaddr: nat) (aname: bytes) (aserv: "nat option") (akids: "atree list")

fun addrs :: "atree list \<Rightarrow> nat list" where
  "addrs [] = []"
| "addrs (ANode a nm fs ks # ts) = a # addrs ks @ addrs ts"

text \<open>The chain of siblings from \<open>s\<close> on represents a list of trees.\<close>

fun chain :: "heap \<Rightarrow> nat option \<Rightarrow> atree list \<Rightarrow> bool" where
  "chain h s [] \<longleftrightarrow> s = None"
| "chain h s (ANode a nm fs ks # ts) \<longleftrightarrow>
     s = Some a \<and> a < length h \<and> nd_name (h ! a) = nm \<and> nd_fileserv (h ! a) = fs \<and>
     nd_user (h ! a) = None \<and> chain h (nd_children (h ! a)) ks \<and> chain h (nd_next (h ! a)) ts"

definition represents :: "heap \<Rightarrow> atree \<Rightarrow> bool" where
  "represents h t \<longleftrightarrow> aaddr t = dirroot \<and> chain h (Some dirroot) [t] \<and> distinct (addrs [t])"

text \<open>Lookup of the levels of a path, the deepest node on the way, and insertion below it.\<close>

definition kid :: "bytes \<Rightarrow> atree \<Rightarrow> atree option" where
  "kid l t = List.find (\<lambda>k. aname k = l) (akids t)"

fun alookup :: "atree \<Rightarrow> bytes list \<Rightarrow> atree option" where
  "alookup t [] = Some t"
| "alookup t (l # ls) = (case kid l t of None \<Rightarrow> None | Some k \<Rightarrow> alookup k ls)"

fun adeepest :: "atree \<Rightarrow> bytes list \<Rightarrow> atree" where
  "adeepest t [] = t"
| "adeepest t (l # ls) = (case kid l t of None \<Rightarrow> t | Some k \<Rightarrow> adeepest k ls)"

fun at_first :: "('a \<Rightarrow> bool) \<Rightarrow> ('a \<Rightarrow> 'a) \<Rightarrow> 'a list \<Rightarrow> 'a list" where
  "at_first P f [] = []"
| "at_first P f (x # xs) = (if P x then f x # xs else x # at_first P f xs)"

fun ainsert :: "atree \<Rightarrow> atree \<Rightarrow> bytes list \<Rightarrow> atree" where
  "ainsert new (ANode a nm fs ks) [] = ANode a nm fs (ks @ [new])"
| "ainsert new (ANode a nm fs ks) (l # ls) =
     ANode a nm fs
       (if \<exists>k\<in>set ks. aname k = l then at_first (\<lambda>k. aname k = l) (\<lambda>k. ainsert new k ls) ks
        else ks @ [new])"

text \<open>The levels of a path: what the successive calls of \<open>strtok\<close> give.\<close>

function levels :: "bytes \<Rightarrow> bytes list" where
  "levels path = (case strtok_slash path of None \<Rightarrow> [] | Some (l, rest) \<Rightarrow> l # levels rest)"
  by pat_completeness auto
termination
  by (relation "measure length") (auto dest: strtok_slash_shorter)

declare levels.simps [simp del]

section \<open>Lookup implements abstract lookup\<close>

lemma addrs_append [simp]: "addrs (xs @ ys) = addrs xs @ addrs ys"
  by (induction xs rule: addrs.induct) simp_all

lemma chain_cong:
  "chain h s ts \<Longrightarrow> (\<And>a. a \<in> set (addrs ts) \<Longrightarrow> a < length h' \<and> h' ! a = h ! a) \<Longrightarrow> chain h' s ts"
  by (induction h s ts rule: chain.induct) auto

lemma chain_bound: "chain h s ts \<Longrightarrow> a \<in> set (addrs ts) \<Longrightarrow> a < length h"
  by (induction h s ts rule: chain.induct) auto

lemma chain_extend:
  assumes "chain h s ts"
  shows "chain (h @ [n]) s ts"
proof (rule chain_cong [OF assms])
  fix a assume "a \<in> set (addrs ts)"
  with assms have "a < length h" by (rule chain_bound)
  then show "a < length (h @ [n]) \<and> (h @ [n]) ! a = h ! a" by (simp add: nth_append)
qed

lemma chain_None [simp]: "chain h None ts \<longleftrightarrow> ts = []"
  by (cases ts rule: addrs.cases) auto

lemma length_le_addrs: "length ts \<le> length (addrs ts)"
  by (induction ts rule: addrs.induct) simp_all

lemma chain_length:
  assumes "chain h s ts" and "distinct (addrs ts)"
  shows "length ts \<le> length h"
proof -
  have "set (addrs ts) \<subseteq> {..<length h}" using chain_bound [OF assms(1)] by auto
  then have "card (set (addrs ts)) \<le> card {..<length h}" by (intro card_mono) auto
  then show ?thesis using length_le_addrs [of ts] distinct_card [OF assms(2)] by simp
qed

lemma chain_frame:
  assumes "chain h s ts" and "length h' = length h" and "\<And>a. a \<in> set (addrs ts) \<Longrightarrow> h' ! a = h ! a"
  shows "chain h' s ts"
  using assms(2,3) chain_bound [OF assms(1)] by (intro chain_cong [OF assms(1)]) simp

lemma chain_update:
  assumes "chain h s ts" and "x \<notin> set (addrs ts)"
  shows "chain (h[x := n]) s ts"
proof (rule chain_cong [OF assms(1)])
  fix a assume a: "a \<in> set (addrs ts)"
  with assms(2) have "x \<noteq> a" by auto
  with chain_bound [OF assms(1) a] show "a < length (h[x := n]) \<and> h[x := n] ! a = h ! a" by simp
qed

lemma find_child_chain:
  "chain h s ks \<Longrightarrow> length ks < k \<Longrightarrow>
     find_child k h l s = Inr (map_option aaddr (List.find (\<lambda>t. aname t = l) ks))"
proof (induction k arbitrary: s ks)
  case 0
  then show ?case by simp
next
  case (Suc k)
  show ?case
  proof (cases ks)
    case Nil
    with Suc.prems show ?thesis by simp
  next
    case (Cons t ts)
    obtain a nm fs us where t: "t = ANode a nm fs us" by (cases t)
    with Suc.prems Cons have "find_child k h l (nd_next (h ! a)) =
        Inr (map_option aaddr (List.find (\<lambda>t. aname t = l) ts))"
      by (intro Suc.IH) simp_all
    with Suc.prems Cons t show ?thesis by (simp add: node_at_def)
  qed
qed

text \<open>A node of the tree, with its children in the heap.\<close>

definition at_node :: "heap \<Rightarrow> atree \<Rightarrow> bool" where
  "at_node h t \<longleftrightarrow> aaddr t < length h \<and> chain h (nd_children (h ! aaddr t)) (akids t) \<and>
     length (akids t) \<le> length h"

lemma addrs_member: "k \<in> set ks \<Longrightarrow> set (addrs [k]) \<subseteq> set (addrs ks)"
  by (induction ks rule: addrs.induct) auto

lemma distinct_kids: "distinct (addrs ks) \<Longrightarrow> k \<in> set ks \<Longrightarrow> distinct (addrs [k])"
  by (induction ks rule: addrs.induct) auto

lemma chain_member:
  "chain h s ks \<Longrightarrow> k \<in> set ks \<Longrightarrow> chain h (Some (aaddr k)) [k] \<or>
     aaddr k < length h \<and> chain h (nd_children (h ! aaddr k)) (akids k)"
  by (induction h s ks rule: chain.induct) auto

lemma at_node_member:
  assumes "chain h s ks" and "distinct (addrs ks)" and "k \<in> set ks"
  shows "at_node h k"
proof -
  from chain_member [OF assms(1,3)]
  have "aaddr k < length h \<and> chain h (nd_children (h ! aaddr k)) (akids k)"
    by (cases k) auto
  moreover from distinct_kids [OF assms(2,3)] have "distinct (addrs (akids k))" by (cases k) simp
  ultimately show ?thesis using chain_length by (auto simp: at_node_def)
qed

lemma kid_in: "kid l t = Some k \<Longrightarrow> k \<in> set (akids t)"
  by (auto simp: kid_def find_Some_iff)

lemma find_levels_tree:
  assumes "at_node h t" and "distinct (addrs (akids t))"
  shows "find_levels h path (aaddr t) n =
    Inr (aaddr (adeepest t (levels path)),
         if levels path = [] then n else map_option aaddr (alookup t (levels path)))"
  using assms
proof (induction path arbitrary: t n rule: levels.induct)
  case (1 path)
  show ?case
  proof (cases "strtok_slash path")
    case None
    then show ?thesis by (simp add: find_levels.simps levels.simps)
  next
    case (Some lr)
    obtain l rest where lr: "lr = (l, rest)" by (cases lr)
    have lv: "levels path = l # levels rest" using Some lr by (simp add: levels.simps)
    have c: "find_child (Suc (length h)) h l (nd_children (h ! aaddr t)) =
        Inr (map_option aaddr (kid l t))"
      using 1(2) by (simp add: at_node_def find_child_chain kid_def del: find_child.simps)
    have p: "node_at h (aaddr t) = Inr (h ! aaddr t)"
      using 1(2) by (simp add: at_node_def node_at_def)
    show ?thesis
    proof (cases "kid l t")
      case None
      with Some lr lv c p show ?thesis
        by (subst find_levels.simps) (simp del: find_child.simps)
    next
      case k: (Some k)
      from kid_in [OF k] 1(2,3) have "at_node h k" "distinct (addrs [k])"
        by (auto intro: at_node_member [of h "nd_children (h ! aaddr t)" "akids t"]
            distinct_kids simp: at_node_def [of h t])
      then have "at_node h k" "distinct (addrs (akids k))" by (simp, cases k, simp)
      from 1(1) [OF Some lr [symmetric] this, of "Some (aaddr k)"] Some lr lv c p k show ?thesis
        by (subst find_levels.simps) (simp del: find_child.simps)
    qed
  qed
qed

lemma represents_root: "represents h t \<Longrightarrow> at_node h t \<and> distinct (addrs (akids t)) \<and> aaddr t = dirroot"
  by (cases t) (auto simp: represents_def at_node_def dest: chain_length)

lemma lookup_at_node:
  assumes "represents h t" and "alookup t ls = Some k"
  shows "at_node h k"
proof -
  have "at_node h k \<and> distinct (addrs (akids k))"
    if "at_node h t" "distinct (addrs (akids t))" "alookup t ls = Some k" for t
    using that
  proof (induction ls arbitrary: t)
    case Nil
    then show ?case by simp
  next
    case (Cons l ls)
    from Cons.prems(3) obtain u where u: "kid l t = Some u" "alookup u ls = Some k"
      by (auto split: option.splits)
    from kid_in [OF u(1)] Cons.prems(1,2) have "at_node h u" "distinct (addrs [u])"
      by (auto intro: at_node_member [of h "nd_children (h ! aaddr t)" "akids t"]
          distinct_kids simp: at_node_def [of h t])
    then have "at_node h u" "distinct (addrs (akids u))" by (simp, cases u, simp)
    then show ?case using Cons.IH u(2) by blast
  qed
  with represents_root [OF assms(1)] assms(2) show ?thesis by blast
qed

lemma levels_Nil_iff: "levels path = [] \<longleftrightarrow> strtok_slash path = None"
  by (subst levels.simps) (auto split: option.splits)

lemma dir_find_node_tree:
  assumes "represents h t"
  shows "dir_find_node h path True = Inr (map_option aaddr (alookup t (levels path)))"
    and "dir_find_node h path False = Inr (Some (aaddr (adeepest t (levels path))))"
  using find_levels_tree [of h t path None] represents_root [OF assms] levels_Nil_iff [of path]
  by (auto simp: dir_find_node_def split: option.splits)

section \<open>Insertion implements abstract insertion\<close>

text \<open>Insertion below the node with a given address.\<close>

fun aadd :: "nat \<Rightarrow> atree \<Rightarrow> atree list \<Rightarrow> atree list" where
  "aadd p new [] = []"
| "aadd p new (ANode a nm fs ks # ts) =
     ANode a nm fs (if a = p then ks @ [new] else aadd p new ks) # aadd p new ts"

lemma aadd_notin: "p \<notin> set (addrs ts) \<Longrightarrow> aadd p new ts = ts"
  by (induction ts rule: addrs.induct) auto

lemma last_sibling_chain:
  "chain h (Some i) ts \<Longrightarrow> length ts \<le> k \<Longrightarrow> last_sibling k h i = Inr (aaddr (last ts))"
proof (induction k arbitrary: i ts)
  case 0
  then show ?case by simp
next
  case (Suc k)
  then obtain a nm fs ks us where ts: "ts = ANode a nm fs ks # us"
    by (cases ts rule: addrs.cases) auto
  with Suc.prems show ?case
    by (cases "nd_next (h ! a)"; cases us) (auto simp: node_at_def Suc.IH)
qed

lemma last_addr: "ts \<noteq> [] \<Longrightarrow> aaddr (last ts) \<in> set (addrs ts)"
  by (induction ts rule: addrs.induct) auto

text \<open>Linking a new leaf behind the last sibling.\<close>

lemma chain_snoc:
  assumes "chain h s ks" and "ks \<noteq> []" and "distinct (addrs ks)" and "c \<notin> set (addrs ks)"
    and "c < length h" and "h ! c = new_node nm" and "x = aaddr (last ks)"
  shows "chain (h[x := (h ! x)\<lparr>nd_next := Some c\<rparr>]) s (ks @ [ANode c nm None []])"
  using assms
proof (induction h s ks rule: chain.induct)
  case (1 h s)
  then show ?case by simp
next
  case (2 h s a nm' fs us ts)
  let ?h = "h[x := (h ! x)\<lparr>nd_next := Some c\<rparr>]"
  have kids: "chain h (nd_children (h ! a)) us" and sibs: "chain h (nd_next (h ! a)) ts"
    using 2(3) by auto
  have "x \<notin> set (addrs us)"
    using 2(5,9) last_addr [of ts] by (cases "ts = []") auto
  then have us: "chain ?h (nd_children (h ! a)) us" by (rule chain_update [OF kids])
  show ?case
  proof (cases "ts = []")
    case True
    have "c \<noteq> a" using 2(6) by auto
    with True 2(3,7-9) us show ?thesis by (auto simp: new_node_def)
  next
    case False
    with 2(5,9) last_addr [of ts] have "x \<noteq> a" by auto
    moreover have "chain ?h (nd_next (h ! a)) (ts @ [ANode c nm None []])"
      using 2(5-9) False by (intro 2(2) [OF sibs]) auto
    ultimately show ?thesis using 2(3) us by auto
  qed
qed

text \<open>The children of a node of the tree.\<close>

lemma kids_of:
  assumes "chain h s ts" and "distinct (addrs ts)" and "p \<in> set (addrs ts)"
  obtains ks where "p < length h" "chain h (nd_children (h ! p)) ks" "distinct (addrs ks)"
    "set (addrs ks) \<subseteq> set (addrs ts)" "p \<notin> set (addrs ks)" "length ks \<le> length h"
proof -
  have "\<exists>ks. p < length h \<and> chain h (nd_children (h ! p)) ks \<and> distinct (addrs ks) \<and>
    set (addrs ks) \<subseteq> set (addrs ts) \<and> p \<notin> set (addrs ks)"
    using assms
  proof (induction h s ts rule: chain.induct)
    case (1 h s)
    then show ?case by simp
  next
    case (2 h s a nm fs ks ts)
    then consider "p = a" | "p \<in> set (addrs ks)" | "p \<in> set (addrs ts)" by auto
    then show ?case
    proof cases
      case 1
      with 2 show ?thesis by (intro exI [of _ ks]) auto
    next
      case c: 2
      from 2(1) [of] 2(3,4) c show ?thesis by simp blast
    next
      case 3
      from 2(2) [of] 2(3,4) 3 show ?thesis by simp blast
    qed
  qed
  then show thesis using that chain_length by blast
qed

text \<open>\<open>add_child\<close> changes one node of the tree, and never fails there.\<close>

lemma add_child_cases:
  assumes "chain h s ts" and "distinct (addrs ts)" and "p \<in> set (addrs ts)"
  obtains (first) "p < length h" "nd_children (h ! p) = None"
      "add_child h p c = Inr (h[p := (h ! p)\<lparr>nd_children := Some c\<rparr>])"
  | (next_) ks x where "chain h (nd_children (h ! p)) ks" "ks \<noteq> []" "distinct (addrs ks)"
      "set (addrs ks) \<subseteq> set (addrs ts)" "p \<notin> set (addrs ks)" "x = aaddr (last ks)"
      "p < length h" "x < length h"
      "add_child h p c = Inr (h[x := (h ! x)\<lparr>nd_next := Some c\<rparr>])"
proof -
  from kids_of [OF assms] obtain ks where ks: "p < length h" "chain h (nd_children (h ! p)) ks"
    "distinct (addrs ks)" "set (addrs ks) \<subseteq> set (addrs ts)" "p \<notin> set (addrs ks)"
    "length ks \<le> length h" .
  show thesis
  proof (cases "nd_children (h ! p)")
    case None
    with ks(1) show thesis by (intro first) (simp_all add: add_child_def node_at_def)
  next
    case (Some i)
    with ks(2) have "ks \<noteq> []" by auto
    moreover have "last_sibling (Suc (length h)) h i = Inr (aaddr (last ks))"
      using ks(2,6) Some by (intro last_sibling_chain) auto
    moreover have "aaddr (last ks) < length h"
      using chain_bound [OF ks(2)] last_addr [OF \<open>ks \<noteq> []\<close>] by simp
    ultimately show thesis using ks Some
      by (intro next_ [of ks "aaddr (last ks)"])
        (simp_all add: add_child_def node_at_def del: last_sibling.simps)
  qed
qed

lemma add_child_frame:
  assumes "chain h s ts" and "distinct (addrs ts)" and "p \<in> set (addrs ts)"
    and "add_child h p c = Inr h'"
  shows "length h' = length h" and "b \<notin> set (addrs ts) \<Longrightarrow> h' ! b = h ! b"
proof -
  have "length h' = length h \<and> (b \<notin> set (addrs ts) \<longrightarrow> h' ! b = h ! b)"
    using assms(1-3)
  proof (cases rule: add_child_cases [where c = c])
    case first
    with assms(4) have "h' = h[p := (h ! p)\<lparr>nd_children := Some c\<rparr>]" by simp
    moreover have "b \<notin> set (addrs ts) \<longrightarrow> p \<noteq> b" using assms(3) by auto
    ultimately show ?thesis by simp
  next
    case (next_ ks x)
    with assms(4) have "h' = h[x := (h ! x)\<lparr>nd_next := Some c\<rparr>]" by simp
    moreover have "b \<notin> set (addrs ts) \<longrightarrow> x \<noteq> b" using next_(2,4,6) last_addr by blast
    ultimately show ?thesis by simp
  qed
  then show "length h' = length h" "b \<notin> set (addrs ts) \<Longrightarrow> h' ! b = h ! b" by auto
qed

lemma chain_add:
  assumes "chain h s ts" and "distinct (addrs ts)" and "p \<in> set (addrs ts)"
    and "c \<notin> set (addrs ts)" and "c < length h" and "h ! c = new_node nm"
    and "add_child h p c = Inr h'"
  shows "chain h' s (aadd p (ANode c nm None []) ts)"
  using assms
proof (induction h s ts rule: chain.induct)
  case (1 h s)
  then show ?case by simp
next
  case (2 h s a nm' fs ks ts)
  note frame = add_child_frame [OF 2(3,4,5,9)]
  from 2 consider "p = a" | "p \<in> set (addrs ks)" "p \<noteq> a" "p \<notin> set (addrs ts)"
    | "p \<in> set (addrs ts)" "p \<noteq> a" "p \<notin> set (addrs ks)" by auto
  then show ?case
  proof cases
    case 1
    have kids: "chain h (nd_children (h ! a)) ks" "distinct (addrs ks)" and a: "a < length h"
      and sibs: "chain h (nd_next (h ! a)) ts" and c: "c \<noteq> a" and notin: "a \<notin> set (addrs ks)"
      using 2(3,4,6) by auto
    note len = chain_length [OF kids]
    show ?thesis
    proof (cases "nd_children (h ! a)")
      case None
      with kids have "ks = []" by simp
      from None 1 a 2(9) have h': "h' = h[a := (h ! a)\<lparr>nd_children := Some c\<rparr>]"
        by (simp add: add_child_def node_at_def)
      have "chain h' (nd_next (h ! a)) ts"
        unfolding h' using 2(4) by (intro chain_update [OF sibs]) auto
      with 1 2(3,4,7,8) a c h' \<open>ks = []\<close> show ?thesis by (simp add: aadd_notin new_node_def)
    next
      case (Some i)
      with kids have ne: "ks \<noteq> []" by auto
      let ?x = "aaddr (last ks)"
      have "last_sibling (Suc (length h)) h i = Inr ?x"
        using kids(1) len Some by (intro last_sibling_chain) auto
      with Some 1 a 2(9) have h': "h' = h[?x := (h ! ?x)\<lparr>nd_next := Some c\<rparr>]"
        by (simp add: add_child_def node_at_def del: last_sibling.simps)
      have x: "?x \<noteq> a" "?x \<notin> set (addrs ts)" using last_addr [OF ne] notin 2(4) by auto
      have "chain h' (nd_next (h ! a)) ts" unfolding h' by (rule chain_update [OF sibs x(2)])
      moreover have "chain h' (nd_children (h ! a)) (ks @ [ANode c nm None []])"
        unfolding h' using 2(6-8) by (intro chain_snoc [OF kids(1) ne kids(2)]) auto
      ultimately show ?thesis using 1 2(3,4) x(1) h' by (simp add: aadd_notin)
    qed
  next
    case c: 2
    have sub: "chain h (nd_children (h ! a)) ks" "distinct (addrs ks)" "c \<notin> set (addrs ks)"
      using 2(3,4,6) by auto
    note f = add_child_frame [OF sub(1,2) c(1) 2(9)]
    have "chain h' (nd_next (h ! a)) ts"
      using 2(3,4) f by (intro chain_frame [of h _ ts h']) auto
    moreover have "h' ! a = h ! a" using f(2) 2(4) by auto
    ultimately show ?thesis
      using 2(1) [OF sub(1,2) c(1) sub(3) 2(7,8,9)] 2(3) c f(1) by (simp add: aadd_notin)
  next
    case c: 3
    have sub: "chain h (nd_next (h ! a)) ts" "distinct (addrs ts)" "c \<notin> set (addrs ts)"
      using 2(3,4,6) by auto
    note f = add_child_frame [OF sub(1,2) c(1) 2(9)]
    have "chain h' (nd_children (h ! a)) ks"
      using 2(3,4) f by (intro chain_frame [of h _ ks h']) auto
    moreover have "h' ! a = h ! a" using f(2) 2(4) by auto
    ultimately show ?thesis
      using 2(2) [OF sub(1,2) c(1) sub(3) 2(7,8,9)] 2(3) c f(1) by (simp add: aadd_notin)
  qed
qed

text \<open>Insertion by address is insertion below the deepest node of a path.\<close>

lemma deepest_in: "aaddr (adeepest t ls) \<in> set (addrs [t])"
proof (induction ls arbitrary: t)
  case Nil
  then show ?case by (cases t) simp
next
  case (Cons l ls)
  show ?case
  proof (cases "kid l t")
    case None
    then show ?thesis by (cases t) simp
  next
    case (Some k)
    from addrs_member [OF kid_in [OF Some]] Cons.IH [of k] Some show ?thesis by (cases t) auto
  qed
qed

lemma aadd_append: "aadd p new (xs @ ys) = aadd p new xs @ aadd p new ys"
  by (induction xs rule: addrs.induct) auto

lemma aadd_at_first:
  assumes "distinct (addrs ks)" and "List.find P ks = Some k" and "p \<in> set (addrs [k])"
    and "aadd p new [k] = [f k]"
  shows "aadd p new ks = at_first P f ks"
  using assms
proof (induction ks)
  case Nil
  then show ?case by simp
next
  case (Cons t ts)
  have dist: "distinct (addrs ts)" "set (addrs [t]) \<inter> set (addrs ts) = {}"
    using Cons.prems(1) by (cases t; auto)+
  have split: "aadd p new (t # ts) = aadd p new [t] @ aadd p new ts" by (cases t) simp
  show ?case
  proof (cases "P t")
    case True
    with Cons.prems(2) have "k = t" by simp
    moreover from this Cons.prems(3) dist(2) have "p \<notin> set (addrs ts)" by auto
    ultimately show ?thesis using True Cons.prems(4) split by (simp add: aadd_notin)
  next
    case False
    with Cons.prems(2) have k: "List.find P ts = Some k" by simp
    then have "k \<in> set ts" by (auto simp: find_Some_iff)
    then have "p \<notin> set (addrs [t])" using addrs_member Cons.prems(3) dist(2) by blast
    with False Cons.IH [OF dist(1) k Cons.prems(3,4)] show ?thesis by (simp add: split aadd_notin)
  qed
qed

lemma ainsert_aadd:
  "distinct (addrs [t]) \<Longrightarrow> aadd (aaddr (adeepest t ls)) new [t] = [ainsert new t ls]"
proof (induction ls arbitrary: t)
  case Nil
  then show ?case by (cases t) simp
next
  case (Cons l ls)
  obtain a nm fs ks where t: "t = ANode a nm fs ks" by (cases t)
  show ?case
  proof (cases "kid l t")
    case None
    then have "\<not> (\<exists>k\<in>set ks. aname k = l)" by (auto simp: kid_def t find_None_iff)
    with None show ?thesis by (simp add: t)
  next
    case (Some k)
    then have k: "List.find (\<lambda>k. aname k = l) ks = Some k" "k \<in> set ks" "aname k = l"
      by (auto simp: kid_def t find_Some_iff)
    from k(2) Cons.prems t have dk: "distinct (addrs [k])" "distinct (addrs ks)"
      using distinct_kids [of ks k] by auto
    let ?p = "aaddr (adeepest k ls)"
    from addrs_member [OF k(2)] deepest_in [of k ls] Cons.prems t have "a \<noteq> ?p" by auto
    moreover have "aadd ?p new ks = at_first (\<lambda>k. aname k = l) (\<lambda>k. ainsert new k ls) ks"
      using aadd_at_first [OF dk(2) k(1) deepest_in [of k ls], where f = "\<lambda>k. ainsert new k ls"]
        Cons.IH [OF dk(1)] by simp
    ultimately show ?thesis using Some k(2,3) by (auto simp: t)
  qed
qed

lemma aname_ainsert [simp]: "aname (ainsert new t ls) = aname t"
  and aaddr_ainsert [simp]: "aaddr (ainsert new t ls) = aaddr t"
  and aserv_ainsert [simp]: "aserv (ainsert new t ls) = aserv t"
  by (cases t; cases ls; simp)+

lemma addrs_aadd:
  "distinct (addrs ts) \<Longrightarrow> set (addrs (aadd p (ANode c nm fs []) ts)) =
     (if p \<in> set (addrs ts) then insert c (set (addrs ts)) else set (addrs ts))"
  by (induction ts rule: addrs.induct) (auto simp: aadd_notin)

lemma distinct_aadd:
  "distinct (addrs ts) \<Longrightarrow> c \<notin> set (addrs ts) \<Longrightarrow> distinct (addrs (aadd p (ANode c nm fs []) ts))"
  by (induction ts rule: addrs.induct) (auto simp: aadd_notin addrs_aadd split: if_splits)

text \<open>\<open>add_node\<close> is total on paths with a \<open>/\<close> and implements insertion.\<close>

lemma add_node_tree:
  assumes "represents h t" and "after_last_slash path = Some base"
  shows "\<exists>h'. add_node h path = Inr (length h, h') \<and> length h' = Suc (length h) \<and>
    represents h' (ainsert (ANode (length h) base None []) t (levels path))"
proof -
  let ?h1 = "h @ [new_node base]" and ?c = "length h"
  let ?p = "aaddr (adeepest t (levels path))"
  have c: "chain ?h1 (Some dirroot) [t]" "distinct (addrs [t])" "aaddr t = dirroot"
    using assms(1) chain_extend by (auto simp: represents_def)
  then have r1: "represents ?h1 t" by (simp add: represents_def)
  have fresh: "?c \<notin> set (addrs [t])"
    using assms(1) chain_bound [of h "Some dirroot" "[t]" ?c] by (auto simp: represents_def)
  obtain h' where h': "add_child ?h1 ?p ?c = Inr h'"
    using c(1,2) deepest_in by (cases rule: add_child_cases [where c = ?c]) auto
  have "chain h' (Some dirroot) (aadd ?p (ANode ?c base None []) [t])"
    by (rule chain_add [OF c(1,2) deepest_in fresh _ _ h']) simp_all
  moreover have "distinct (addrs (aadd ?p (ANode ?c base None []) [t]))"
    by (rule distinct_aadd [OF c(2) fresh])
  ultimately have "represents h' (ainsert (ANode ?c base None []) t (levels path))"
    using c(3) by (simp add: ainsert_aadd [OF c(2)] represents_def
        del: addrs.simps chain.simps aadd.simps)
  moreover have "length h' = Suc (length h)"
    using add_child_frame(1) [OF c(1,2) deepest_in h'] by simp
  moreover have "add_node h path = Inr (length h, h')"
    using assms(2) dir_find_node_tree(2) [OF r1, of path] h' by (simp add: add_node_def)
  ultimately show ?thesis by blast
qed

lemma add_node_no_slash: "slash \<notin> set path \<Longrightarrow> add_node h path = Inl (Fault NullDeref)"
  by (simp add: add_node_def after_last_slash_def)

lemma add_child_names:
  assumes "add_child h p c = Inr h'"
  shows "map nd_name h' = map nd_name h" and "map nd_fileserv h' = map nd_fileserv h"
proof -
  obtain x n where h': "h' = h[x := n]" "nd_name n = nd_name (h ! x)" "nd_fileserv n = nd_fileserv (h ! x)"
  proof (cases "nd_children (h ! p)")
    case None
    with assms have "h' = h[p := (h ! p)\<lparr>nd_children := Some c\<rparr>]"
      by (auto simp: add_child_def node_at_def split: if_splits)
    then show thesis by (intro that [of p "(h ! p)\<lparr>nd_children := Some c\<rparr>"]) simp_all
  next
    case (Some i)
    with assms obtain l where "h' = h[l := (h ! l)\<lparr>nd_next := Some c\<rparr>]"
      by (auto simp: add_child_def node_at_def rbind_Inr_iff split: if_splits simp del: last_sibling.simps)
    then show thesis by (intro that [of l "(h ! l)\<lparr>nd_next := Some c\<rparr>"]) simp_all
  qed
  from h'(2) show "map nd_name h' = map nd_name h"
    unfolding h'(1) by (cases "x < length h")
      (simp_all add: map_update list_update_same_conv list_update_beyond not_less)
  from h'(3) show "map nd_fileserv h' = map nd_fileserv h"
    unfolding h'(1) by (cases "x < length h")
      (simp_all add: map_update list_update_same_conv list_update_beyond not_less)
qed

lemma add_node_nodes:
  assumes "add_node h path = Inr (n, h')"
  shows "n = length h" and "length h' = Suc (length h)" and "after_last_slash path = Some (nd_name (h' ! n))"
    and "map nd_fileserv h' = map nd_fileserv h @ [None]"
proof -
  from assms obtain b p where b: "after_last_slash path = Some b" "n = length h"
      "add_child (h @ [new_node b]) p (length h) = Inr h'"
    by (auto simp: add_node_def Let_def rbind_Inr_iff split: option.splits)
  note names = add_child_names [OF b(3)]
  show "n = length h" by (rule b(2))
  show len: "length h' = Suc (length h)" using names(1) by (metis length_append_singleton length_map)
  show "map nd_fileserv h' = map nd_fileserv h @ [None]" using names(2) by (simp add: new_node_def)
  have "nd_name (h' ! n) = map nd_name h' ! n" using b(2) len by simp
  also have "\<dots> = b" unfolding names(1) by (simp add: b(2) nth_append new_node_def)
  finally show "after_last_slash path = Some (nd_name (h' ! n))" using b(1) by simp
qed

section \<open>Laws of abstract lookup and insertion\<close>

lemma find_at_first:
  "(\<And>k. aname (f k) = aname k) \<Longrightarrow>
     List.find (\<lambda>k. aname k = l) (at_first (\<lambda>k. aname k = l') f ks) =
       (if l = l' then map_option f (List.find (\<lambda>k. aname k = l) ks)
        else List.find (\<lambda>k. aname k = l) ks)"
  by (induction ks) auto

lemma find_append: "List.find P (xs @ ys) = (case List.find P xs of None \<Rightarrow> List.find P ys | Some x \<Rightarrow> Some x)"
  by (induction xs) auto

lemma find_none_iff: "(\<exists>k\<in>set ks. aname k = l) \<longleftrightarrow> List.find (\<lambda>k. aname k = l) ks \<noteq> None"
  by (auto simp: find_None_iff)

lemma kid_ainsert:
  "kid l (ainsert new t ls) =
     (case ls of
        [] \<Rightarrow> (case kid l t of None \<Rightarrow> if aname new = l then Some new else None | Some k \<Rightarrow> Some k)
      | l' # ls' \<Rightarrow>
          (case kid l t of
             None \<Rightarrow> if kid l' t = None \<and> aname new = l then Some new else None
           | Some k \<Rightarrow> if l = l' then Some (ainsert new k ls') else Some k))"
  by (cases t; cases ls)
    (auto simp: kid_def find_append find_at_first find_none_iff split: option.splits)

lemma lookup_keeps:
  "alookup t ls = Some k \<Longrightarrow> \<exists>k'. alookup (ainsert new t ls') ls = Some k' \<and> aaddr k' = aaddr k \<and>
     aname k' = aname k \<and> aserv k' = aserv k"
proof (induction ls arbitrary: t ls')
  case Nil
  then show ?case by simp
next
  case (Cons l ls)
  from Cons.prems obtain u where u: "kid l t = Some u" "alookup u ls = Some k"
    by (auto split: option.splits)
  show ?case using u Cons.IH [OF u(2)] by (auto simp: kid_ainsert split: list.splits)
qed

lemma lookup_append:
  "alookup t (xs @ ys) = (case alookup t xs of None \<Rightarrow> None | Some k \<Rightarrow> alookup k ys)"
  by (induction xs arbitrary: t) (auto split: option.splits)

lemma lookup_new:
  "alookup t ls \<noteq> None \<Longrightarrow> alookup t (ls @ [l]) = None \<Longrightarrow> aname new = l \<Longrightarrow>
     alookup (ainsert new t (ls @ [l])) (ls @ [l]) = Some new"
proof (induction ls arbitrary: t)
  case Nil
  then show ?case by (simp add: kid_ainsert split: option.splits)
next
  case (Cons x xs)
  then obtain u where "kid x t = Some u" by (auto split: option.splits)
  with Cons show ?case by (simp add: kid_ainsert)
qed

text \<open>With the parent missing, the new leaf lands below the deepest node there is.\<close>

lemma lookup_stray:
  assumes "akids new = []"
  shows "alookup t ls = None \<Longrightarrow> alookup (ainsert new t (ls @ [l])) (ls @ [l]) = None"
proof (induction ls arbitrary: t)
  case Nil
  then show ?case by simp
next
  case (Cons x xs)
  show ?case
  proof (cases "kid x t")
    case None
    have "alookup new (xs @ [l]) = None" using assms by (cases xs) (simp_all add: kid_def)
    with None show ?thesis by (simp add: kid_ainsert)
  next
    case (Some u)
    with Cons show ?thesis by (simp add: kid_ainsert)
  qed
qed

section \<open>The levels of a path\<close>

lemma levels_Nil [simp]: "levels [] = []"
  by (simp add: levels.simps [of "[]"] strtok_slash_def)

lemma levels_no_slash: "slash \<notin> set b \<Longrightarrow> b \<noteq> [] \<Longrightarrow> levels b = [b]"
proof -
  assume b: "slash \<notin> set b" "b \<noteq> []"
  then have "dropWhile (\<lambda>c. c = slash) b = b" by (cases b) auto
  moreover from b have "takeWhile (\<lambda>c. c \<noteq> slash) b = b" "dropWhile (\<lambda>c. c \<noteq> slash) b = []"
    by (auto simp: takeWhile_eq_all_conv)
  ultimately have "strtok_slash b = Some (b, [])"
    using b(2) unfolding strtok_slash_def Let_def by (simp only: if_False drop_Nil)
  then show ?thesis by (simp add: levels.simps [of b] levels_Nil)
qed

lemma strtok_Some:
  "strtok_slash p = Some (l, r) \<Longrightarrow> dropWhile (\<lambda>c. c = slash) p \<noteq> [] \<and>
     l = takeWhile (\<lambda>c. c \<noteq> slash) (dropWhile (\<lambda>c. c = slash) p) \<and>
     r = drop 1 (dropWhile (\<lambda>c. c \<noteq> slash) (dropWhile (\<lambda>c. c = slash) p))"
  unfolding strtok_slash_def Let_def
  by (metis (no_types, lifting) option.distinct(1) option.inject prod.inject)

lemma strtok_append:
  "strtok_slash (p @ slash # q) =
     (case strtok_slash p of
        None \<Rightarrow> strtok_slash q
      | Some (l, r) \<Rightarrow>
          Some (l, if slash \<in> set (dropWhile (\<lambda>c. c = slash) p) then r @ slash # q else q))"
proof (cases "strtok_slash p")
  case None
  then have "\<forall>c\<in>set p. c = slash" by (auto simp: strtok_slash_def Let_def dropWhile_eq_Nil_conv split: if_splits)
  then have "dropWhile (\<lambda>c. c = slash) (p @ slash # q) = dropWhile (\<lambda>c. c = slash) q"
    by (induction p) auto
  with None show ?thesis by (simp add: strtok_slash_def)
next
  case (Some lr)
  let ?t = "dropWhile (\<lambda>c. c = slash) p"
  from Some have t: "?t \<noteq> []" by (auto simp: strtok_slash_def Let_def split: if_splits)
  then have d: "dropWhile (\<lambda>c. c = slash) (p @ slash # q) = ?t @ slash # q"
    by (induction p) auto
  have "takeWhile (\<lambda>c. c \<noteq> slash) (u @ slash # q) = takeWhile (\<lambda>c. c \<noteq> slash) u" for u
    by (induction u) auto
  moreover have "dropWhile (\<lambda>c. c \<noteq> slash) (u @ slash # q) =
      (if slash \<in> set u then dropWhile (\<lambda>c. c \<noteq> slash) u @ slash # q else slash # q)" for u
    by (induction u) auto
  moreover have "slash \<in> set u \<Longrightarrow> drop 1 (dropWhile (\<lambda>c. c \<noteq> slash) u @ v) =
      drop 1 (dropWhile (\<lambda>c. c \<noteq> slash) u) @ v" for u v
    by (induction u) auto
  moreover have "strtok_slash p = Some (takeWhile (\<lambda>c. c \<noteq> slash) ?t,
      drop 1 (dropWhile (\<lambda>c. c \<noteq> slash) ?t))"
    using t by (simp only: strtok_slash_def Let_def if_False)
  moreover have "strtok_slash (p @ slash # q) = Some (takeWhile (\<lambda>c. c \<noteq> slash) (?t @ slash # q),
      drop 1 (dropWhile (\<lambda>c. c \<noteq> slash) (?t @ slash # q)))"
    unfolding strtok_slash_def Let_def d by simp
  ultimately show ?thesis
    by (cases "slash \<in> set ?t") (simp_all only: option.case prod.case if_True if_False
        drop_0 One_nat_def drop_Suc_Cons)
qed

lemma levels_append: "levels (p @ slash # q) = levels p @ levels q"
proof (induction p rule: levels.induct)
  case (1 p)
  note unf = levels.simps [of "p @ slash # q"]
  show ?case
  proof (cases "strtok_slash p")
    case None
    then have "levels p = []" by (simp add: levels_Nil_iff)
    with None show ?thesis by (simp add: unf strtok_append levels.simps [of q])
  next
    case (Some lr)
    obtain l r where lr: "lr = (l, r)" by (cases lr)
    have p: "levels p = l # levels r" using Some lr by (simp add: levels.simps [of p])
    have IH: "levels (r @ slash # q) = levels r @ levels q" using 1 Some lr by simp
    show ?thesis
    proof (cases "slash \<in> set (dropWhile (\<lambda>c. c = slash) p)")
      case True
      with Some lr p IH show ?thesis by (simp add: unf strtok_append)
    next
      case False
      then have "dropWhile (\<lambda>c. c \<noteq> slash) (dropWhile (\<lambda>c. c = slash) p) = []"
        by (auto simp: dropWhile_eq_Nil_conv)
      moreover have "r = drop 1 (dropWhile (\<lambda>c. c \<noteq> slash) (dropWhile (\<lambda>c. c = slash) p))"
        using Some lr strtok_Some by blast
      ultimately have "r = []" by (simp only: drop_Nil)
      with False Some lr p show ?thesis by (simp add: unf strtok_append)
    qed
  qed
qed

lemma after_last_slash_base: "slash \<notin> set b \<Longrightarrow> after_last_slash (p @ slash # b) = Some b"
proof -
  assume b: "slash \<notin> set b"
  have "takeWhile (\<lambda>c. c \<noteq> slash) (u @ slash # v) = u" if "slash \<notin> set u" for u v
    using that by (induction u) auto
  with b have "takeWhile (\<lambda>c. c \<noteq> slash) (rev b @ slash # rev p) = rev b" by simp
  then show ?thesis by (simp add: after_last_slash_def)
qed

text \<open>A proper path: the path of the parent, a \<open>/\<close>, and a non-empty name.\<close>

definition path_of :: "bytes \<Rightarrow> bytes \<Rightarrow> bytes" where
  "path_of parent base = parent @ slash # base"

definition base_name :: "bytes \<Rightarrow> bool" where
  "base_name b \<longleftrightarrow> b \<noteq> [] \<and> slash \<notin> set b"

lemma levels_path_of: "base_name b \<Longrightarrow> levels (path_of p b) = levels p @ [b]"
  by (simp add: path_of_def base_name_def levels_append levels_no_slash)

lemma levels_top: "base_name b \<Longrightarrow> levels (slash # b) = [b]"
  using levels_path_of [of b "[]"] by (simp add: path_of_def)

section \<open>The file server of a node\<close>

text \<open>\<open>n->fileserv = info\<close>.\<close>

definition set_fileserv :: "heap \<Rightarrow> nat \<Rightarrow> nat option \<Rightarrow> heap" where
  "set_fileserv h n i = h[n := (h ! n)\<lparr>nd_fileserv := i\<rparr>]"

fun aserve :: "nat \<Rightarrow> nat option \<Rightarrow> atree list \<Rightarrow> atree list" where
  "aserve p i [] = []"
| "aserve p i (ANode a nm fs ks # ts) =
     ANode a nm (if a = p then i else fs) (aserve p i ks) # aserve p i ts"

lemma addrs_aserve [simp]: "addrs (aserve p i ts) = addrs ts"
  by (induction ts rule: addrs.induct) auto

lemma chain_aserve: "chain h s ts \<Longrightarrow> chain (set_fileserv h p i) s (aserve p i ts)"
  by (induction h s ts rule: chain.induct) (auto simp: set_fileserv_def nth_list_update)

lemma find_aserve:
  "List.find (\<lambda>k. aname k = l) (aserve p i ks) =
     map_option (\<lambda>k. hd (aserve p i [k])) (List.find (\<lambda>k. aname k = l) ks)"
  by (induction ks rule: addrs.induct) auto

lemma alookup_aserve:
  "alookup (hd (aserve p i [t])) ls = map_option (\<lambda>k. hd (aserve p i [k])) (alookup t ls)"
proof (induction ls arbitrary: t)
  case Nil
  then show ?case by simp
next
  case (Cons l ls)
  then show ?case
    by (cases t) (auto simp: kid_def find_aserve split: option.splits)
qed

lemma aaddr_aserve [simp]: "aaddr (hd (aserve p i [t])) = aaddr t"
  by (cases t) simp

lemma represents_aserve:
  assumes "represents h t"
  shows "represents (set_fileserv h p i) (hd (aserve p i [t]))"
proof -
  have "chain (set_fileserv h p i) (Some dirroot) (aserve p i [t])"
    using assms by (intro chain_aserve) (simp add: represents_def)
  moreover have "[hd (aserve p i [t])] = aserve p i [t]" by (cases t) simp
  ultimately show ?thesis
    using assms addrs_aserve [of p i "[t]"] by (simp add: represents_def del: addrs_aserve)
qed

section \<open>The directory as an interface\<close>

text \<open>
  What the file operations of the server rely on: lookup always answers, adding a path keeps what
  was found before, and a path added below an existing parent is found as the new node from then
  on. Recording a file server changes no lookup.
\<close>

locale directory =
  fixes ok :: "'h \<Rightarrow> bool"
    and find :: "'h \<Rightarrow> bytes \<Rightarrow> nat option res"
    and add :: "'h \<Rightarrow> bytes \<Rightarrow> (nat \<times> 'h) res"
    and assign :: "'h \<Rightarrow> nat \<Rightarrow> nat option \<Rightarrow> 'h"
  assumes find_total: "ok h \<Longrightarrow> \<exists>r. find h p = Inr r"
    and add_total: "ok h \<Longrightarrow> slash \<in> set p \<Longrightarrow> \<exists>n h'. add h p = Inr (n, h') \<and> ok h'"
    and add_faults: "slash \<notin> set p \<Longrightarrow> \<exists>e. add h p = Inl e"
    and add_keeps: "ok h \<Longrightarrow> add h p = Inr (n, h') \<Longrightarrow> find h q = Inr (Some m) \<Longrightarrow>
      find h' q = Inr (Some m)"
    and add_finds: "ok h \<Longrightarrow> base_name b \<Longrightarrow> find h p \<noteq> Inr None \<Longrightarrow>
      find h (path_of p b) = Inr None \<Longrightarrow> add h (path_of p b) = Inr (n, h') \<Longrightarrow>
      find h' (path_of p b) = Inr (Some n)"
    and assign_ok: "ok h \<Longrightarrow> ok (assign h n i)"
    and assign_find: "ok h \<Longrightarrow> find (assign h n i) p = find h p"
begin

lemma add_ok: "ok h \<Longrightarrow> add h p = Inr (n, h') \<Longrightarrow> ok h'"
  using add_total [of h p] add_faults [of p h] by (cases "slash \<in> set p") auto

lemma find_cases:
  assumes "ok h"
  obtains "find h p = Inr None" | n where "find h p = Inr (Some n)"
  using find_total [OF assms, of p] by (metis not_None_eq)

text \<open>A path that is found stays found, at the same node, whatever is added and assigned.\<close>

lemma found_stays:
  assumes "ok h" and "find h q = Inr (Some m)" and "add h p = Inr (n, h')"
  shows "find (assign h' k i) q = Inr (Some m)"
  using assms add_ok add_keeps assign_find by metis

text \<open>Adding once is enough: afterwards the path is found, so nobody adds it again.\<close>

lemma add_assign_finds:
  assumes "ok h" and "base_name b" and "find h p \<noteq> Inr None" and "find h (path_of p b) = Inr None"
    and "add h (path_of p b) = Inr (n, h')"
  shows "find (assign h' k i) (path_of p b) = Inr (Some n)"
  using assms add_ok add_finds assign_find by metis

end

definition dir_ok :: "heap \<Rightarrow> bool" where
  "dir_ok h \<longleftrightarrow> (\<exists>t. represents h t)"

lemma lookup_Nil_levels: "alookup t (levels p) = None \<Longrightarrow> levels p \<noteq> []"
  by auto

interpretation fstree: directory dir_ok "\<lambda>h p. dir_find_node h p True" add_node set_fileserv
proof (unfold_locales, goal_cases)
  case (1 h p)
  then show ?case by (auto simp: dir_ok_def dir_find_node_tree)
next
  case (2 h p)
  then obtain t where t: "represents h t" by (auto simp: dir_ok_def)
  from 2(2) obtain b where "after_last_slash p = Some b" by (auto simp: after_last_slash_def)
  from add_node_tree [OF t this] show ?case by (auto simp: dir_ok_def)
next
  case (3 p h)
  then show ?case by (simp add: add_node_no_slash)
next
  case (4 h p n h' q m)
  then obtain t where t: "represents h t" by (auto simp: dir_ok_def)
  from 4(2) obtain b where "after_last_slash p = Some b"
    by (auto simp: add_node_def split: option.splits)
  from add_node_tree [OF t this] 4(2)
  have h': "represents h' (ainsert (ANode (length h) b None []) t (levels p))" by auto
  from 4(3) t obtain k where "alookup t (levels q) = Some k" "aaddr k = m"
    by (auto simp: dir_find_node_tree)
  from lookup_keeps [OF this(1)] this(2) show ?case
    by (auto simp: dir_find_node_tree [OF h'])
next
  case (5 h b p n h')
  then obtain t where t: "represents h t" by (auto simp: dir_ok_def)
  have "after_last_slash (path_of p b) = Some b"
    using 5(2) by (simp add: path_of_def base_name_def after_last_slash_base)
  from add_node_tree [OF t this] 5(5)
  have h': "represents h' (ainsert (ANode n b None []) t (levels (path_of p b)))" by auto
  have "alookup (ainsert (ANode n b None []) t (levels p @ [b])) (levels p @ [b]) =
      Some (ANode n b None [])"
    using 5(2-4) t by (intro lookup_new) (auto simp: dir_find_node_tree levels_path_of)
  with 5(2) show ?case by (simp add: dir_find_node_tree [OF h'] levels_path_of)
next
  case (6 h n i)
  then show ?case unfolding dir_ok_def using represents_aserve by blast
next
  case (7 h n i p)
  then obtain t where t: "represents h t" by (auto simp: dir_ok_def)
  show ?case
    by (simp add: dir_find_node_tree(1) [OF t] dir_find_node_tree(1) [OF represents_aserve [OF t]]
        alookup_aserve option.map_comp comp_def)
qed

lemma dir_init_represents: "represents dir_init (ANode dirroot [slash] None [])"
  by (simp add: represents_def dir_init_def dirroot_def new_node_def)

section \<open>Properties\<close>

text \<open>The heaps the server can have: what its operations make of the initial tree.\<close>

inductive reachable_dir :: "heap \<Rightarrow> bool" where
  init: "reachable_dir dir_init"
| add: "reachable_dir h \<Longrightarrow> add_node h p = Inr (n, h') \<Longrightarrow> reachable_dir h'"
| assign: "reachable_dir h \<Longrightarrow> reachable_dir (set_fileserv h n i)"

lemma reachable_ok: "reachable_dir h \<Longrightarrow> dir_ok h"
  by (induction rule: reachable_dir.induct)
    (use dir_init_represents fstree.add_ok fstree.assign_ok in \<open>auto simp: dir_ok_def\<close>)

text \<open>
  C6. Lookup in the pointer structure is lookup in the tree it represents: the exact search gives
  the node at the path or NULL, the inexact one the deepest node on the way. It never runs forever
  and never follows a dangling pointer.
\<close>

theorem dir_find_node_refines:
  assumes "represents h t"
  shows "dir_find_node h path exact =
    Inr (if exact then map_option aaddr (alookup t (levels path))
         else Some (aaddr (adeepest t (levels path))))"
  using dir_find_node_tree [OF assms, of path] by simp

theorem dir_find_node_refines_witness:
  "dir_find_node dir_init (cstr ''/a'') True = Inr None"
  by (subst dir_find_node_refines [OF dir_init_represents])
    (simp add: levels_top base_name_def kid_def)

text \<open>
  C7. \<open>add_node\<close> of a path with a \<open>/\<close> ends and makes the pointer structure represent the tree with
  a new leaf, named by what follows the last \<open>/\<close>, below the deepest node on the path.
\<close>

theorem add_node_refines:
  assumes "represents h t" and "after_last_slash path = Some base"
  shows "\<exists>h'. add_node h path = Inr (length h, h') \<and>
    represents h' (ainsert (ANode (length h) base None []) t (levels path))"
  using add_node_tree [OF assms] by blast

theorem add_node_refines_witness:
  "\<exists>h'. add_node dir_init (cstr ''/a'') = Inr (1, h') \<and>
    represents h' (ANode 0 [slash] None [ANode 1 (cstr ''a'') None []])"
  using add_node_refines [OF dir_init_represents, of "cstr ''/a''" "cstr ''a''"]
  by (simp add: dir_init_def after_last_slash_def levels_top base_name_def dirroot_def)

text \<open>
  C22. In every directory the server can build, lookup of any path ends with an answer, and
  \<open>add_node\<close> ends with a new node exactly when the path has a \<open>/\<close>; without one it works on
  \<open>NULL + 1\<close>.
\<close>

theorem reachable_dir_safe:
  assumes "reachable_dir h"
  shows "(\<exists>r. dir_find_node h path exact = Inr r) \<and>
    (if slash \<in> set path then \<exists>n h'. add_node h path = Inr (n, h')
     else add_node h path = Inl (Fault NullDeref))"
proof
  from reachable_ok [OF assms] obtain t where "represents h t" by (auto simp: dir_ok_def)
  from dir_find_node_tree [OF this] show "\<exists>r. dir_find_node h path exact = Inr r"
    by (cases exact) auto
  show "if slash \<in> set path then \<exists>n h'. add_node h path = Inr (n, h')
     else add_node h path = Inl (Fault NullDeref)"
    using reachable_ok [OF assms] fstree.add_total [of h path] by (auto simp: add_node_no_slash)
qed

theorem reachable_dir_safe_witness:
  "(\<exists>r. dir_find_node dir_init (cstr ''/a/b'') False = Inr r) \<and>
   (\<exists>n h'. add_node dir_init (cstr ''/a/b'') = Inr (n, h'))"
  using reachable_dir_safe [OF reachable_dir.init, of "cstr ''/a/b''" False] by simp

text \<open>
  A path added below a path that is found is found from then on, as the new node, and every
  path that was found before is still found as the same node.
\<close>

theorem add_node_found:
  assumes "reachable_dir h" and "base_name b" and "dir_find_node h p True \<noteq> Inr None"
    and "dir_find_node h (path_of p b) True = Inr None" and "add_node h (path_of p b) = Inr (n, h')"
  shows "dir_find_node h' (path_of p b) True = Inr (Some n) \<and>
    (\<forall>q m. dir_find_node h q True = Inr (Some m) \<longrightarrow> dir_find_node h' q True = Inr (Some m))"
  using fstree.add_finds [OF reachable_ok [OF assms(1)] assms(2-5)]
    fstree.add_keeps [OF reachable_ok [OF assms(1)] assms(5)] by blast

theorem add_node_found_witness:
  "\<exists>h'. add_node dir_init (cstr ''/a'') = Inr (1, h') \<and>
     dir_find_node h' (cstr ''/a'') True = Inr (Some 1)"
proof -
  have b: "base_name (cstr ''a'')" by (simp add: base_name_def)
  have p: "path_of [] (cstr ''a'') = cstr ''/a''" by (simp add: path_of_def)
  have root: "dir_find_node dir_init [] True \<noteq> Inr None" "dir_find_node dir_init (cstr ''/a'') True = Inr None"
    using b by (simp_all add: dir_find_node_tree(1) [OF dir_init_represents] levels_top kid_def base_name_def)
  from add_node_tree [OF dir_init_represents, of "cstr ''/a''" "cstr ''a''"]
  obtain h' where "add_node dir_init (cstr ''/a'') = Inr (1, h')"
    by (auto simp: dir_init_def after_last_slash_def)
  with add_node_found [OF reachable_dir.init b root(1), unfolded p, OF root(2) this]
  show ?thesis by blast
qed

text \<open>
  C21. When the parent does not exist, \<open>add_node\<close> still adds a node, but the path is not found
  afterwards either: the node hangs below the deepest directory there is.
\<close>

theorem add_node_stray:
  assumes "reachable_dir h" and "base_name b" and "dir_find_node h p True = Inr None"
  shows "\<exists>n h'. add_node h (path_of p b) = Inr (n, h') \<and> length h' = Suc (length h) \<and>
    dir_find_node h' (path_of p b) True = Inr None"
proof -
  from reachable_ok [OF assms(1)] obtain t where t: "represents h t" by (auto simp: dir_ok_def)
  have "after_last_slash (path_of p b) = Some b"
    using assms(2) by (simp add: path_of_def base_name_def after_last_slash_base)
  from add_node_tree [OF t this] obtain h' where h': "add_node h (path_of p b) = Inr (length h, h')"
      "length h' = Suc (length h)"
      "represents h' (ainsert (ANode (length h) b None []) t (levels p @ [b]))"
    by (auto simp: levels_path_of [OF assms(2)])
  have "alookup t (levels p) = None" using assms(3) dir_find_node_tree [OF t] by auto
  then have "dir_find_node h' (path_of p b) True = Inr None"
    using dir_find_node_tree [OF h'(3)] lookup_stray [of "ANode (length h) b None []"]
    by (simp add: levels_path_of [OF assms(2)])
  with h' show ?thesis by blast
qed

theorem add_node_stray_witness:
  "\<exists>n h'. add_node dir_init (cstr ''/a/b'') = Inr (n, h') \<and>
     dir_find_node h' (cstr ''/a/b'') True = Inr None"
proof -
  have "dir_find_node dir_init (cstr ''/a'') True = Inr None"
    by (simp add: dir_find_node_tree(1) [OF dir_init_represents] levels_top kid_def base_name_def)
  from add_node_stray [OF reachable_dir.init _ this, of "cstr ''b''"]
  show ?thesis by (auto simp: base_name_def path_of_def)
qed

end
