(* ===== verification/Fsdird.thy ===== *)
theory Fsdird
  imports Dirtree Dcp_Conn
begin

text \<open>
  The directory server (\<^verbatim>\<open>src/src/fsdird.c\<close>): its tables, registration of file servers, and the
  handlers of their requests. A handler runs in the thread of its file server; the model runs a
  handler to its end before another one starts, and keeps the mutex \<open>dirlock\<close> in the state, so that
  a handler that leaves it locked is felt by the next one that locks it. A thread that would wait
  for such a mutex stops with \<open>Deadlock\<close>. Unlocking a mutex that is not locked is undefined in
  POSIX; it is modelled as what the C library does for the default kind, nothing.
\<close>

section \<open>State\<close>

definition MAX_FSERVERS :: nat where "MAX_FSERVERS = 100"

definition dird_fsid :: u64 where "dird_fsid = 1333333337"

record dird =
  dd_heap :: heap
  dd_lock :: bool
  dd_servers :: "fileserv_info list"
  dd_count :: int
  dd_lastsid :: u64
  dd_net :: netw

definition no_server :: fileserv_info where
  "no_server = \<lparr>sv_id = 0, sv_lasttid = 0, sv_sd = 0, sv_name = [], sv_address = [],
     sv_max_capacity = 0, sv_disk_usage = 0, sv_file_count = 0\<rparr>"

text \<open>The state when \<open>main\<close> has initialised it and listens.\<close>

definition dird_start :: "netw \<Rightarrow> dird" where
  "dird_start net = \<lparr>dd_heap = dir_init, dd_lock = False, dd_servers = replicate MAX_FSERVERS no_server,
     dd_count = 0, dd_lastsid = 0, dd_net = net\<rparr>"

definition lock_dir :: "dird \<Rightarrow> dird res" where
  "lock_dir s = (if dd_lock s then Inl Deadlock else Inr (s\<lparr>dd_lock := True\<rparr>))"

definition unlock_dir :: "dird \<Rightarrow> dird" where
  "unlock_dir s = s\<lparr>dd_lock := False\<rparr>"

text \<open>The entry \<open>info\<close> points to, an element of \<open>fileservers\<close>.\<close>

definition server_at :: "dird \<Rightarrow> nat \<Rightarrow> fileserv_info res" where
  "server_at s i =
     (if i < length (dd_servers s) then Inr (dd_servers s ! i) else Inl (Fault OutOfBounds))"

section \<open>Registration\<close>

definition nextsid :: "dird \<Rightarrow> u64 \<times> dird" where
  "nextsid s = (let sid = dd_lastsid s + 1 in (sid, s\<lparr>dd_lastsid := sid\<rparr>))"

text \<open>The loop over the table: the first free entry.\<close>

fun free_server :: "fileserv_info list \<Rightarrow> nat \<Rightarrow> nat option" where
  "free_server [] i = None"
| "free_server (f # fs) i = (if sv_id f = 0 then Some i else free_server fs (Suc i))"

definition register_fsrv :: "int \<Rightarrow> u64 \<Rightarrow> dird \<Rightarrow> int \<times> dird" where
  "register_fsrv fsrvsd sid s =
     (if sid = 0 \<or> dd_count s > int MAX_FSERVERS then (-1, s)
      else case free_server (take MAX_FSERVERS (dd_servers s)) 0 of
        None \<Rightarrow> (-1, s)
      | Some i \<Rightarrow>
          (int i, s\<lparr>dd_servers := (dd_servers s)[i := (dd_servers s ! i)\<lparr>sv_id := sid, sv_sd := fsrvsd\<rparr>],
                    dd_count := dd_count s + 1\<rparr>))"

text \<open>
  One round of \<open>do_dcp_server\<close>, for a connection \<open>fsrvsd\<close> from \<open>addr\<close>. The result is the entry
  for which a serving thread is started, if any; \<open>fsrvcnt\<close> and the entry stay taken when
  \<open>dcp_accept\<close> fails.
\<close>

definition dcp_server_round :: "(nat \<Rightarrow> u8) \<Rightarrow> int \<Rightarrow> bytes \<Rightarrow> dird \<Rightarrow> (nat option \<times> dird) res" where
  "dcp_server_round junk fsrvsd addr s =
     (let (sid, s) = nextsid s; (ret, s) = register_fsrv fsrvsd sid s in
      if ret < 0 then Inr (None, s)
      else
        let i = nat ret in
        rbind (server_at s i) (\<lambda>info.
        let info = info\<lparr>sv_address := addr\<rparr> in
        rbind (dcp_accept junk dird_fsid info (dd_net s)) (\<lambda>(ret, info, net).
        let s = s\<lparr>dd_servers := (dd_servers s)[i := info], dd_net := net\<rparr> in
        Inr (if ret < 0 then None else Some i, s))))"

section \<open>Requests\<close>

definition dird_send :: "int \<Rightarrow> fsmsg \<Rightarrow> dird \<Rightarrow> dird res" where
  "dird_send sd m s = rbind (fsmsg_send sd m DCP (dd_net s)) (\<lambda>(_, net). Inr (s\<lparr>dd_net := net\<rparr>))"

definition dird_error :: "fileserv_info \<Rightarrow> u64 \<Rightarrow> u32 \<Rightarrow> bytes \<Rightarrow> dird \<Rightarrow> dird res" where
  "dird_error info t errorn errstr s =
     rbind (dcp_send_error dird_fsid (sv_sd info) t (sv_id info) errorn errstr (dd_net s)) (\<lambda>net.
     Inr (s\<lparr>dd_net := net\<rparr>))"

text \<open>
  The file info of a name in the answers of \<open>read_dir\<close> and \<open>create_file\<close>: the rest of the union was
  cleared.
\<close>

definition name_info :: "bytes \<Rightarrow> fileinfo_sect" where
  "name_info name = \<lparr>fi_type = 0, fi_pad = 0, fi_pathlen = of_nat (length name), fi_path = name,
     fi_usernamelen = 4, fi_username = cstr ''user'', fi_modified = 0, fi_size = 0, fi_replicas = 0\<rparr>"

text \<open>\<open>SECI(msg, 0)++\<close>.\<close>

definition inc_count :: "fsmsg \<Rightarrow> fsmsg res" where
  "inc_count m =
     rbind (SECI m 0) (\<lambda>n.
     if sint n = INT_MAX then Inl (Fault IntOverflow)
     else Inr (m\<lparr>sections := (sections m)[0 := (sections m ! 0)\<lparr>sec_data := DInteger (n + 1)\<rparr>]\<rparr>))"

text \<open>The loop over the children in \<open>read_dir\<close>, on fuel as in \<open>find_child\<close>.\<close>

fun list_children :: "nat \<Rightarrow> heap \<Rightarrow> nat option \<Rightarrow> fsmsg \<Rightarrow> fsmsg res" where
  "list_children 0 h n m = Inl Diverge"
| "list_children (Suc k) h None m = Inr m"
| "list_children (Suc k) h (Some a) m =
     rbind (node_at h a) (\<lambda>nd.
     rbind (inc_count m) (\<lambda>m.
     rbind (fsmsg_add_section m ST_FILEINFO (DFileinfo (name_info (nd_name nd)))) (\<lambda>m.
     list_children k h (nd_next nd) m)))"

definition read_dir :: "nat \<Rightarrow> u32 \<Rightarrow> bytes \<Rightarrow> dird \<Rightarrow> dird res" where
  "read_dir i recurse path s =
     rbind (server_at s i) (\<lambda>info.
     rbind (fsmsg_add_section (dcp_create_msg (sv_lasttid info) (sv_id info) dird_fsid DCP_FILEINFO)
              ST_INTEGER (DInteger 0)) (\<lambda>m.
     rbind (lock_dir s) (\<lambda>s.
     rbind (dir_find_node (dd_heap s) path True) (\<lambda>n.
     case n of
       None \<Rightarrow> Inl (Fault NullDeref)
     | Some a \<Rightarrow>
         rbind (node_at (dd_heap s) a) (\<lambda>nd.
         rbind (list_children (Suc (length (dd_heap s))) (dd_heap s) (nd_children nd) m) (\<lambda>m.
         let s = unlock_dir s in
         rbind (fsmsg_add_section m ST_NONEXT DUninit) (\<lambda>m.
         dird_send (sv_sd info) m s)))))))"

definition created_msg :: "fileserv_info \<Rightarrow> bytes \<Rightarrow> fsmsg res" where
  "created_msg info name =
     rbind (fsmsg_add_section (dcp_create_msg (sv_lasttid info) (sv_id info) dird_fsid DCP_FILEINFO)
              ST_INTEGER (DInteger 1)) (\<lambda>m.
     rbind (fsmsg_add_section m ST_FILEINFO (DFileinfo (name_info name))) (\<lambda>m.
     fsmsg_add_section m ST_NONEXT DUninit))"

text \<open>On the path of an existing file the function returns without unlocking.\<close>

definition create_file :: "nat \<Rightarrow> fileinfo_sect \<Rightarrow> dird \<Rightarrow> dird res" where
  "create_file i fi s =
     rbind (server_at s i) (\<lambda>info.
     rbind (strndup (fi_path fi) (fi_pathlen fi)) (\<lambda>path.
     rbind (lock_dir s) (\<lambda>s.
     rbind (dir_find_node (dd_heap s) path True) (\<lambda>n.
     case n of
       Some _ \<Rightarrow> dird_error info (sv_lasttid info) ERR_EXISTS (cstr ''file already exists'') s
     | None \<Rightarrow>
         rbind (add_node (dd_heap s) path) (\<lambda>(n, h).
         let h = set_fileserv h n (Some i); s = s\<lparr>dd_heap := h\<rparr> in
         rbind (node_at h n) (\<lambda>nd.
         rbind (created_msg info (nd_name nd)) (\<lambda>m.
         dird_send (sv_sd info) m (unlock_dir s))))))))"

definition update_file :: "nat \<Rightarrow> bytes \<Rightarrow> dird \<Rightarrow> dird res" where
  "update_file i path s =
     rbind (server_at s i) (\<lambda>info.
     let s = unlock_dir s in
     rbind (dir_find_node (dd_heap s) path True) (\<lambda>n.
     case n of
       None \<Rightarrow>
         rbind (dird_error info (sv_lasttid info) ERR_FILENOTFOUND (cstr ''file doesn't exist'') s) (\<lambda>s.
         Inr (unlock_dir s))
     | Some a \<Rightarrow>
         let h = set_fileserv (dd_heap s) a (Some i) in
         rbind (node_at h a) (\<lambda>nd.
         let s = unlock_dir (s\<lparr>dd_heap := h\<rparr>) in
         rbind (dcp_send_fileinfo dird_fsid info (fileinfo_from_node nd) (dd_net s)) (\<lambda>(_, net).
         Inr (s\<lparr>dd_net := net\<rparr>)))))"

definition replica_status :: "nat \<Rightarrow> bytes \<Rightarrow> dird \<Rightarrow> dird res" where
  "replica_status i path s =
     rbind (server_at s i) (\<lambda>info.
     rbind (lock_dir s) (\<lambda>s.
     rbind (dir_find_node (dd_heap s) path True) (\<lambda>n.
     rbind (case n of
         None \<Rightarrow> dird_error info (sv_lasttid info) ERR_FILENOTFOUND (cstr ''file doesn't exist'') s
       | Some a \<Rightarrow>
           rbind (node_at (dd_heap s) a) (\<lambda>nd.
           case nd_fileserv nd of
             None \<Rightarrow> dird_error info (sv_lasttid info) ERR_FILENOTFOUND (cstr ''file doesn't exist'') s
           | Some j \<Rightarrow>
               rbind (server_at s j) (\<lambda>srv.
               rbind (dcp_send_replica_list dird_fsid info (sv_address srv) (dd_net s)) (\<lambda>(_, net).
               Inr (s\<lparr>dd_net := net\<rparr>))))) (\<lambda>s.
     Inr (unlock_dir s)))))"

text \<open>The handling of one valid message.\<close>

definition dird_dispatch :: "nat \<Rightarrow> fsmsg \<Rightarrow> dird \<Rightarrow> dird res" where
  "dird_dispatch i msg s =
     (let ty = msg_type msg in
      if ty = DCP_READ then
        rbind (SECI msg 0) (\<lambda>r. rbind (SECSDUP msg 1) (\<lambda>path. read_dir i r path s))
      else if ty = DCP_CREATE then rbind (SECF msg 0) (\<lambda>fi. create_file i fi s)
      else if ty = DCP_UPDATE then rbind (SECSDUP msg 0) (\<lambda>path. update_file i path s)
      else if ty = DCP_GET_REPLICAS then rbind (SECSDUP msg 0) (\<lambda>path. replica_status i path s)
      else Inr s)"

text \<open>
  One round of the loop of \<open>serve_fileserver\<close>; the result is false when the loop ends.
\<close>

definition serve_fileserver_round :: "(nat \<Rightarrow> u8) \<Rightarrow> nat \<Rightarrow> dird \<Rightarrow> (bool \<times> dird) res" where
  "serve_fileserver_round junk i s =
     rbind (server_at s i) (\<lambda>info.
     let (msg, net) = recv_msg junk (sv_sd info) DCP (dd_net s); s = s\<lparr>dd_net := net\<rparr> in
     case msg of
       None \<Rightarrow> Inr (False, s)
     | Some m \<Rightarrow>
         rbind (dcp_validate_sections m) (\<lambda>ret.
         if ret < 0 then
           rbind (dird_error info (tid m) ERR_MSG (cstr ''section validation error'') s) (\<lambda>s.
           Inr (True, s))
         else
           let s = s\<lparr>dd_servers := (dd_servers s)[i := info\<lparr>sv_lasttid := tid m\<rparr>]\<rparr> in
           rbind (dird_dispatch i m s) (\<lambda>s. Inr (True, s))))"

section \<open>Listing a directory\<close>

lemma name_info_ok [simp]: "short n \<Longrightarrow> fileinfo_ok (name_info n)"
  by (simp add: fileinfo_ok_def name_info_def unat_of_nat)

lemma name_info_receivable: "short n \<Longrightarrow> n \<noteq> [] \<Longrightarrow> fi_receivable (name_info n)"
  by (simp add: fi_receivable_def) (simp add: name_info_def)

lemma sint_of_nat: "n < 2 ^ 31 \<Longrightarrow> sint (of_nat n :: u32) = int n"
  by (subst sint_small) (simp_all add: unat_of_nat)

lemma inc_count_int:
  assumes "sections m = int_sec (of_nat n) # ss" and "Suc n < 2 ^ 31"
  shows "inc_count m = Inr (m\<lparr>sections := int_sec (of_nat (Suc n)) # ss\<rparr>)"
proof -
  have "sint (of_nat n :: u32) \<noteq> INT_MAX" using assms(2) by (simp add: sint_of_nat)
  with assms(1) show ?thesis by (simp add: inc_count_def int_sec_def add.commute)
qed

lemma list_children_chain:
  "chain h a ts \<Longrightarrow> length ts < k \<Longrightarrow> sections m = int_sec (of_nat n) # ss \<Longrightarrow>
   n + length ts < 2 ^ 31 \<Longrightarrow> \<forall>t\<in>set ts. short (aname t) \<Longrightarrow>
     list_children k h a m =
       Inr (m\<lparr>sections := int_sec (of_nat (n + length ts)) # ss @ map (\<lambda>t. fi_sec (name_info (aname t))) ts\<rparr>)"
proof (induction k arbitrary: a ts m n ss)
  case 0
  then show ?case by simp
next
  case (Suc k)
  show ?case
  proof (cases ts)
    case Nil
    with Suc.prems show ?thesis by simp
  next
    case (Cons t us)
    obtain b nm fs ks where t: "t = ANode b nm fs ks" by (cases t)
    let ?m = "m\<lparr>sections := int_sec (of_nat (Suc n)) # ss @ [fi_sec (name_info nm)]\<rparr>"
    have "list_children k h (nd_next (h ! b)) ?m =
        Inr (?m\<lparr>sections := int_sec (of_nat (Suc n + length us)) # (ss @ [fi_sec (name_info nm)]) @
          map (\<lambda>t. fi_sec (name_info (aname t))) us\<rparr>)"
      using Suc.prems Cons t by (intro Suc.IH) auto
    moreover have "inc_count m = Inr (m\<lparr>sections := int_sec (of_nat (Suc n)) # ss\<rparr>)"
      using Suc.prems Cons by (intro inc_count_int) auto
    ultimately show ?thesis using Suc.prems Cons t by (simp add: node_at_def)
  qed
qed

text \<open>The state after a message was sent on a descriptor.\<close>

definition dird_sent :: "int \<Rightarrow> bytes \<Rightarrow> dird \<Rightarrow> dird" where
  "dird_sent sd b s = s\<lparr>dd_net := sent sd b (dd_net s)\<rparr>"

text \<open>The message with the listing of a node.\<close>

definition listing :: "fileserv_info \<Rightarrow> atree \<Rightarrow> fsmsg" where
  "listing info k = dcp_msg (sv_lasttid info) (sv_id info) dird_fsid
     (DFileinfos (of_nat (length (akids k))) (map (\<lambda>t. name_info (aname t)) (akids k)))"

text \<open>What a directory must be like for its listing to fit a message.\<close>

definition listable :: "fileserv_info \<Rightarrow> atree \<Rightarrow> bool" where
  "listable info k \<longleftrightarrow> length (akids k) < 2 ^ 31 \<and>
     (\<forall>t\<in>set (akids k). short (aname t) \<and> aname t \<noteq> []) \<and>
     int (length (wire DCP (listing info k))) \<le> MSG_MAX"

lemma complete_listing: "listable info k \<Longrightarrow> complete_msg DCP (listing info k)"
  unfolding listable_def listing_def complete_dcp_msg
  by (auto simp: list_all_iff name_info_receivable)

lemma read_dir_lists:
  assumes "represents (dd_heap s) t" and "alookup t (levels path) = Some k" and "\<not> dd_lock s"
    and "i < length (dd_servers s)" and "info = dd_servers s ! i" and "listable info k"
    and "out_ok (dd_net s) (sv_sd info)"
  shows "read_dir i r path s = Inr (dird_sent (sv_sd info) (wire DCP (listing info k)) s)"
proof -
  let ?h = "dd_heap s"
  have f: "dir_find_node ?h path True = Inr (Some (aaddr k))"
    using dir_find_node_tree(1) [OF assms(1)] assms(2) by simp
  have "at_node ?h k" by (rule lookup_at_node [OF assms(1,2)])
  then have k: "node_at ?h (aaddr k) = Inr (?h ! aaddr k)"
      "chain ?h (nd_children (?h ! aaddr k)) (akids k)" "length (akids k) < Suc (length ?h)"
    by (auto simp: at_node_def node_at_def)
  let ?m = "(dcp_create_msg (sv_lasttid info) (sv_id info) dird_fsid DCP_FILEINFO)\<lparr>sections := [int_sec 0]\<rparr>"
  have l: "list_children (Suc (length ?h)) ?h (nd_children (?h ! aaddr k)) ?m =
      Inr (?m\<lparr>sections := int_sec (of_nat (0 + length (akids k))) # [] @
        map (\<lambda>t. fi_sec (name_info (aname t))) (akids k)\<rparr>)"
    using assms(6) by (intro list_children_chain [OF k(2,3)]) (auto simp: listable_def)
  have "fsmsg_send (sv_sd info) (listing info k) DCP (dd_net s) =
      Inr (int (length (wire DCP (listing info k))), sent (sv_sd info) (wire DCP (listing info k)) (dd_net s))"
    by (rule send_complete [OF complete_listing [OF assms(6)] assms(7)])
  then show ?thesis
    using assms(3-5) f k(1) l
    by (simp add: read_dir_def server_at_def lock_dir_def unlock_dir_def dird_send_def dird_sent_def
        listing_def dcp_msg_def comp_def del: list_children.simps)
qed

section \<open>Creating a file\<close>

text \<open>The error messages of the server are complete.\<close>

definition error_msg :: "fileserv_info \<Rightarrow> u64 \<Rightarrow> u32 \<Rightarrow> bytes \<Rightarrow> fsmsg" where
  "error_msg info t e str =
     (dcp_create_msg t (sv_id info) dird_fsid DCP_ERROR)\<lparr>sections := [int_sec e, str_sec str, end_sec]\<rparr>"

lemma complete_error: "length str \<le> 1000 \<Longrightarrow> complete_msg DCP (error_msg info t e str)"
  using length_wire [of DCP "error_msg info t e str"]
  by (auto simp: complete_msg_def error_msg_def msg_ok_def MSG_MAX_def)

lemma dird_error_sent:
  "length str \<le> 1000 \<Longrightarrow> out_ok (dd_net s) (sv_sd info) \<Longrightarrow>
     dird_error info t e str s = Inr (dird_sent (sv_sd info) (wire DCP (error_msg info t e str)) s)"
  using send_complete [OF complete_error]
  by (simp add: dird_error_def dcp_send_error_def dcp_error_msg_def error_msg_def dird_sent_def)

definition created :: "fileserv_info \<Rightarrow> bytes \<Rightarrow> fsmsg" where
  "created info name =
     dcp_msg (sv_lasttid info) (sv_id info) dird_fsid (DFileinfos 1 [name_info name])"

lemma created_msg_eq: "short name \<Longrightarrow> created_msg info name = Inr (created info name)"
  by (simp add: created_msg_def created_def dcp_msg_def)

lemma complete_created:
  "name \<noteq> [] \<Longrightarrow> length name < 2 ^ 29 \<Longrightarrow> complete_msg DCP (created info name)"
  unfolding created_def complete_dcp_msg
  by (simp add: length_wire_dcp name_info_receivable MSG_MAX_def) (simp add: name_info_def)

lemma create_file_new:
  assumes "dir_ok (dd_heap s)" and "\<not> dd_lock s" and "i < length (dd_servers s)"
    and "info = dd_servers s ! i" and "out_ok (dd_net s) (sv_sd info)"
    and "strndup (fi_path fi) (fi_pathlen fi) = Inr (path_of p b)" and "base_name b"
    and "length b < 2 ^ 29" and "dir_find_node (dd_heap s) (path_of p b) True = Inr None"
  obtains n h where "add_node (dd_heap s) (path_of p b) = Inr (n, h)"
    "create_file i fi s = Inr (dird_sent (sv_sd info) (wire DCP (created info b))
       (s\<lparr>dd_heap := set_fileserv h n (Some i)\<rparr>))"
proof -
  have "slash \<in> set (path_of p b)" by (simp add: path_of_def)
  from fstree.add_total [OF assms(1) this] obtain n h where
    h: "add_node (dd_heap s) (path_of p b) = Inr (n, h)" by auto
  note nodes = add_node_nodes [OF h]
  have b: "after_last_slash (path_of p b) = Some b" "b \<noteq> []"
    using assms(7) by (simp_all add: path_of_def base_name_def after_last_slash_base)
  have at: "node_at (set_fileserv h n (Some i)) n = Inr ((h ! n)\<lparr>nd_fileserv := Some i\<rparr>)"
    using nodes(1,2) by (simp add: node_at_def set_fileserv_def)
  have name: "nd_name (h ! n) = b" using nodes(3) b(1) by simp
  have "fsmsg_send (sv_sd info) (created info b) DCP (dd_net s) =
      Inr (int (length (wire DCP (created info b))), sent (sv_sd info) (wire DCP (created info b)) (dd_net s))"
    by (rule send_complete [OF complete_created [OF b(2) assms(8)] assms(5)])
  then have "create_file i fi s = Inr (dird_sent (sv_sd info) (wire DCP (created info b))
       (s\<lparr>dd_heap := set_fileserv h n (Some i)\<rparr>))"
    using assms(2-4,6,8,9) h at name
    by (simp add: create_file_def server_at_def lock_dir_def unlock_dir_def created_msg_eq
        dird_send_def dird_sent_def)
  with h show thesis by (rule that)
qed

lemma create_file_exists:
  assumes "dir_find_node (dd_heap s) path True = Inr (Some n)" and "\<not> dd_lock s"
    and "i < length (dd_servers s)" and "info = dd_servers s ! i" and "out_ok (dd_net s) (sv_sd info)"
    and "strndup (fi_path fi) (fi_pathlen fi) = Inr path"
  shows "create_file i fi s = Inr (dird_sent (sv_sd info)
    (wire DCP (error_msg info (sv_lasttid info) ERR_EXISTS (cstr ''file already exists'')))
    (s\<lparr>dd_lock := True\<rparr>))"
  using assms by (simp add: create_file_def server_at_def lock_dir_def dird_error_sent)

text \<open>Every handler but \<open>update_file\<close> waits for the mutex.\<close>

lemma locked_handlers:
  assumes "dd_lock s" and "i < length (dd_servers s)"
  shows "read_dir i r path s = Inl Deadlock" and "replica_status i path s = Inl Deadlock"
    and "strndup (fi_path fi) (fi_pathlen fi) = Inr path \<Longrightarrow> create_file i fi s = Inl Deadlock"
  using assms
  by (simp_all add: read_dir_def replica_status_def create_file_def server_at_def lock_dir_def)

section \<open>Properties of the requests\<close>

lemma dird_start_simps [simp]:
  "dd_heap (dird_start net) = dir_init" "\<not> dd_lock (dird_start net)"
  "dd_servers (dird_start net) = replicate 100 no_server" "dd_net (dird_start net) = net"
  "dd_count (dird_start net) = 0" "dd_lastsid (dird_start net) = 0"
  by (simp_all add: dird_start_def MAX_FSERVERS_def)

text \<open>
  C12. A request for the contents of a directory (recursion level 1) is answered with exactly the
  names of the children in the abstract tree, in order and counted, in one complete message, and the
  mutex is released. The level is ignored: every other level gets the same answer, although the
  protocol document promises only the item itself for level 0 and deeper levels for 2 and more.
\<close>

theorem read_dir_listing:
  assumes "represents (dd_heap s) t" and "alookup t (levels path) = Some k" and "\<not> dd_lock s"
    and "i < length (dd_servers s)" and "info = dd_servers s ! i" and "listable info k"
    and "out_ok (dd_net s) (sv_sd info)"
  shows "read_dir i 1 path s = Inr (dird_sent (sv_sd info) (wire DCP (listing info k)) s) \<and>
    complete_msg DCP (listing info k) \<and> (\<forall>r. read_dir i r path s = read_dir i 1 path s)"
  using read_dir_lists [OF assms] complete_listing [OF assms(6)] by simp

theorem read_dir_listing_witness:
  "\<exists>s'. read_dir 3 1 (cstr ''/'') (dird_start idle_net) = Inr s' \<and>
     outq (dd_net s') 0 = wire DCP (dcp_msg 0 0 dird_fsid (DFileinfos 0 []))"
proof -
  have "levels (cstr ''/'') = []" by (simp add: levels.simps strtok_slash_def)
  then have "alookup (ANode dirroot [slash] None []) (levels (cstr ''/'')) = Some (ANode dirroot [slash] None [])"
    by simp
  from read_dir_listing [of "dird_start idle_net", OF _ this, of 3 no_server] dir_init_represents
  show ?thesis
    by (auto simp: listable_def listing_def no_server_def length_wire_dcp MSG_MAX_def dird_sent_def)
qed

text \<open>
  C25. A listing request for a path that does not exist dereferences NULL and ends the directory
  server.
\<close>

theorem read_dir_missing:
  assumes "dir_find_node (dd_heap s) path True = Inr None" and "\<not> dd_lock s"
    and "i < length (dd_servers s)"
  shows "read_dir i r path s = Inl (Fault NullDeref)"
  using assms by (simp add: read_dir_def server_at_def lock_dir_def)

theorem read_dir_missing_witness:
  "read_dir 0 1 (cstr ''/a'') (dird_start idle_net) = Inl (Fault NullDeref)"
proof (rule read_dir_missing)
  show "dir_find_node (dd_heap (dird_start idle_net)) (cstr ''/a'') True = Inr None"
    by (simp add: dir_find_node_tree(1) [OF dir_init_represents] levels_top kid_def base_name_def)
qed simp_all

text \<open>
  C10. Creating a file below an existing directory answers with the file's name, records the asking
  server as its holder, and frees the mutex; the new path is found from then on and no path that
  was found before changes its node.
\<close>

theorem create_file_creates:
  assumes "dir_ok (dd_heap s)" and "\<not> dd_lock s" and "i < length (dd_servers s)"
    and "info = dd_servers s ! i" and "out_ok (dd_net s) (sv_sd info)"
    and "strndup (fi_path fi) (fi_pathlen fi) = Inr (path_of p b)" and "base_name b"
    and "length b < 2 ^ 29" and "dir_find_node (dd_heap s) p True \<noteq> Inr None"
    and "dir_find_node (dd_heap s) (path_of p b) True = Inr None"
  shows "\<exists>s' n. create_file i fi s = Inr s' \<and> \<not> dd_lock s' \<and>
    dd_net s' = sent (sv_sd info) (wire DCP (created info b)) (dd_net s) \<and>
    dir_find_node (dd_heap s') (path_of p b) True = Inr (Some n) \<and>
    nd_fileserv (dd_heap s' ! n) = Some i \<and>
    (\<forall>q m. dir_find_node (dd_heap s) q True = Inr (Some m) \<longrightarrow>
           dir_find_node (dd_heap s') q True = Inr (Some m))"
proof -
  from create_file_new [OF assms(1-8,10)] obtain n h where
    h: "add_node (dd_heap s) (path_of p b) = Inr (n, h)" and
    c: "create_file i fi s = Inr (dird_sent (sv_sd info) (wire DCP (created info b))
       (s\<lparr>dd_heap := set_fileserv h n (Some i)\<rparr>))" .
  have "nd_fileserv (set_fileserv h n (Some i) ! n) = Some i"
    using add_node_nodes(1,2) [OF h] by (simp add: set_fileserv_def)
  with c assms(2) fstree.add_assign_finds [OF assms(1,7,9,10) h] fstree.found_stays [OF assms(1) _ h]
  show ?thesis by (auto simp: dird_sent_def)
qed

theorem create_file_creates_witness:
  "\<exists>s' n. create_file 2 (name_info (cstr ''/a'')) (dird_start idle_net) = Inr s' \<and>
     dir_find_node (dd_heap s') (cstr ''/a'') True = Inr (Some n) \<and>
     nd_fileserv (dd_heap s' ! n) = Some 2"
proof -
  have p: "strndup (fi_path (name_info (cstr ''/a''))) (fi_pathlen (name_info (cstr ''/a''))) =
      Inr (path_of [] (cstr ''a''))"
    by (simp add: name_info_def strndup_def path_of_def)
  have f: "dir_find_node dir_init [] True \<noteq> Inr None"
      "dir_find_node dir_init (path_of [] (cstr ''a'')) True = Inr None"
    by (simp_all add: dir_find_node_tree(1) [OF dir_init_represents] levels_top kid_def
        base_name_def path_of_def)
  from create_file_creates [of "dird_start idle_net" 2 no_server, OF _ _ _ _ _ p] f
    dir_init_represents
  show ?thesis by (fastforce simp: base_name_def dir_ok_def path_of_def)
qed

text \<open>
  C11. Creating a file that exists answers with an error and leaves the mutex locked: from then on
  every listing, creation and replica request, of any file server, waits, and none of them ever
  unlocks it (only an update request, which unlocks without having locked, would).
\<close>

theorem create_existing_blocks:
  assumes "dir_find_node (dd_heap s) path True = Inr (Some n)" and "\<not> dd_lock s"
    and "i < length (dd_servers s)" and "out_ok (dd_net s) (sv_sd (dd_servers s ! i))"
    and "strndup (fi_path fi) (fi_pathlen fi) = Inr path"
  shows "\<exists>s'. create_file i fi s = Inr s' \<and> dd_heap s' = dd_heap s \<and>
    (\<forall>j r q fj. j < length (dd_servers s') \<longrightarrow>
       read_dir j r q s' = Inl Deadlock \<and> replica_status j q s' = Inl Deadlock \<and>
       (strndup (fi_path fj) (fi_pathlen fj) = Inr q \<longrightarrow> create_file j fj s' = Inl Deadlock))"
  using create_file_exists [OF assms(1-3) refl assms(4,5)] locked_handlers
  by (simp add: dird_sent_def)

theorem create_existing_blocks_witness:
  "\<exists>s'. create_file 0 (name_info (cstr ''/'')) (dird_start idle_net) = Inr s' \<and>
     read_dir 1 0 (cstr ''/'') s' = Inl Deadlock"
proof -
  have "levels (cstr ''/'') = []" by (simp add: levels.simps strtok_slash_def)
  then have "dir_find_node dir_init (cstr ''/'') True = Inr (Some dirroot)"
    by (simp add: dir_find_node_tree(1) [OF dir_init_represents])
  moreover have "strndup (fi_path (name_info (cstr ''/''))) (fi_pathlen (name_info (cstr ''/''))) = Inr (cstr ''/'')"
    by (simp add: name_info_def strndup_def)
  moreover have "dd_servers s' = replicate 100 no_server"
    if "create_file 0 (name_info (cstr ''/'')) (dird_start idle_net) = Inr s'" for s'
    using that calculation create_file_exists [of "dird_start idle_net" "cstr ''/''" dirroot 0 no_server]
    by (auto simp: dird_sent_def)
  ultimately show ?thesis
    using create_existing_blocks [of "dird_start idle_net" "cstr ''/''" dirroot 0 "name_info (cstr ''/'')"]
    by fastforce
qed

text \<open>The node that a path leads to, with its holder, decides the answer to a replica request.\<close>

definition replicas :: "fileserv_info \<Rightarrow> bytes \<Rightarrow> fsmsg" where
  "replicas info address =
     dcp_msg (sv_lasttid info) (sv_id info) dird_fsid (DReplicaStatus 1 [address])"

lemma complete_replicas: "length a \<le> 1000 \<Longrightarrow> complete_msg DCP (replicas info a)"
  by (simp add: replicas_def complete_dcp_msg length_wire_dcp MSG_MAX_def)

lemma replica_status_holder:
  assumes "dir_find_node (dd_heap s) path True = Inr (Some n)" and "n < length (dd_heap s)"
    and "nd_fileserv (dd_heap s ! n) = Some i" and "\<not> dd_lock s"
    and "i < length (dd_servers s)" and "j < length (dd_servers s)" and "info = dd_servers s ! j"
    and "length (sv_address (dd_servers s ! i)) \<le> 1000" and "out_ok (dd_net s) (sv_sd info)"
  shows "replica_status j path s =
    Inr (dird_sent (sv_sd info) (wire DCP (replicas info (sv_address (dd_servers s ! i)))) s)"
proof -
  let ?a = "sv_address (dd_servers s ! i)"
  have "dcp_replica_msg dird_fsid info ?a = Inr (replicas info ?a)"
    using assms(8) by (simp add: dcp_replica_msg_def replicas_def dcp_msg_def)
  with send_complete [OF complete_replicas [OF assms(8)] assms(9)] assms(1-7)
  show ?thesis
    by (simp add: replica_status_def server_at_def lock_dir_def unlock_dir_def node_at_def
        dcp_send_replica_list_def dird_sent_def)
qed

text \<open>
  C19. A replica request for a file that was just created is answered with the address of the file
  server that created it, whoever asks.
\<close>

theorem replicas_after_create:
  assumes "dir_ok (dd_heap s)" and "\<not> dd_lock s" and "i < length (dd_servers s)"
    and "\<forall>sd. out_ok (dd_net s) sd"
    and "strndup (fi_path fi) (fi_pathlen fi) = Inr (path_of p b)" and "base_name b"
    and "length b < 2 ^ 29" and "dir_find_node (dd_heap s) p True \<noteq> Inr None"
    and "dir_find_node (dd_heap s) (path_of p b) True = Inr None"
    and "j < length (dd_servers s)" and "length (sv_address (dd_servers s ! i)) \<le> 1000"
  shows "\<exists>s'. create_file i fi s = Inr s' \<and>
    replica_status j (path_of p b) s' = Inr (dird_sent (sv_sd (dd_servers s ! j))
      (wire DCP (replicas (dd_servers s ! j) (sv_address (dd_servers s ! i)))) s')"
proof -
  from create_file_new [OF assms(1-3) refl assms(4) [rule_format] assms(5-7,9)] obtain n h where
    h: "add_node (dd_heap s) (path_of p b) = Inr (n, h)" and
    c: "create_file i fi s = Inr (dird_sent (sv_sd (dd_servers s ! i))
       (wire DCP (created (dd_servers s ! i) b)) (s\<lparr>dd_heap := set_fileserv h n (Some i)\<rparr>))" .
  have "n < length (set_fileserv h n (Some i))" "nd_fileserv (set_fileserv h n (Some i) ! n) = Some i"
    using add_node_nodes(1,2) [OF h] by (simp_all add: set_fileserv_def)
  with fstree.add_assign_finds [OF assms(1,6,8,9) h, of n "Some i"] assms(2-4,10,11) c
    replica_status_holder [of "dird_sent (sv_sd (dd_servers s ! i))
       (wire DCP (created (dd_servers s ! i) b)) (s\<lparr>dd_heap := set_fileserv h n (Some i)\<rparr>)"
       "path_of p b" n i j "dd_servers s ! j"]
  show ?thesis by (simp add: dird_sent_def)
qed

theorem replicas_after_create_witness:
  "\<exists>s'. create_file 2 (name_info (cstr ''/a'')) (dird_start idle_net) = Inr s' \<and>
     (\<exists>s''. replica_status 5 (cstr ''/a'') s' = Inr s'')"
proof -
  have p: "strndup (fi_path (name_info (cstr ''/a''))) (fi_pathlen (name_info (cstr ''/a''))) =
      Inr (path_of [] (cstr ''a''))"
    by (simp add: name_info_def strndup_def path_of_def)
  have f: "dir_find_node dir_init [] True \<noteq> Inr None"
      "dir_find_node dir_init (path_of [] (cstr ''a'')) True = Inr None"
    by (simp_all add: dir_find_node_tree(1) [OF dir_init_represents] levels_top kid_def
        base_name_def path_of_def)
  have "dir_ok dir_init" using dir_init_represents by (auto simp: dir_ok_def)
  with replicas_after_create [of "dird_start idle_net" 2, OF _ _ _ _ p, of 5] f
  obtain s' where "create_file 2 (name_info (cstr ''/a'')) (dird_start idle_net) = Inr s'"
      "\<exists>s''. replica_status 5 (path_of [] (cstr ''a'')) s' = Inr s''"
    by (auto simp: base_name_def no_server_def)
  then show ?thesis by (auto simp: path_of_def)
qed

section \<open>A round on a message of the protocol\<close>

lemma serve_round_body:
  assumes "inq (dd_net s) (sv_sd info) = wire DCP (dcp_msg t a b body) # cs"
    and "complete_msg DCP (dcp_msg t a b body)" and "dcp_body_valid body"
    and "i < length (dd_servers s)" and "info = dd_servers s ! i"
  shows "serve_fileserver_round junk i s =
    rbind (dird_dispatch i (transported junk DCP (dcp_msg t a b body))
      (s\<lparr>dd_net := (dd_net s)\<lparr>inq := (inq (dd_net s))(sv_sd info := [] # cs)\<rparr>,
         dd_servers := (dd_servers s)[i := info\<lparr>sv_lasttid := t\<rparr>]\<rparr>)) (\<lambda>s. Inr (True, s))"
  using recv_wire [OF assms(2,1), of junk] dcp_msg_accepted [OF assms(3)] assms(4,5)
  by (simp add: serve_fileserver_round_def server_at_def)

lemma serve_round_read:
  assumes "inq (dd_net s) (sv_sd info) = wire DCP (dcp_msg t a b (DRead r path)) # cs"
    and "length path < 2 ^ 29" and "0 \<notin> set path"
    and "i < length (dd_servers s)" and "info = dd_servers s ! i"
    and "represents (dd_heap s) tr" and "alookup tr (levels path) = Some k" and "\<not> dd_lock s"
    and "listable (info\<lparr>sv_lasttid := t\<rparr>) k" and "out_ok (dd_net s) (sv_sd info)"
  shows "\<exists>s'. serve_fileserver_round junk i s = Inr (True, s') \<and> dd_heap s' = dd_heap s \<and> \<not> dd_lock s' \<and>
    outq (dd_net s') (sv_sd info) =
      outq (dd_net s) (sv_sd info) @ wire DCP (listing (info\<lparr>sv_lasttid := t\<rparr>) k)"
proof -
  let ?m = "transported junk DCP (dcp_msg t a b (DRead r path))"
  let ?s = "s\<lparr>dd_net := (dd_net s)\<lparr>inq := (inq (dd_net s))(sv_sd info := [] # cs)\<rparr>,
         dd_servers := (dd_servers s)[i := info\<lparr>sv_lasttid := t\<rparr>]\<rparr>"
  have "complete_msg DCP (dcp_msg t a b (DRead r path))"
    using assms(2) by (simp add: complete_dcp_msg length_wire_dcp MSG_MAX_def)
  note r = serve_round_body [OF assms(1) this _ assms(4,5), of junk]
  have "read_dir i r path ?s = Inr (dird_sent (sv_sd info) (wire DCP (listing (info\<lparr>sv_lasttid := t\<rparr>) k)) ?s)"
    using read_dir_lists [of ?s tr path k i "info\<lparr>sv_lasttid := t\<rparr>" r] assms(4-10) by simp
  moreover have "SECSDUP ?m 1 = Inr path" using assms(2,3) by (intro SECSDUP_str) auto
  ultimately have "dird_dispatch i ?m ?s =
      Inr (dird_sent (sv_sd info) (wire DCP (listing (info\<lparr>sv_lasttid := t\<rparr>) k)) ?s)"
    by (simp add: dird_dispatch_def)
  with r assms(8) show ?thesis by (simp add: dird_sent_def)
qed

lemma serve_round_create:
  assumes "inq (dd_net s) (sv_sd info) = wire DCP (dcp_msg t a b (DCreate fi)) # cs"
    and "complete_msg DCP (dcp_msg t a b (DCreate fi))"
    and "i < length (dd_servers s)" and "info = dd_servers s ! i"
    and "dir_ok (dd_heap s)" and "\<not> dd_lock s" and "out_ok (dd_net s) (sv_sd info)"
    and "strndup (fi_path fi) (fi_pathlen fi) = Inr (path_of p nm)" and "base_name nm"
    and "length nm < 2 ^ 29" and "dir_find_node (dd_heap s) p True \<noteq> Inr None"
    and "dir_find_node (dd_heap s) (path_of p nm) True = Inr None"
  shows "\<exists>s' n. serve_fileserver_round junk i s = Inr (True, s') \<and> \<not> dd_lock s' \<and>
    outq (dd_net s') (sv_sd info) =
      outq (dd_net s) (sv_sd info) @ wire DCP (created (info\<lparr>sv_lasttid := t\<rparr>) nm) \<and>
    dir_find_node (dd_heap s') (path_of p nm) True = Inr (Some n) \<and>
    nd_fileserv (dd_heap s' ! n) = Some i"
proof -
  let ?m = "transported junk DCP (dcp_msg t a b (DCreate fi))"
  let ?s = "s\<lparr>dd_net := (dd_net s)\<lparr>inq := (inq (dd_net s))(sv_sd info := [] # cs)\<rparr>,
         dd_servers := (dd_servers s)[i := info\<lparr>sv_lasttid := t\<rparr>]\<rparr>"
  let ?f = "fi\<lparr>fi_pad := fresh_pad junk\<rparr>"
  note r = serve_round_body [OF assms(1,2) _ assms(3,4), of junk]
  have "sections ?m = [fi_sec ?f]" by simp
  then have d: "dird_dispatch i ?m ?s = create_file i ?f ?s"
    by (simp add: dird_dispatch_def dcp_types sec_access fi_sec_def del: transported_simps(3))
  obtain n h where h: "add_node (dd_heap s) (path_of p nm) = Inr (n, h)" and
    c: "create_file i ?f ?s = Inr (dird_sent (sv_sd info) (wire DCP (created (info\<lparr>sv_lasttid := t\<rparr>) nm))
       (?s\<lparr>dd_heap := set_fileserv h n (Some i)\<rparr>))"
    using create_file_new [of ?s i "info\<lparr>sv_lasttid := t\<rparr>" ?f p nm] assms by auto
  have "nd_fileserv (set_fileserv h n (Some i) ! n) = Some i"
    using add_node_nodes(1,2) [OF h] by (simp add: set_fileserv_def)
  moreover have "dir_find_node (set_fileserv h n (Some i)) (path_of p nm) True = Inr (Some n)"
    by (rule fstree.add_assign_finds [OF assms(5,9,11,12) h])
  ultimately show ?thesis using r d c assms(6) by (simp add: dird_sent_def)
qed

section \<open>The update request\<close>

text \<open>
  \<open>DCP_UPDATE\<close> carries a file info, but the server reads it as a string: the length is the word of
  the type byte and the padding.
\<close>

lemma update_path_zero:
  assumes "sections m = [fi_sec f]" and "fileinfo_head f = 0"
  shows "SECSDUP m 0 = Inr []"
  using assms by (simp add: sec_access fi_sec_def)

text \<open>
  Otherwise the padding bytes, which the type byte shares its word with, make a length of 256 bytes
  or more.
\<close>

lemma push_bit_8_large:
  fixes p :: u32
  assumes "push_bit 8 p \<noteq> 0"
  shows "256 \<le> unat (push_bit 8 p)"
proof -
  have "take_bit 8 (push_bit 8 p) = 0" by (simp add: bit_eq_iff bit_simps)
  then have "take_bit 8 (unat (push_bit 8 p)) = 0" by (metis unat_0 unsigned_take_bit_eq)
  then have "unat (push_bit 8 p) mod 256 = 0" by (simp add: take_bit_eq_mod)
  moreover have "unat (push_bit 8 p) \<noteq> 0" using assms by (simp add: unat_eq_0)
  ultimately show ?thesis by (meson dvd_eq_mod_eq_0 dvd_imp_le not_gr_zero)
qed

lemma update_path_padded:
  assumes "sections m = [fi_sec f]" and "fi_type f = 0" and "fileinfo_head f \<noteq> 0"
    and "length (fi_path f) < 256" and "0 \<notin> set (fi_path f)"
  shows "SECSDUP m 0 = Inl (Fault OutOfBounds)"
proof -
  have "256 \<le> unat (fileinfo_head f)"
    using push_bit_8_large [of "fi_pad f"] assms(2,3) by (simp add: fileinfo_head_def)
  with assms show ?thesis by (simp add: sec_access fi_sec_def strndup_def)
qed

lemma root_name_info:
  assumes "represents h t"
  shows "fileinfo_from_node (set_fileserv h dirroot (Some i) ! dirroot) = name_info (aname t)"
    and "dirroot < length h"
proof -
  from assms have r: "dirroot < length h" "nd_name (h ! dirroot) = aname t" "nd_user (h ! dirroot) = None"
    by (cases t; auto simp: represents_def)+
  then show "dirroot < length h" by simp
  from r show "fileinfo_from_node (set_fileserv h dirroot (Some i) ! dirroot) = name_info (aname t)"
    by (simp add: set_fileserv_def fileinfo_from_node_def name_info_def)
qed

lemma update_root:
  assumes "represents (dd_heap s) t" and "aname t = [slash]" and "i < length (dd_servers s)"
    and "info = dd_servers s ! i" and "out_ok (dd_net s) (sv_sd info)"
  shows "update_file i [] s =
    Inr (dird_sent (sv_sd info) (wire DCP (created info [slash]))
      (unlock_dir (s\<lparr>dd_heap := set_fileserv (dd_heap s) dirroot (Some i)\<rparr>)))"
proof -
  have f: "dir_find_node (dd_heap s) [] True = Inr (Some dirroot)"
    by (simp add: dir_find_node_def strtok_slash_def)
  have "dcp_fileinfo_msg dird_fsid info (name_info [slash]) = Inr (created info [slash])"
    by (simp add: dcp_fileinfo_msg_def created_def dcp_msg_def)
  moreover have "complete_msg DCP (created info [slash])" by (rule complete_created) simp_all
  ultimately show ?thesis
    using f root_name_info(1) [OF assms(1), of i] root_name_info(2) [OF assms(1)] assms(2-5)
    by (simp add: update_file_def server_at_def unlock_dir_def node_at_def set_fileserv_def
        dcp_send_fileinfo_def send_complete dird_sent_def)
qed



lemma serve_round_update:
  assumes "inq (dd_net s) (sv_sd info) = wire DCP (dcp_msg t a b (DUpdate f)) # cs"
    and "complete_msg DCP (dcp_msg t a b (DUpdate f))" and "fi_type f = 0"
    and "i < length (dd_servers s)" and "info = dd_servers s ! i"
    and "represents (dd_heap s) tr" and "aname tr = [slash]" and "out_ok (dd_net s) (sv_sd info)"
  shows "fresh_pad junk = 0 \<Longrightarrow> \<exists>s'. serve_fileserver_round junk i s = Inr (True, s') \<and>
    dd_heap s' = set_fileserv (dd_heap s) dirroot (Some i) \<and>
    outq (dd_net s') (sv_sd info) =
      outq (dd_net s) (sv_sd info) @ wire DCP (created (info\<lparr>sv_lasttid := t\<rparr>) [slash])"
    and "fresh_pad junk \<noteq> 0 \<Longrightarrow> length (fi_path f) < 256 \<Longrightarrow> 0 \<notin> set (fi_path f) \<Longrightarrow>
      serve_fileserver_round junk i s = Inl (Fault OutOfBounds)"
proof -
  let ?m = "transported junk DCP (dcp_msg t a b (DUpdate f))" and ?f = "f\<lparr>fi_pad := fresh_pad junk\<rparr>"
  let ?s = "s\<lparr>dd_net := (dd_net s)\<lparr>inq := (inq (dd_net s))(sv_sd info := [] # cs)\<rparr>,
         dd_servers := (dd_servers s)[i := info\<lparr>sv_lasttid := t\<rparr>]\<rparr>"
  note round = serve_round_body [OF assms(1,2) _ assms(4,5), of junk]
  have secs: "sections ?m = [fi_sec ?f]" by simp
  {
    assume "fresh_pad junk = 0"
    then have "fileinfo_head ?f = 0" using assms(3) by (simp add: fileinfo_head_def)
    with secs have "SECSDUP ?m 0 = Inr []" by (rule update_path_zero)
    then have "dird_dispatch i ?m ?s = update_file i [] ?s" by (simp add: dird_dispatch_def dcp_types)
    with update_root [of ?s tr i "info\<lparr>sv_lasttid := t\<rparr>"] round assms(4-8)
    show "\<exists>s'. serve_fileserver_round junk i s = Inr (True, s') \<and>
      dd_heap s' = set_fileserv (dd_heap s) dirroot (Some i) \<and>
      outq (dd_net s') (sv_sd info) =
        outq (dd_net s) (sv_sd info) @ wire DCP (created (info\<lparr>sv_lasttid := t\<rparr>) [slash])"
      by (simp add: dird_sent_def unlock_dir_def)
  next
    assume pad: "fresh_pad junk \<noteq> 0" "length (fi_path f) < 256" "0 \<notin> set (fi_path f)"
    then have "fileinfo_head ?f \<noteq> 0" using assms(3) by (simp add: fileinfo_head_def fresh_pad_shifted)
    with update_path_padded [OF secs] pad assms(3) have "SECSDUP ?m 0 = Inl (Fault OutOfBounds)" by simp
    then have "dird_dispatch i ?m ?s = Inl (Fault OutOfBounds)" by (simp add: dird_dispatch_def dcp_types)
    with round show "serve_fileserver_round junk i s = Inl (Fault OutOfBounds)" by simp
  }
qed

section \<open>What a handler changes\<close>

text \<open>The directory changes by insertion of a node that the server then holds, or by a new holder.\<close>

inductive heap_step :: "nat \<Rightarrow> heap \<Rightarrow> heap \<Rightarrow> bool" for i where
  same: "heap_step i h h"
| new: "add_node h p = Inr (n, h') \<Longrightarrow> heap_step i h (set_fileserv h' n (Some i))"
| holder: "heap_step i h (set_fileserv h a (Some i))"

lemmas heap_step_simps [simp] = heap_step.same heap_step.holder

lemma dird_send_state:
  "dird_send sd m s = Inr s' \<Longrightarrow> dd_heap s' = dd_heap s \<and> dd_servers s' = dd_servers s \<and>
     dd_count s' = dd_count s \<and> dd_lastsid s' = dd_lastsid s"
  by (auto simp: dird_send_def rbind_Inr_iff)

lemma dird_error_state:
  "dird_error info t e str s = Inr s' \<Longrightarrow> dd_heap s' = dd_heap s \<and> dd_servers s' = dd_servers s \<and>
     dd_count s' = dd_count s \<and> dd_lastsid s' = dd_lastsid s"
  by (auto simp: dird_error_def rbind_Inr_iff)

definition only_heap :: "nat \<Rightarrow> dird \<Rightarrow> dird \<Rightarrow> bool" where
  "only_heap i s s' \<longleftrightarrow> heap_step i (dd_heap s) (dd_heap s') \<and> dd_servers s' = dd_servers s \<and>
     dd_count s' = dd_count s \<and> dd_lastsid s' = dd_lastsid s"

lemma read_dir_heap: "read_dir i r path s = Inr s' \<Longrightarrow> only_heap i s s'"
  by (auto simp: read_dir_def rbind_Inr_iff lock_dir_def unlock_dir_def Let_def only_heap_def
      intro: heap_step.same dest!: dird_send_state split: option.splits if_splits)

lemma create_file_heap: "create_file i fi s = Inr s' \<Longrightarrow> only_heap i s s'"
  by (auto simp: create_file_def rbind_Inr_iff lock_dir_def unlock_dir_def Let_def only_heap_def
      intro: heap_step.same heap_step.new dest!: dird_send_state dird_error_state
      split: option.splits if_splits)

lemma update_file_heap: "update_file i path s = Inr s' \<Longrightarrow> only_heap i s s'"
  by (auto simp: update_file_def rbind_Inr_iff lock_dir_def unlock_dir_def Let_def only_heap_def
      intro: heap_step.same heap_step.holder dest!: dird_send_state dird_error_state
      split: option.splits if_splits)

lemma replica_status_heap: "replica_status i path s = Inr s' \<Longrightarrow> only_heap i s s'"
  by (auto simp: replica_status_def rbind_Inr_iff lock_dir_def unlock_dir_def Let_def only_heap_def
      intro: heap_step.same dest!: dird_send_state dird_error_state
      split: option.splits if_splits)

lemma dispatch_heap: "dird_dispatch i m s = Inr s' \<Longrightarrow> only_heap i s s'"
  by (auto simp: dird_dispatch_def Let_def rbind_Inr_iff only_heap_def [of i s' s']
      dest: read_dir_heap create_file_heap update_file_heap replica_status_heap
      split: if_splits)

section \<open>The table of file servers\<close>

definition reg_ok :: "dird \<Rightarrow> bool" where
  "reg_ok s \<longleftrightarrow> length (dd_servers s) = MAX_FSERVERS \<and>
     dd_count s = int (length (filter (\<lambda>x. x \<noteq> 0) (map sv_id (dd_servers s)))) \<and>
     distinct (filter (\<lambda>x. x \<noteq> 0) (map sv_id (dd_servers s))) \<and>
     (\<forall>f\<in>set (dd_servers s). sv_id f \<le> dd_lastsid s)"

lemma free_server_Some:
  "free_server fs k = Some i \<Longrightarrow> k \<le> i \<and> i < k + length fs \<and> sv_id (fs ! (i - k)) = 0"
proof (induction fs arbitrary: k)
  case Nil
  then show ?case by simp
next
  case (Cons f fs)
  show ?case
  proof (cases "sv_id f = 0")
    case True
    with Cons.prems show ?thesis by simp
  next
    case False
    with Cons.prems Cons.IH [of "Suc k"] show ?thesis by (auto simp: nth_Cons')
  qed
qed

lemma free_server_None: "free_server fs k = None \<longleftrightarrow> (\<forall>f\<in>set fs. sv_id f \<noteq> 0)"
  by (induction fs arbitrary: k) auto

lemma filter_replace:
  assumes "i < length xs" and "xs ! i = 0" and "y \<noteq> 0"
  shows "length (filter (\<lambda>x. x \<noteq> 0) (xs[i := y])) = Suc (length (filter (\<lambda>x. x \<noteq> 0) xs))"
    and "y \<notin> set xs \<Longrightarrow> distinct (filter (\<lambda>x. x \<noteq> 0) xs) \<Longrightarrow>
      distinct (filter (\<lambda>x. x \<noteq> (0 :: 'a :: zero)) (xs[i := y]))"
proof -
  have xs: "xs = take i xs @ 0 # drop (Suc i) xs" using assms by (metis id_take_nth_drop)
  have up: "xs[i := y] = take i xs @ y # drop (Suc i) xs" using assms(1) by (rule upd_conv_take_nth_drop)
  have len: "length (filter (\<lambda>x. x \<noteq> 0) xs) =
      length (filter (\<lambda>x. x \<noteq> 0) (take i xs @ drop (Suc i) xs))"
    using arg_cong [OF xs, of "\<lambda>xs. length (filter (\<lambda>x. x \<noteq> 0) xs)"] by simp
  then show "length (filter (\<lambda>x. x \<noteq> 0) (xs[i := y])) = Suc (length (filter (\<lambda>x. x \<noteq> 0) xs))"
    unfolding up using assms(3) by simp
  have d: "filter (\<lambda>x. x \<noteq> 0) xs = filter (\<lambda>x. x \<noteq> 0) (take i xs) @ filter (\<lambda>x. x \<noteq> 0) (drop (Suc i) xs)"
    using arg_cong [OF xs, of "filter (\<lambda>x. x \<noteq> 0)"] by simp
  assume "y \<notin> set xs" "distinct (filter (\<lambda>x. x \<noteq> 0) xs)"
  moreover from this have "y \<notin> set (take i xs)" "y \<notin> set (drop (Suc i) xs)"
    by (auto dest: in_set_takeD in_set_dropD)
  ultimately show "distinct (filter (\<lambda>x. x \<noteq> 0) (xs[i := y]))"
    unfolding up using assms(3) d by auto
qed

lemma dcp_accept_info:
  "dcp_accept junk f info net = Inr (ret, info', net') \<Longrightarrow> sv_id info' = sv_id info \<and> ret \<in> {0, -1, -2}"
  by (auto simp: dcp_accept_def Let_def rbind_Inr_iff split: prod.splits option.splits if_splits)

text \<open>Registration, by the number of taken entries.\<close>

lemma filter_all_iff: "length (filter P xs) = length xs \<longleftrightarrow> (\<forall>x\<in>set xs. P x)"
proof (induction xs)
  case (Cons x xs)
  then show ?case using length_filter_le [of P xs] by (auto simp del: length_filter_le)
qed simp

lemma word_less_Suc: "w \<noteq> -1 \<Longrightarrow> w < w + (1 :: u64)"
proof -
  assume "w \<noteq> -1"
  then have "1 + w \<noteq> 0" by (metis add.commute eq_neg_iff_add_eq_0)
  then show ?thesis using unatSuc [of w] by (simp add: word_less_nat_alt add.commute)
qed

lemma taken_full:
  assumes "reg_ok s"
  shows "dd_count s \<le> 100" and "dd_count s = 100 \<longleftrightarrow> free_server (take MAX_FSERVERS (dd_servers s)) 0 = None"
proof -
  let ?ids = "map sv_id (dd_servers s)"
  have len: "length ?ids = 100" and cnt: "dd_count s = int (length (filter (\<lambda>x. x \<noteq> 0) ?ids))"
    using assms by (simp_all add: reg_ok_def MAX_FSERVERS_def)
  then show "dd_count s \<le> 100" using length_filter_le [of "\<lambda>x. x \<noteq> 0" ?ids] by simp
  have "dd_count s = 100 \<longleftrightarrow> length (filter (\<lambda>x. x \<noteq> 0) ?ids) = length ?ids" using cnt len by simp
  also have "\<dots> \<longleftrightarrow> (\<forall>x\<in>set ?ids. x \<noteq> 0)" by (rule filter_all_iff)
  finally show "dd_count s = 100 \<longleftrightarrow> free_server (take MAX_FSERVERS (dd_servers s)) 0 = None"
    using len by (simp add: free_server_None MAX_FSERVERS_def)
qed

lemma register_takes:
  assumes "reg_ok s" and "sid \<noteq> 0" and "register_fsrv sd sid s = (ret, s')"
  shows "if dd_count s = 100 then ret = -1 \<and> s' = s
    else \<exists>i. ret = int i \<and> i < 100 \<and> sv_id (dd_servers s ! i) = 0 \<and>
      s' = s\<lparr>dd_servers := (dd_servers s)[i := (dd_servers s ! i)\<lparr>sv_id := sid, sv_sd := sd\<rparr>],
             dd_count := dd_count s + 1\<rparr>"
proof (cases "dd_count s = 100")
  case True
  with taken_full(2) [OF assms(1)] assms(2,3) show ?thesis
    by (simp add: register_fsrv_def MAX_FSERVERS_def)
next
  case False
  with taken_full [OF assms(1)] have "dd_count s \<le> 100"
      "free_server (take MAX_FSERVERS (dd_servers s)) 0 \<noteq> None" by auto
  then obtain i where i: "free_server (take MAX_FSERVERS (dd_servers s)) 0 = Some i" by auto
  from free_server_Some [OF i] have "i < 100" "sv_id (dd_servers s ! i) = 0"
    by (auto simp: MAX_FSERVERS_def)
  with i False assms(2,3) \<open>dd_count s \<le> 100\<close> show ?thesis
    by (auto simp: register_fsrv_def MAX_FSERVERS_def)
qed

lemma reg_ok_take:
  assumes "reg_ok s" and "i < 100" and "sv_id (dd_servers s ! i) = 0" and "dd_lastsid s < sv_id f"
    and "dd_servers s' = (dd_servers s)[i := f]" and "dd_count s' = dd_count s + 1"
    and "dd_lastsid s' = sv_id f"
  shows "reg_ok s'"
proof -
  let ?ids = "map sv_id (dd_servers s)"
  have len: "length (dd_servers s) = 100" using assms(1) by (simp add: reg_ok_def MAX_FSERVERS_def)
  have ids: "map sv_id (dd_servers s') = ?ids[i := sv_id f]" by (simp add: assms(5) map_update)
  have f: "sv_id f \<noteq> 0" using assms(4) by (metis word_not_simps(1))
  have "sv_id f \<notin> set ?ids" using assms(1,4) by (auto simp: reg_ok_def dest!: bspec)
  moreover have i: "i < length ?ids" "?ids ! i = 0" using assms(2,3) len by simp_all
  ultimately have "distinct (filter (\<lambda>x. x \<noteq> 0) (map sv_id (dd_servers s')))"
    using assms(1) f unfolding ids by (intro filter_replace(2)) (auto simp: reg_ok_def)
  moreover have "dd_count s' = int (length (filter (\<lambda>x. x \<noteq> 0) (map sv_id (dd_servers s'))))"
    using assms(1,6) filter_replace(1) [OF i f] unfolding ids by (simp add: reg_ok_def)
  moreover have "\<forall>g\<in>set (dd_servers s'). sv_id g \<le> dd_lastsid s'"
  proof
    fix g assume "g \<in> set (dd_servers s')"
    then have "g = f \<or> g \<in> set (dd_servers s)"
      using set_update_subset_insert [of "dd_servers s" i f] by (auto simp: assms(5))
    moreover have "g \<in> set (dd_servers s) \<Longrightarrow> sv_id g \<le> sv_id f"
      using assms(1,4) by (auto simp: reg_ok_def dest!: bspec)
    ultimately show "sv_id g \<le> dd_lastsid s'" by (auto simp: assms(7))
  qed
  ultimately show ?thesis using len by (simp add: reg_ok_def MAX_FSERVERS_def assms(5))
qed

lemma dcp_server_round_reg:
  assumes "reg_ok s" and "dd_lastsid s \<noteq> -1" and "dcp_server_round junk sd addr s = Inr (r, s')"
  shows "reg_ok s' \<and> dd_lastsid s' = dd_lastsid s + 1 \<and> dd_heap s' = dd_heap s \<and>
    (if dd_count s = 100 then r = None \<and> dd_servers s' = dd_servers s
     else \<exists>i. i < 100 \<and> sv_id (dd_servers s ! i) = 0 \<and> r \<in> {None, Some i} \<and>
       dd_servers s' = (dd_servers s)[i := dd_servers s' ! i] \<and>
       sv_id (dd_servers s' ! i) = dd_lastsid s + 1 \<and> dd_count s' = dd_count s + 1)"
proof -
  let ?sid = "dd_lastsid s + 1" and ?s = "s\<lparr>dd_lastsid := dd_lastsid s + 1\<rparr>"
  have lt: "dd_lastsid s < ?sid" using assms(2) by (rule word_less_Suc)
  then have sid: "?sid \<noteq> 0" by (metis word_not_simps(1))
  have reg: "reg_ok ?s" using assms(1) lt by (auto simp: reg_ok_def)
  obtain ret s1 where r: "register_fsrv sd ?sid ?s = (ret, s1)" by (cases "register_fsrv sd ?sid ?s")
  note t = register_takes [OF reg sid r]
  show ?thesis
  proof (cases "dd_count s = 100")
    case True
    with t assms(3) r reg show ?thesis by (auto simp: dcp_server_round_def nextsid_def Let_def)
  next
    case False
    with t obtain i where i: "ret = int i" "i < 100" "sv_id (dd_servers s ! i) = 0"
        "s1 = ?s\<lparr>dd_servers := (dd_servers s)[i := (dd_servers s ! i)\<lparr>sv_id := ?sid, sv_sd := sd\<rparr>],
             dd_count := dd_count s + 1\<rparr>" by auto
    have len: "length (dd_servers s) = 100" using assms(1) by (simp add: reg_ok_def MAX_FSERVERS_def)
    from assms(3) r i len obtain a info net where
      acc: "dcp_accept junk dird_fsid ((dd_servers s ! i)\<lparr>sv_id := ?sid, sv_sd := sd, sv_address := addr\<rparr>)
          (dd_net s) = Inr (a, info, net)" and
      s': "s' = s1\<lparr>dd_servers := (dd_servers s)[i := info], dd_net := net\<rparr>"
          "r = (if a < 0 then None else Some i)"
      by (auto simp: dcp_server_round_def nextsid_def Let_def server_at_def rbind_Inr_iff)
    have id: "sv_id info = ?sid" using dcp_accept_info [OF acc] by simp
    have "reg_ok s'"
      by (rule reg_ok_take [OF assms(1) i(2,3), of info]) (use id lt s' i(4) in simp_all)
    with s' i id len False show ?thesis by (auto intro!: exI [of _ i])
  qed
qed

text \<open>
  C20. Accepting a connection, whether the handshake succeeds or not, gives it an id no other entry
  of the table has, in an entry that was free, and leaves the other entries alone; entries are
  never freed, so once 100 connections were accepted every further one is refused.
\<close>

theorem dcp_server_round_registers:
  assumes "reg_ok s" and "dd_lastsid s \<noteq> -1" and "dcp_server_round junk sd addr s = Inr (r, s')"
  shows "reg_ok s' \<and> dd_lastsid s' = dd_lastsid s + 1 \<and> dd_heap s' = dd_heap s \<and>
    (if dd_count s = 100 then r = None \<and> dd_servers s' = dd_servers s
     else \<exists>i. i < 100 \<and> sv_id (dd_servers s ! i) = 0 \<and> r \<in> {None, Some i} \<and>
       dd_servers s' = (dd_servers s)[i := dd_servers s' ! i] \<and>
       sv_id (dd_servers s' ! i) = dd_lastsid s + 1 \<and> dd_count s' = dd_count s + 1)"
  using assms by (rule dcp_server_round_reg)

lemma dird_start_reg: "reg_ok (dird_start net)"
  by (auto simp: reg_ok_def no_server_def MAX_FSERVERS_def)

theorem dcp_server_round_registers_witness:
  "\<exists>s'. dcp_server_round (\<lambda>_. 0) 7 (cstr ''10.0.0.2'') (dird_start idle_net) = Inr (None, s') \<and>
     dd_count s' = 1 \<and> dd_lastsid s' = 1"
proof -
  have "fsmsg_from_socket (\<lambda>_. 0) DCP [] = (None, [])"
    by (simp add: fsmsg_from_socket_def rdr_bind_def read_u64_def rd_field_def rdr_fail_def)
  then obtain s' where "dcp_server_round (\<lambda>_. 0) 7 (cstr ''10.0.0.2'') (dird_start idle_net) = Inr (None, s')"
    by (auto simp: dcp_server_round_def nextsid_def register_fsrv_def MAX_FSERVERS_def server_at_def
        dcp_accept_def recv_msg_def no_server_def numeral_eq_Suc replicate_Suc)
  from this dcp_server_round_registers [OF dird_start_reg _ this] show ?thesis by auto
qed

section \<open>Runs of the server\<close>

text \<open>
  A run interleaves rounds of the accepting loop and of the serving loops; between them anything
  can arrive from the network. Fewer than \<open>2^64\<close> connections are accepted.
\<close>

inductive dird_step :: "dird \<Rightarrow> dird \<Rightarrow> bool" where
  accept: "dd_lastsid s \<noteq> -1 \<Longrightarrow> dcp_server_round junk sd addr s = Inr (r, s') \<Longrightarrow> dird_step s s'"
| serve: "serve_fileserver_round junk i s = Inr (c, s') \<Longrightarrow> dird_step s s'"
| network: "dird_step s (s\<lparr>dd_net := net\<rparr>)"

definition holders_ok :: "heap \<Rightarrow> bool" where
  "holders_ok h \<longleftrightarrow> (\<forall>f\<in>set (map nd_fileserv h). f = None \<or> (\<exists>i<MAX_FSERVERS. f = Some i))"

definition dird_inv :: "dird \<Rightarrow> bool" where
  "dird_inv s \<longleftrightarrow> dir_ok (dd_heap s) \<and> reg_ok s \<and> holders_ok (dd_heap s)"

lemma holders_set: "holders_ok h \<Longrightarrow> i < MAX_FSERVERS \<Longrightarrow> holders_ok (set_fileserv h a (Some i))"
  unfolding holders_ok_def set_fileserv_def
  by (auto dest!: set_update_subset_insert [THEN subsetD])

lemma heap_step_inv:
  assumes "heap_step i h h'" and "dir_ok h" and "holders_ok h" and "i < MAX_FSERVERS"
  shows "dir_ok h' \<and> holders_ok h' \<and>
    (\<forall>q m. dir_find_node h q True = Inr (Some m) \<longrightarrow> dir_find_node h' q True = Inr (Some m))"
  using assms
proof (cases rule: heap_step.cases)
  case (new p n h1)
  have "holders_ok h1"
    using assms(3) add_node_nodes(4) [OF new(2)] by (simp add: holders_ok_def)
  with new assms(2,4) fstree.add_ok [OF assms(2) new(2)] show ?thesis
    by (auto intro: holders_set fstree.assign_ok fstree.found_stays)
qed (auto simp: fstree.assign_ok fstree.assign_find holders_set)

lemma reg_ok_cong:
  assumes "reg_ok s" and "map sv_id (dd_servers s') = map sv_id (dd_servers s)"
    and "dd_count s' = dd_count s" and "dd_lastsid s' = dd_lastsid s"
  shows "reg_ok s'"
proof -
  have "length (dd_servers s') = length (dd_servers s)" using assms(2) by (rule map_eq_imp_length_eq)
  moreover have "(\<forall>f\<in>set (dd_servers t). sv_id f \<le> x) \<longleftrightarrow> (\<forall>y\<in>set (map sv_id (dd_servers t)). y \<le> x)" for t x
    by simp
  ultimately show ?thesis using assms unfolding reg_ok_def by metis
qed

lemma serve_round_state:
  assumes "serve_fileserver_round junk i s = Inr (c, s')"
  shows "i < length (dd_servers s)" and "heap_step i (dd_heap s) (dd_heap s')"
    and "map sv_id (dd_servers s') = map sv_id (dd_servers s)" and "dd_count s' = dd_count s"
    and "dd_lastsid s' = dd_lastsid s"
proof -
  have ids: "map sv_id ((dd_servers s)[i := (dd_servers s ! i)\<lparr>sv_lasttid := t\<rparr>]) = map sv_id (dd_servers s)"
    if "i < length (dd_servers s)" for t
    using that by (simp add: map_update list_update_same_conv)
  show "i < length (dd_servers s)"
    using assms by (auto simp: serve_fileserver_round_def server_at_def rbind_Inr_iff split: if_splits)
  with assms ids have "heap_step i (dd_heap s) (dd_heap s') \<and>
      map sv_id (dd_servers s') = map sv_id (dd_servers s) \<and> dd_count s' = dd_count s \<and>
      dd_lastsid s' = dd_lastsid s"
    by (auto simp: serve_fileserver_round_def server_at_def rbind_Inr_iff Let_def only_heap_def
        split: prod.splits option.splits if_splits dest!: dird_error_state dispatch_heap)
  then show "heap_step i (dd_heap s) (dd_heap s')" "map sv_id (dd_servers s') = map sv_id (dd_servers s)"
    "dd_count s' = dd_count s" "dd_lastsid s' = dd_lastsid s" by auto
qed

lemma dird_step_inv:
  assumes "dird_step s s'" and "dird_inv s"
  shows "dird_inv s' \<and>
    (\<forall>q m. dir_find_node (dd_heap s) q True = Inr (Some m) \<longrightarrow>
           dir_find_node (dd_heap s') q True = Inr (Some m))"
  using assms(1)
proof (cases rule: dird_step.cases)
  case (accept junk sd addr r)
  with assms(2) dcp_server_round_reg [of s junk sd addr r s'] show ?thesis
    by (auto simp: dird_inv_def)
next
  case (serve junk i c)
  note st = serve_round_state [OF serve]
  have "i < MAX_FSERVERS" using st(1) assms(2) by (simp add: dird_inv_def reg_ok_def)
  with heap_step_inv [OF st(2)] reg_ok_cong [OF _ st(3-5)] assms(2) show ?thesis
    by (auto simp: dird_inv_def)
next
  case (network net)
  with assms(2) show ?thesis by (auto simp: dird_inv_def reg_ok_def)
qed

lemma dird_run_inv:
  assumes "dird_step\<^sup>*\<^sup>* s s'" and "dird_inv s"
  shows "dird_inv s' \<and>
    (\<forall>q m. dir_find_node (dd_heap s) q True = Inr (Some m) \<longrightarrow>
           dir_find_node (dd_heap s') q True = Inr (Some m))"
  using assms by (induction rule: rtranclp_induct) (use dird_step_inv in \<open>blast+\<close>)

lemma dird_start_inv: "dird_inv (dird_start net)"
  using dird_start_reg dir_init_represents
  by (auto simp: dird_inv_def dir_ok_def holders_ok_def dir_init_def new_node_def)

text \<open>
  C8. In every state the directory server reaches, however connections and requests interleave and
  whatever the file servers send, the pointer structure represents a tree, every holder is an entry
  of the table, and the ids of the file servers are distinct; and a path that is found stays found,
  at the same node, in every later state.
\<close>

theorem dird_run_safe:
  assumes "dird_step\<^sup>*\<^sup>* (dird_start net) s" and "dird_step\<^sup>*\<^sup>* s s'"
  shows "dird_inv s \<and>
    (\<forall>q m. dir_find_node (dd_heap s) q True = Inr (Some m) \<longrightarrow>
           dir_find_node (dd_heap s') q True = Inr (Some m))"
  using dird_run_inv [OF assms(1) dird_start_inv] dird_run_inv [OF assms(2)] by blast

theorem dird_run_safe_witness:
  "dird_inv ((dird_start idle_net)\<lparr>dd_net := idle_net\<rparr>)"
proof -
  have "dird_step (dird_start idle_net) ((dird_start idle_net)\<lparr>dd_net := idle_net\<rparr>)"
    by (rule dird_step.network)
  then have "dird_step\<^sup>*\<^sup>* (dird_start idle_net) ((dird_start idle_net)\<lparr>dd_net := idle_net\<rparr>)"
    by (rule r_into_rtranclp)
  with dird_run_safe [of idle_net _ "(dird_start idle_net)\<lparr>dd_net := idle_net\<rparr>"] show ?thesis by blast
qed

section \<open>No handler runs forever\<close>

lemma ends_dird_send [ends_intros]: "ends w (dird_send sd m s)"
  by (auto simp: dird_send_def intro!: ends_intros)

lemma ends_dird_error [ends_intros]: "ends w (dird_error info t e str s)"
  by (auto simp: dird_error_def dcp_send_error_def dcp_error_msg_def intro!: ends_intros)

lemma ends_server_at [ends_intros]: "ends w (server_at s i)"
  by (simp add: server_at_def)

lemma ends_lock_dir [ends_intros]: "(dd_lock s \<Longrightarrow> w) \<Longrightarrow> ends w (lock_dir s)"
  by (simp add: lock_dir_def)

lemma ends_node_at [ends_intros]: "ends w (node_at h a)"
  by (simp add: node_at_def)

lemma ends_find [ends_intros]: "dir_ok h \<Longrightarrow> ends w (dir_find_node h p True)"
  using fstree.find_total [of h p] by auto

lemma ends_add_node [ends_intros]: "dir_ok h \<Longrightarrow> ends w (add_node h p)"
  using fstree.add_total [of h p] add_node_no_slash [of p h] by (cases "slash \<in> set p") auto

lemma ends_inc_count [ends_intros]: "ends w (inc_count m)"
  by (auto simp: inc_count_def intro!: ends_intros)

lemma ends_list_children:
  "chain h a ts \<Longrightarrow> length ts < k \<Longrightarrow> ends w (list_children k h a m)"
proof (induction k arbitrary: a ts m)
  case 0
  then show ?case by simp
next
  case (Suc k)
  show ?case
  proof (cases ts rule: addrs.cases)
    case 1
    with Suc.prems show ?thesis by simp
  next
    case (2 b nm fs ks us)
    with Suc.prems Suc.IH [of "nd_next (h ! b)" us] show ?thesis
      by (auto simp: node_at_def intro!: ends_intros)
  qed
qed

lemma lookup_listable:
  assumes "dir_ok h" and "dir_find_node h p True = Inr (Some a)"
  shows "ends w (list_children (Suc (length h)) h (nd_children (h ! a)) m)"
proof -
  from assms(1) obtain t where t: "represents h t" by (auto simp: dir_ok_def)
  with assms(2) obtain k where k: "alookup t (levels p) = Some k" "aaddr k = a"
    by (auto simp: dir_find_node_tree)
  from lookup_at_node [OF t k(1)] k(2) show ?thesis
    by (intro ends_list_children) (auto simp: at_node_def)
qed

lemma ends_read_dir [ends_intros]: "dir_ok (dd_heap s) \<Longrightarrow> (dd_lock s \<Longrightarrow> w) \<Longrightarrow> ends w (read_dir i r path s)"
  using lookup_listable [of "dd_heap s" path]
  by (auto simp: read_dir_def Let_def lock_dir_def node_at_def intro!: ends_intros
      simp del: list_children.simps split: option.splits if_splits)

lemma ends_create_file [ends_intros]: "dir_ok (dd_heap s) \<Longrightarrow> (dd_lock s \<Longrightarrow> w) \<Longrightarrow> ends w (create_file i fi s)"
  by (auto simp: create_file_def created_msg_def Let_def lock_dir_def intro!: ends_intros
      split: option.splits prod.splits if_splits)

lemma ends_update_file [ends_intros]: "dir_ok (dd_heap s) \<Longrightarrow> ends w (update_file i path s)"
  by (auto simp: update_file_def unlock_dir_def Let_def dcp_send_fileinfo_def dcp_fileinfo_msg_def
      intro!: ends_intros split: option.splits prod.splits)

lemma ends_replica_status [ends_intros]: "dir_ok (dd_heap s) \<Longrightarrow> (dd_lock s \<Longrightarrow> w) \<Longrightarrow> ends w (replica_status i path s)"
  by (auto simp: replica_status_def Let_def lock_dir_def dcp_send_replica_list_def dcp_replica_msg_def
      intro!: ends_intros split: option.splits prod.splits if_splits)

lemma ends_dispatch [ends_intros]: "dir_ok (dd_heap s) \<Longrightarrow> (dd_lock s \<Longrightarrow> w) \<Longrightarrow> ends w (dird_dispatch i m s)"
  by (auto simp: dird_dispatch_def Let_def intro!: ends_intros)

lemma recv_msg_received:
  "recv_msg junk sd p net = (Some m, net') \<Longrightarrow> list_all received_ok (sections m)"
  using from_socket_ok by (auto simp: recv_msg_def Let_def split: prod.splits)

lemma ends_dcp_validate: "list_all received_ok (sections m) \<Longrightarrow> ends w (dcp_validate_sections m)"
  using dcp.outcomes [of m] by auto

lemma ends_serve_round: "dird_inv s \<Longrightarrow> ends (dd_lock s) (serve_fileserver_round junk i s)"
  by (auto simp: serve_fileserver_round_def Let_def dird_inv_def intro!: ends_intros ends_dcp_validate
      split: prod.splits option.splits) (erule recv_msg_received)

text \<open>
  C13. In every state the directory server reaches and for whatever bytes a file server sends, handling
  its next message has no loop that runs forever, and waits forever only when the directory mutex is
  already held; while the mutex is free, each round returns, or stops the process with an exit or a
  fault. (An earlier creation of an existing file leaves the mutex held.)
\<close>

theorem dird_round_ends:
  assumes "dird_step\<^sup>*\<^sup>* (dird_start net) s"
  shows "(\<exists>c s'. serve_fileserver_round junk i s = Inr (c, s')) \<or>
    serve_fileserver_round junk i s = Inl Exit \<or>
    (\<exists>f. serve_fileserver_round junk i s = Inl (Fault f)) \<or>
    serve_fileserver_round junk i s = Inl Deadlock \<and> dd_lock s"
proof (cases "serve_fileserver_round junk i s")
  case (Inl e)
  then show ?thesis
    using ends_serve_round [of s junk i] dird_run_inv [OF assms dird_start_inv] by (cases e) auto
next
  case (Inr r)
  then show ?thesis by (cases r) auto
qed

text \<open>A message in progress: the request that blocks when the mutex is held, on a free mutex.\<close>

theorem dird_round_ends_witness:
  "\<exists>m net'. recv_msg (\<lambda>_. 0) 0 DCP (idle_net\<lparr>inq := \<lambda>_. [wire DCP (dcp_msg 5 1 dird_fsid (DRead 1 (cstr ''/a'')))]\<rparr>) =
      (Some m, net') \<and> msg_type m = DCP_READ \<and>
    serve_fileserver_round (\<lambda>_. 0) 0 (dird_start
      (idle_net\<lparr>inq := \<lambda>_. [wire DCP (dcp_msg 5 1 dird_fsid (DRead 1 (cstr ''/a'')))]\<rparr>)) \<noteq> Inl Deadlock"
proof -
  let ?m = "dcp_msg 5 1 dird_fsid (DRead 1 (cstr ''/a''))"
  let ?net = "idle_net\<lparr>inq := \<lambda>_. [wire DCP ?m]\<rparr>"
  have "complete_msg DCP ?m" by (simp add: complete_dcp_msg length_wire_dcp MSG_MAX_def)
  from recv_wire [OF this, of ?net 0 "[]" "\<lambda>_. 0"]
  have "\<exists>net'. recv_msg (\<lambda>_. 0) 0 DCP ?net = (Some (transported (\<lambda>_. 0) DCP ?m), net')" by simp
  moreover have "serve_fileserver_round (\<lambda>_. 0) 0 (dird_start ?net) \<noteq> Inl Deadlock"
    using dird_round_ends [of ?net "dird_start ?net" "\<lambda>_. 0" 0] by auto
  ultimately show ?thesis by (auto simp: dcp_types)
qed

end
