(* ===== verification/Fctp.thy ===== *)
theory Fctp
  imports Msg_Io
begin

text \<open>
  File transfer between file servers (\<^verbatim>\<open>src/src/fctp.c\<close>): the client side \<open>fctp_get_file\<close> and one
  round of \<open>fctp_server\<close>, on a model of the local file system. The files are a map from path to
  content; \<open>hs_creatable\<close> says which files \<open>open\<close> can create, \<open>hs_writable\<close> which existing ones it
  opens for writing (the client passes no mode, so a file it creates gets an arbitrary one). The
  debug output of the default build is part of the code: it reads the type of a missing message.
\<close>

section \<open>The local file system\<close>

record host =
  hs_files :: "bytes \<Rightarrow> bytes option"
  hs_creatable :: "bytes \<Rightarrow> bool"
  hs_writable :: "bytes \<Rightarrow> bool"
  hs_wr :: writes

text \<open>\<open>open(path, O_CREAT|O_WRONLY)\<close>: the new files, \<open>None\<close> when it fails.\<close>

definition open_create :: "host \<Rightarrow> bytes \<Rightarrow> host option" where
  "open_create hs path =
     (case hs_files hs path of
        Some _ \<Rightarrow> if hs_writable hs path then Some hs else None
      | None \<Rightarrow> if hs_creatable hs path then Some (hs\<lparr>hs_files := (hs_files hs)(path \<mapsto> [])\<rparr>) else None)"

text \<open>Writing at the start of an open file; there is no truncation, so a longer old content shows.\<close>

definition write_start :: "host \<Rightarrow> bytes \<Rightarrow> bytes \<Rightarrow> host" where
  "write_start hs path data =
     hs\<lparr>hs_files := (hs_files hs)(path \<mapsto>
       data @ drop (length data) (case hs_files hs path of None \<Rightarrow> [] | Some old \<Rightarrow> old))\<rparr>"

text \<open>\<open>strcpy\<close> and \<open>strcat\<close> into a block of \<open>strlen(dataloc) + strlen(path) + 1\<close> bytes.\<close>

definition local_path :: "bytes \<Rightarrow> bytes \<Rightarrow> bytes" where
  "local_path dataloc path = dataloc @ path"

section \<open>Messages\<close>

definition FCTP_DOWNLOAD :: u16 where "FCTP_DOWNLOAD = 1"
definition FCTP_OK :: u16 where "FCTP_OK = 2"
definition FCTP_ERROR :: u16 where "FCTP_ERROR = 3"

lemmas fctp_types = FCTP_DOWNLOAD_def FCTP_OK_def FCTP_ERROR_def

definition fctp_create_msg :: "u64 \<Rightarrow> u64 \<Rightarrow> u64 \<Rightarrow> u16 \<Rightarrow> fsmsg" where
  "fctp_create_msg t server_id filesystem_id ty =
     (let msg = fsmsg_create 0 FCTP in
      msg\<lparr>tid := t, ids := (ids msg)[0 := server_id, 1 := filesystem_id], msg_type := ty\<rparr>)"

definition fctp_download_msg :: "u64 \<Rightarrow> u64 \<Rightarrow> u64 \<Rightarrow> bytes \<Rightarrow> fsmsg res" where
  "fctp_download_msg t sid fsid path =
     rbind (fsmsg_add_section (fctp_create_msg t sid fsid FCTP_DOWNLOAD) ST_STRING
              (DString (raw_of path))) (\<lambda>m.
     fsmsg_add_section m ST_NONEXT DUninit)"

definition fctp_ok_msg :: "u64 \<Rightarrow> u64 \<Rightarrow> u64 \<Rightarrow> bytes \<Rightarrow> fsmsg res" where
  "fctp_ok_msg t sid fsid content =
     rbind (fsmsg_add_section (fctp_create_msg t sid fsid FCTP_OK) ST_BINARY
              (DBinary (raw_of content))) (\<lambda>m.
     fsmsg_add_section m ST_NONEXT DUninit)"

definition fctp_error_msg :: "u64 \<Rightarrow> u64 \<Rightarrow> u64 \<Rightarrow> u32 \<Rightarrow> bytes \<Rightarrow> fsmsg res" where
  "fctp_error_msg t sid fsid errorn errstr =
     rbind (fsmsg_add_section (fctp_create_msg t sid fsid FCTP_ERROR) ST_INTEGER (DInteger errorn)) (\<lambda>m.
     rbind (fsmsg_add_section m ST_STRING (DString (raw_of errstr))) (\<lambda>m.
     fsmsg_add_section m ST_NONEXT DUninit))"

definition fctp_send_error ::
  "u64 \<Rightarrow> u64 \<Rightarrow> int \<Rightarrow> u64 \<Rightarrow> u32 \<Rightarrow> bytes \<Rightarrow> netw \<Rightarrow> netw res" where
  "fctp_send_error sid fsid sd t errorn errstr net =
     rbind (fctp_error_msg t sid fsid errorn errstr) (\<lambda>m.
     rbind (fsmsg_send sd m FCTP net) (\<lambda>(_, net). Inr net))"

section \<open>Asking for a file\<close>

text \<open>
  \<open>sd\<close> is what \<open>fctp_connect\<close> returned, -1 when no address answered. The result is the returned
  value with the files and the network.
\<close>

definition fctp_get_file ::
  "(nat \<Rightarrow> u8) \<Rightarrow> int \<Rightarrow> u64 \<Rightarrow> u64 \<Rightarrow> u64 \<Rightarrow> bytes \<Rightarrow> bytes \<Rightarrow> host \<Rightarrow> netw \<Rightarrow> (int \<times> host \<times> netw) res" where
  "fctp_get_file junk sd t sid fsid path dataloc hs net =
     rbind (fctp_download_msg t sid fsid path) (\<lambda>m.
     rbind (if sd < 0 then Inl Exit else fsmsg_send sd m FCTP net) (\<lambda>(_, net).
     let (resp, net) = recv_msg junk sd FCTP net in
     case resp of
       None \<Rightarrow> Inr (0, hs, net)
     | Some m \<Rightarrow>
         if msg_type m = FCTP_ERROR then Inr (0, hs, net)
         else if msg_type m = FCTP_OK then
           let lp = local_path dataloc path in
           (case open_create hs lp of
              None \<Rightarrow> Inr (1, hs, net)
            | Some hs \<Rightarrow>
                rbind (SECB m 0) (\<lambda>r.
                if unat (rs_length r) \<le> length (rs_data r)
                then Inr (1, write_start hs lp (take (unat (rs_length r)) (rs_data r)), net)
                else Inl (Fault OutOfBounds)))
         else Inr (0, hs, net)))"

section \<open>Serving a file\<close>

text \<open>
  One round, for the connection \<open>tmpsd\<close>. The type in the debug output of a round without a message
  is read through NULL; the round of a missing file frees the request twice, at its end, when the
  error has been sent.
\<close>

definition fctp_server_round ::
  "(nat \<Rightarrow> u8) \<Rightarrow> bytes \<Rightarrow> u64 \<Rightarrow> u64 \<Rightarrow> int \<Rightarrow> host \<Rightarrow> netw \<Rightarrow> netw res" where
  "fctp_server_round junk dataloc sid fsid tmpsd hs net =
     (let (msg, net) = recv_msg junk tmpsd FCTP net in
      case msg of
        None \<Rightarrow> Inl (Fault NullDeref)
      | Some m \<Rightarrow>
          if msg_type m \<noteq> FCTP_DOWNLOAD then Inr net
          else
            rbind (SECSDUP m 0) (\<lambda>path.
            case hs_files hs (local_path dataloc path) of
              None \<Rightarrow>
                rbind (fctp_send_error sid fsid tmpsd (tid m) ERR_FILENOTFOUND
                         (cstr ''no local file found'') net) (\<lambda>_.
                Inl (Fault DoubleFree))
            | Some content \<Rightarrow>
                rbind (fctp_ok_msg (tid m) sid fsid content) (\<lambda>resp.
                rbind (fsmsg_send tmpsd resp FCTP net) (\<lambda>(_, net). Inr net))))"

section \<open>The messages are complete\<close>

lemma fctp_create_simps [simp]:
  "tid (fctp_create_msg t s f ty) = t" "msg_type (fctp_create_msg t s f ty) = ty"
  "sections (fctp_create_msg t s f ty) = []" "ids (fctp_create_msg t s f ty) = [s, f, 0]"
  by (simp_all add: fctp_create_msg_def fsmsg_create_def Let_def numeral_3_eq_3 numeral_2_eq_2)

definition fctp_msg :: "u64 \<Rightarrow> u64 \<Rightarrow> u64 \<Rightarrow> u16 \<Rightarrow> msg_section list \<Rightarrow> fsmsg" where
  "fctp_msg t s f ty ss = (fctp_create_msg t s f ty)\<lparr>sections := ss @ [end_sec]\<rparr>"

lemma fctp_msg_simps [simp]:
  "tid (fctp_msg t s f ty ss) = t" "msg_type (fctp_msg t s f ty ss) = ty"
  "sections (fctp_msg t s f ty ss) = ss @ [end_sec]" "ids (fctp_msg t s f ty ss) = [s, f, 0]"
  by (simp_all add: fctp_msg_def)

lemma complete_fctp_msg:
  "list_all receivable ss \<Longrightarrow> sum_list (map section_size ss) < 2 ^ 29 \<Longrightarrow>
     complete_msg FCTP (fctp_msg t s f ty ss)"
proof -
  assume ss: "list_all receivable ss" "sum_list (map section_size ss) < 2 ^ 29"
  from ss(1) have "list_all section_ok ss" by (auto simp: list_all_iff receivable_def)
  with ss show ?thesis
    by (auto simp: complete_msg_def msg_ok_def length_wire MSG_MAX_def)
qed

lemma fctp_msgs_eq:
  "short p \<Longrightarrow> fctp_download_msg t s f p = Inr (fctp_msg t s f FCTP_DOWNLOAD [str_sec p])"
  "short c \<Longrightarrow> fctp_ok_msg t s f c = Inr (fctp_msg t s f FCTP_OK [bin_sec c])"
  "short e \<Longrightarrow> fctp_error_msg t s f n e = Inr (fctp_msg t s f FCTP_ERROR [int_sec n, str_sec e])"
  by (simp_all add: fctp_download_msg_def fctp_ok_msg_def fctp_error_msg_def fctp_msg_def)

section \<open>A transfer\<close>

lemma strndup_raw_of: "short b \<Longrightarrow> 0 \<notin> set b \<Longrightarrow> strndup b (of_nat (length b)) = Inr b"
  by (intro strndup_exact) (simp_all add: unat_of_nat)

lemma server_round_found:
  assumes "inq net tmpsd = wire FCTP (fctp_msg t s f FCTP_DOWNLOAD [str_sec path]) # cs"
    and "0 \<notin> set path" and "length path < 2 ^ 28" and "length content < 2 ^ 28"
    and "hs_files hs (local_path dataloc path) = Some content" and "out_ok net tmpsd"
  shows "fctp_server_round junk dataloc sid fsid tmpsd hs net =
    Inr (sent tmpsd (wire FCTP (fctp_msg t sid fsid FCTP_OK [bin_sec content]))
      (net\<lparr>inq := (inq net)(tmpsd := [] # cs)\<rparr>))"
proof -
  have "complete_msg FCTP (fctp_msg t s f FCTP_DOWNLOAD [str_sec path])"
    using assms(3) by (intro complete_fctp_msg) simp_all
  note r = recv_wire [OF this assms(1), of junk]
  have "complete_msg FCTP (fctp_msg t sid fsid FCTP_OK [bin_sec content])"
    using assms(4) by (intro complete_fctp_msg) simp_all
  from send_complete [OF this] r assms(2-6) show ?thesis
    by (simp add: fctp_server_round_def sec_access strndup_raw_of fctp_msgs_eq raw_of_def)
qed

lemma get_file_ok:
  assumes "inq net sd = wire FCTP (fctp_msg t' s f FCTP_OK [bin_sec content]) # cs"
    and "0 \<le> sd" and "out_ok net sd" and "length path < 2 ^ 28" and "length content < 2 ^ 28"
    and "open_create hs (local_path dataloc path) = Some hs1"
  shows "\<exists>net'. fctp_get_file junk sd t sid fsid path dataloc hs net =
    Inr (1, write_start hs1 (local_path dataloc path) content, net') \<and>
    outq net' sd = outq net sd @ wire FCTP (fctp_msg t sid fsid FCTP_DOWNLOAD [str_sec path])"
proof -
  let ?req = "wire FCTP (fctp_msg t sid fsid FCTP_DOWNLOAD [str_sec path])"
  have "complete_msg FCTP (fctp_msg t' s f FCTP_OK [bin_sec content])"
    using assms(5) by (intro complete_fctp_msg) simp_all
  moreover have "inq (sent sd ?req net) sd = wire FCTP (fctp_msg t' s f FCTP_OK [bin_sec content]) # cs"
    using assms(1) by simp
  ultimately have r: "recv_msg junk sd FCTP (sent sd ?req net) =
      (Some (transported junk FCTP (fctp_msg t' s f FCTP_OK [bin_sec content])),
       (sent sd ?req net)\<lparr>inq := (inq (sent sd ?req net))(sd := [] # cs)\<rparr>)"
    by (rule recv_wire)
  have "complete_msg FCTP (fctp_msg t sid fsid FCTP_DOWNLOAD [str_sec path])"
    using assms(4) by (intro complete_fctp_msg) simp_all
  from send_complete [OF this assms(3)] r assms(2-6) show ?thesis
    by (simp add: fctp_get_file_def sec_access fctp_msgs_eq fctp_types raw_of_def unat_of_nat)
qed



text \<open>
  C36. A request for a file the server does not have, and a connection closed before a whole
  request arrived, end the server: the one in a double free after the error was sent, the other in
  a read through NULL.
\<close>

theorem fctp_server_faults:
  assumes "inq net tmpsd = wire FCTP (fctp_msg t s f FCTP_DOWNLOAD [str_sec path]) # cs"
    and "hs_files hs (local_path dataloc path) = None" and "out_ok net tmpsd"
    and "0 \<notin> set path" and "length path < 2 ^ 28" and "inq net' tmpsd = []"
  shows "fctp_server_round junk dataloc sid fsid tmpsd hs net = Inl (Fault DoubleFree) \<and>
    fctp_server_round junk dataloc sid fsid tmpsd hs' net' = Inl (Fault NullDeref)"
proof
  let ?e = "fctp_msg t sid fsid FCTP_ERROR [int_sec ERR_FILENOTFOUND, str_sec (cstr ''no local file found'')]"
  have "complete_msg FCTP (fctp_msg t s f FCTP_DOWNLOAD [str_sec path])"
    using assms(5) by (intro complete_fctp_msg) simp_all
  note r = recv_wire [OF this assms(1), of junk]
  have "complete_msg FCTP ?e" by (intro complete_fctp_msg) simp_all
  from send_complete [OF this] r assms(2-5)
  show "fctp_server_round junk dataloc sid fsid tmpsd hs net = Inl (Fault DoubleFree)"
    by (simp add: fctp_server_round_def sec_access strndup_raw_of fctp_send_error_def fctp_msgs_eq
        raw_of_def flip: cstr_def)
  have "fsmsg_from_socket junk FCTP [] = (None, [])"
    by (simp add: fsmsg_from_socket_def rdr_bind_def read_u64_def rd_field_def rdr_fail_def)
  with assms(6) show "fctp_server_round junk dataloc sid fsid tmpsd hs' net' = Inl (Fault NullDeref)"
    by (simp add: fctp_server_round_def recv_msg_def)
qed

theorem fctp_server_faults_witness:
  "fctp_server_round (\<lambda>_. 0) [] 1 2 4 \<lparr>hs_files = \<lambda>_. None, hs_creatable = \<lambda>_. True, hs_writable = \<lambda>_. True, hs_wr = \<lambda>_. int\<rparr>
     (idle_net\<lparr>inq := \<lambda>_. [wire FCTP (fctp_msg 5 1 2 FCTP_DOWNLOAD [str_sec (cstr ''/a'')])]\<rparr>) =
   Inl (Fault DoubleFree)"
  using fctp_server_faults [of "idle_net\<lparr>inq := \<lambda>_. [wire FCTP (fctp_msg 5 1 2 FCTP_DOWNLOAD [str_sec (cstr ''/a'')])]\<rparr>"
      4 5 1 2 "cstr ''/a''" "[]" "\<lparr>hs_files = \<lambda>_. None, hs_creatable = \<lambda>_. True, hs_writable = \<lambda>_. True, hs_wr = \<lambda>_. int\<rparr>"
      "[]" idle_net "\<lambda>_. 0" 1 2]
  by auto

end
