(* ===== verification/Fap_Conn.thy ===== *)
theory Fap_Conn
  imports Fap_Msg Netutil
begin

text \<open>
  The two ends of a client's connection (\<^verbatim>\<open>src/src/fap.c\<close>): the client's operations \<open>fap_open\<close>,
  \<open>fap_client_quit\<close>, \<open>fap_client_wait_ok\<close>, \<open>fap_list\<close>, \<open>fap_create\<close>, \<open>fap_write_file\<close> and
  \<open>fap_read_file\<close>, and the file server's \<open>fap_accept\<close>. The results of \<open>connect\<close> and \<open>accept\<close>, the
  host and login names and the random transaction ids are arguments.
\<close>

section \<open>State\<close>

text \<open>The globals of the client and what its callers keep: the ids, the data connection, the network.\<close>

record fapcli =
  fc_sid :: u64
  fc_fsid :: u64
  fc_cid :: u64
  fc_datasd :: int
  fc_server :: bytes
  fc_net :: netw

text \<open>A client as the file server knows it.\<close>

record client_info =
  ci_id :: u64
  ci_lasttid :: u64
  ci_sd :: int
  ci_datasd :: int
  ci_user :: bytes
  ci_host :: bytes
  ci_dataport :: u32

text \<open>Adding sections one after the other, and the \<open>ST_NONEXT\<close> after them.\<close>

fun add_all :: "fsmsg \<Rightarrow> (u16 \<times> section_data) list \<Rightarrow> fsmsg res" where
  "add_all m [] = fsmsg_add_section m ST_NONEXT DUninit"
| "add_all m ((t, d) # ds) = rbind (fsmsg_add_section m t d) (\<lambda>m. add_all m ds)"

definition fap_send :: "int \<Rightarrow> fsmsg \<Rightarrow> fapcli \<Rightarrow> fapcli res" where
  "fap_send sd m c = rbind (fsmsg_send sd m FAP (fc_net c)) (\<lambda>(_, net). Inr (c\<lparr>fc_net := net\<rparr>))"

definition fap_recv :: "(nat \<Rightarrow> u8) \<Rightarrow> int \<Rightarrow> fapcli \<Rightarrow> fsmsg option \<times> fapcli" where
  "fap_recv junk sd c = (let (m, net) = recv_msg junk sd FAP (fc_net c) in (m, c\<lparr>fc_net := net\<rparr>))"

section \<open>The client\<close>

text \<open>
  \<open>conn\<close>: the connected descriptor or the negative result of \<open>connect\<close>; \<open>login\<close>: what \<open>getlogin\<close>
  returns, \<open>None\<close> for NULL; \<open>known_family\<close>: the address is IPv4 or IPv6; \<open>dataconn\<close>: the result of
  connecting to a data port.
\<close>

definition fap_open ::
  "(nat \<Rightarrow> u8) \<Rightarrow> int + int \<Rightarrow> u64 \<Rightarrow> bytes \<Rightarrow> bytes option \<Rightarrow> bool \<Rightarrow> (u16 \<Rightarrow> int option) \<Rightarrow> fapcli \<Rightarrow>
     (int \<times> fapcli) res" where
  "fap_open junk conn t host login known_family dataconn c =
     (case conn of
        Inl ret \<Rightarrow> Inr (ret, c)
      | Inr sd \<Rightarrow>
          (case login of
             None \<Rightarrow> Inl (Fault NullDeref)
           | Some user \<Rightarrow>
               rbind (add_all (fap_create_msg t 0 0 0 FAP_HELLO)
                  [(ST_STRING, DString (raw_of host)), (ST_STRING, DString (raw_of user))]) (\<lambda>m.
               rbind (fap_send sd m c) (\<lambda>c.
               let (resp, c) = fap_recv junk sd c in
               rbind (fap_check_response resp t 0 0 0 FAP_HELLO) (\<lambda>ret.
               if ret < 0 then Inr (-1, c)
               else case resp of
                 None \<Rightarrow> Inl (Fault NullDeref)
               | Some m \<Rightarrow>
                   rbind (nth_id m 0) (\<lambda>i0. rbind (nth_id m 1) (\<lambda>i1. rbind (nth_id m 2) (\<lambda>i2.
                   let c = c\<lparr>fc_sid := i0, fc_cid := i1, fc_fsid := i2\<rparr> in
                   rbind (fap_validate_sections m) (\<lambda>ret.
                   if ret < 0 then
                     rbind (fap_send_error (fc_sid c) (fc_fsid c) sd t (fc_cid c) ERR_MSG [] (fc_net c)) (\<lambda>net.
                     Inr (-1, c\<lparr>fc_net := net\<rparr>))
                   else
                     rbind (SECSDUP m 0) (\<lambda>name.
                     rbind (SECI m 1) (\<lambda>port.
                     let c = c\<lparr>fc_server := name\<rparr> in
                     if \<not> known_family then Inr (-1, c)
                     else case dataconn (ucast port) of
                       None \<Rightarrow> Inr (-1, c)
                     | Some dsd \<Rightarrow> Inr (sd, c\<lparr>fc_datasd := dsd\<rparr>))))))))))))"

definition fap_client_quit :: "int \<Rightarrow> u64 \<Rightarrow> fapcli \<Rightarrow> (u64 \<times> fapcli) res" where
  "fap_client_quit sd t c =
     rbind (add_all (fap_create_msg t (fc_sid c) (fc_cid c) (fc_fsid c) FAP_QUIT) []) (\<lambda>m.
     rbind (fap_send sd m c) (\<lambda>c. Inr (t, c)))"

definition fap_client_wait_ok :: "(nat \<Rightarrow> u8) \<Rightarrow> int \<Rightarrow> u64 \<Rightarrow> fapcli \<Rightarrow> (int \<times> fapcli) res" where
  "fap_client_wait_ok junk sd t c =
     (let (resp, c) = fap_recv junk sd c in
      rbind (fap_check_response resp t (fc_sid c) 0 (fc_fsid c) FAP_QUIT) (\<lambda>ret.
      if ret < 0 then Inr (-1, c)
      else case resp of
        None \<Rightarrow> Inl (Fault NullDeref)
      | Some m \<Rightarrow> rbind (SECI m 0) (\<lambda>r. Inr (if r \<noteq> FAP_OK then -1 else 0, c))))"

text \<open>Sending a command, and its answer checked and validated: a negative result or the message.\<close>

definition fap_command ::
  "int \<Rightarrow> u64 \<Rightarrow> u32 \<Rightarrow> (u16 \<times> section_data) list \<Rightarrow> fapcli \<Rightarrow> fapcli res" where
  "fap_command sd t cmd ds c =
     rbind (add_all (fap_create_msg t (fc_sid c) (fc_cid c) (fc_fsid c) FAP_COMMAND)
              ((ST_INTEGER, DInteger cmd) # ds)) (\<lambda>m.
     fap_send sd m c)"

definition fap_answer :: "(nat \<Rightarrow> u8) \<Rightarrow> int \<Rightarrow> u64 \<Rightarrow> fapcli \<Rightarrow> ((int + fsmsg) \<times> fapcli) res" where
  "fap_answer junk sd t c =
     (let (resp, c) = fap_recv junk sd c in
      rbind (fap_check_response resp t (fc_sid c) (fc_cid c) (fc_fsid c) FAP_COMMAND) (\<lambda>ret.
      if ret < 0 then Inr (Inl ret, c)
      else case resp of
        None \<Rightarrow> Inl (Fault NullDeref)
      | Some m \<Rightarrow>
          rbind (fap_validate_sections m) (\<lambda>ret.
          Inr (if ret < 0 then Inl ret else Inr m, c))))"

text \<open>The loop that copies the file infos of a listing, from section \<open>i\<close> on.\<close>

fun copy_infos :: "fsmsg \<Rightarrow> nat \<Rightarrow> nat \<Rightarrow> fileinfo_sect list res" where
  "copy_infos m i 0 = Inr []"
| "copy_infos m i (Suc k) =
     rbind (SECF m i) (\<lambda>f.
     rbind (fsmsg_fileinfo_copy f) (\<lambda>f.
     rbind (copy_infos m (Suc i) k) (\<lambda>fs. Inr (f # fs))))"

text \<open>\<open>fap_list\<close> ignores \<open>recurse\<close> and asks with level 1. The result is the count and the files.\<close>

definition fap_list ::
  "(nat \<Rightarrow> u8) \<Rightarrow> int \<Rightarrow> u64 \<Rightarrow> u32 \<Rightarrow> bytes \<Rightarrow> fapcli \<Rightarrow> (int \<times> fileinfo_sect list \<times> fapcli) res" where
  "fap_list junk sd t recurse current_dir c =
     rbind (fap_command sd t FAP_CMD_LIST
        [(ST_INTEGER, DInteger 1), (ST_STRING, DString (raw_of current_dir))] c) (\<lambda>c.
     rbind (fap_answer junk sd t c) (\<lambda>(r, c).
     case r of
       Inl ret \<Rightarrow> Inr (ret, [], c)
     | Inr m \<Rightarrow>
         rbind (SECI m 1) (\<lambda>count.
         rbind (copy_infos m 2 (nat (sint count))) (\<lambda>fs. Inr (sint count, fs, c)))))"

definition fap_create :: "(nat \<Rightarrow> u8) \<Rightarrow> int \<Rightarrow> u64 \<Rightarrow> bytes \<Rightarrow> fapcli \<Rightarrow> (int \<times> fapcli) res" where
  "fap_create junk sd t filename c =
     rbind (fap_command sd t FAP_CMD_CREATE
        [(ST_STRING, DString (raw_of filename)), (ST_INTEGER, DInteger 1)] c) (\<lambda>c.
     rbind (fap_answer junk sd t c) (\<lambda>(r, c).
     case r of
       Inl ret \<Rightarrow> Inr (ret, c)
     | Inr m \<Rightarrow> rbind (SECI m 1) (\<lambda>v. Inr (if v \<noteq> FAP_OK then -1 else 0, c))))"

text \<open>The data go out on the data connection, in one \<open>write\<close>, before the answer is awaited.\<close>

definition fap_write_file ::
  "(nat \<Rightarrow> u8) \<Rightarrow> int \<Rightarrow> u64 \<Rightarrow> bytes \<Rightarrow> bytes \<Rightarrow> fapcli \<Rightarrow> (int \<times> fapcli) res" where
  "fap_write_file junk sd t filename data c =
     rbind (fap_command sd t FAP_CMD_WRITE
        [(ST_STRING, DString (raw_of filename)), (ST_INTEGER, DInteger (of_nat (length data)))] c) (\<lambda>c.
     if \<not> out_ok (fc_net c) (fc_datasd c) then Inr (-1, c)
     else
       let c = c\<lparr>fc_net := sent (fc_datasd c) data (fc_net c)\<rparr> in
       rbind (fap_answer junk sd t c) (\<lambda>(r, c).
       case r of
         Inl ret \<Rightarrow> Inr (ret, c)
       | Inr m \<Rightarrow> rbind (SECI m 0) (\<lambda>v. Inr (if v \<noteq> FAP_OK then -1 else 0, c))))"

text \<open>The file is copied to standard output, descriptor 1; the result of \<open>recvfile\<close> is not used.\<close>

definition fap_read_file :: "(nat \<Rightarrow> u8) \<Rightarrow> int \<Rightarrow> u64 \<Rightarrow> bytes \<Rightarrow> fapcli \<Rightarrow> (int \<times> fapcli) res" where
  "fap_read_file junk sd t filename c =
     rbind (fap_command sd t FAP_CMD_READ
        [(ST_STRING, DString (raw_of filename)), (ST_INTEGER, DInteger 0), (ST_INTEGER, DInteger 0)] c) (\<lambda>c.
     rbind (fap_answer junk sd t c) (\<lambda>(r, c).
     case r of
       Inl ret \<Rightarrow> Inr (ret, c)
     | Inr m \<Rightarrow>
         rbind (SECI m 1) (\<lambda>n.
         case recvfile (out_wr (fc_net c) 1) (in_err (fc_net c) (fc_datasd c)) (inq (fc_net c) (fc_datasd c)) (sint n) of
           None \<Rightarrow> Inl Diverge
         | Some (Inl e) \<Rightarrow> Inl e
         | Some (Inr (ret, out, rx)) \<Rightarrow>
             let net = (fc_net c)\<lparr>inq := (inq (fc_net c))(fc_datasd c := rx)\<rparr> in
             Inr (0, c\<lparr>fc_net := sent 1 out net\<rparr>))))"

section \<open>The file server's end\<close>

text \<open>
  \<open>host\<close> is the local host name; \<open>dsd\<close> the result of \<open>accept\<close> on the data port, whose failure
  ends the process.
\<close>

definition fap_accept ::
  "(nat \<Rightarrow> u8) \<Rightarrow> u64 \<Rightarrow> u64 \<Rightarrow> bytes \<Rightarrow> int \<Rightarrow> client_info \<Rightarrow> netw \<Rightarrow> (int \<times> client_info \<times> netw) res" where
  "fap_accept junk sid fsid host dsd info net =
     (let (msg, net) = recv_msg junk (ci_sd info) FAP net in
      rbind (fap_check_response msg 0 0 0 0 0) (\<lambda>ret.
      if ret < 0 then Inr (-1, info, net)
      else case msg of
        None \<Rightarrow> Inl (Fault NullDeref)
      | Some m \<Rightarrow>
          if msg_type m \<noteq> FAP_HELLO then Inr (-1, info, net)
          else rbind (fap_validate_sections m) (\<lambda>v.
          if v < 0 then Inr (-1, info, net)
          else
            rbind (SECSDUP m 0) (\<lambda>h. rbind (SECSDUP m 1) (\<lambda>u.
            let info = info\<lparr>ci_lasttid := tid m, ci_host := h, ci_user := u\<rparr> in
            rbind (add_all (fap_create_msg (tid m) sid (ci_id info) fsid FAP_HELLO_RESPONSE)
               [(ST_STRING, DString (raw_of host)), (ST_INTEGER, DInteger (ci_dataport info))]) (\<lambda>resp.
            rbind (fsmsg_send (ci_sd info) resp FAP net) (\<lambda>(_, net).
            if dsd < 0 then Inl Exit else Inr (0, info\<lparr>ci_datasd := dsd\<rparr>, net))))))))"

section \<open>The messages of the protocol on the wire\<close>

lemma fap_create_simps [simp]:
  "tid (fap_create_msg t s c f ty) = t" "msg_type (fap_create_msg t s c f ty) = ty"
  "sections (fap_create_msg t s c f ty) = []" "ids (fap_create_msg t s c f ty) = [s, c, f, 0]"
  by (simp_all add: fap_create_msg_def fsmsg_create_def Let_def numeral_3_eq_3 numeral_2_eq_2)

definition fap_msg :: "u64 \<Rightarrow> u64 \<Rightarrow> u64 \<Rightarrow> u64 \<Rightarrow> fap_body \<Rightarrow> fsmsg" where
  "fap_msg t s c f b =
     (fap_create_msg t s c f (fap_body_type b))\<lparr>sections := fap_body_sections b @ [end_sec]\<rparr>"

lemma fap_msg_simps [simp]:
  "tid (fap_msg t s c f b) = t" "msg_type (fap_msg t s c f b) = fap_body_type b"
  "sections (fap_msg t s c f b) = fap_body_sections b @ [end_sec]"
  "ids (fap_msg t s c f b) = [s, c, f, 0]"
  by (simp_all add: fap_msg_def)

lemma fap_msg_ids [simp]:
  "nth_id (transported junk FAP (fap_msg t s c f b)) 0 = Inr s"
  "nth_id (transported junk FAP (fap_msg t s c f b)) (Suc 0) = Inr c"
  "nth_id (transported junk FAP (fap_msg t s c f b)) 2 = Inr f"
  by (simp_all add: transported_def nth_id_def nth_append numeral_2_eq_2 numeral_3_eq_3)

lemma length_wire_fap:
  "length (wire FAP (fap_msg t s c f b)) = 36 + sum_list (map section_size (fap_body_sections b))"
  by (simp add: length_wire)

lemma complete_fap_msg:
  "complete_msg FAP (fap_msg t s c f b) \<longleftrightarrow> list_all receivable (fap_body_sections b) \<and>
     int (length (wire FAP (fap_msg t s c f b))) \<le> MSG_MAX"
proof -
  have "list_all receivable ss \<Longrightarrow> list_all section_ok ss" for ss
    by (auto simp: list_all_iff receivable_def)
  then show ?thesis by (auto simp: complete_msg_def msg_ok_def)
qed

text \<open>Validation of a message that was sent as one of the protocol's.\<close>

fun refap :: "u32 \<Rightarrow> fap_body \<Rightarrow> fap_body" where
  "refap p (FFileinfo n fs) = FFileinfo n (map (\<lambda>f. f\<lparr>fi_pad := p\<rparr>) fs)"
| "refap p b = b"

lemma refap_simps [simp]:
  "map (received p) (fap_body_sections b) = fap_body_sections (refap p b)"
  "fap_body_type (refap p b) = fap_body_type b" "fap_body_valid (refap p b) = fap_body_valid b"
  by (cases b; simp)+

lemma fap_msg_accepted:
  "fap_body_valid b \<Longrightarrow> fap_validate_sections (transported junk FAP (fap_msg t s c f b)) = Inr 0"
  by (rule fap_speaks_accepted [of _ "refap (fresh_pad junk) b"]) (simp add: fap_speaks_def)

lemma fap_response_checked:
  "t' \<in> {0, t} \<Longrightarrow> s' \<in> {0, s} \<Longrightarrow> c' \<in> {0, c} \<Longrightarrow> f' \<in> {0, f} \<Longrightarrow>
   fap_body_type b = FAP_RESPONSE \<Longrightarrow> rt = FAP_COMMAND \<or> rt = FAP_QUIT \<Longrightarrow>
     fap_check_response (Some (transported junk FAP (fap_msg t s c f b))) t' s' c' f' rt = Inr 0"
  by (auto simp: fap_check_response_def fap_types)

section \<open>The client's operations and their answers\<close>

lemma fap_answer_ok:
  assumes "inq (fc_net c) sd = wire FAP (fap_msg t (fc_sid c) (fc_cid c) (fc_fsid c) b) # cs"
    and "complete_msg FAP (fap_msg t (fc_sid c) (fc_cid c) (fc_fsid c) b)"
    and "fap_body_type b = FAP_RESPONSE" and "fap_body_valid b"
  shows "fap_answer junk sd t c =
    Inr (Inr (transported junk FAP (fap_msg t (fc_sid c) (fc_cid c) (fc_fsid c) b)),
         c\<lparr>fc_net := (fc_net c)\<lparr>inq := (inq (fc_net c))(sd := [] # cs)\<rparr>\<rparr>)"
  using recv_wire [OF assms(2,1), of junk] fap_msg_accepted [OF assms(4)]
    fap_response_checked [of t t "fc_sid c" "fc_sid c" "fc_cid c" "fc_cid c" "fc_fsid c" "fc_fsid c" b, OF _ _ _ _ assms(3)]
  by (simp add: fap_answer_def fap_recv_def)

definition fap_sent :: "int \<Rightarrow> bytes \<Rightarrow> fapcli \<Rightarrow> fapcli" where
  "fap_sent sd b c = c\<lparr>fc_net := sent sd b (fc_net c)\<rparr>"

lemma fap_send_complete:
  "complete_msg FAP m \<Longrightarrow> out_ok (fc_net c) sd \<Longrightarrow> fap_send sd m c = Inr (fap_sent sd (wire FAP m) c)"
  by (simp add: fap_send_def send_complete fap_sent_def)

text \<open>Sending a command whose sections are those of a payload.\<close>

lemma fap_command_sent:
  assumes "add_all (fap_create_msg t (fc_sid c) (fc_cid c) (fc_fsid c) FAP_COMMAND)
      ((ST_INTEGER, DInteger cmd) # ds) = Inr (fap_msg t (fc_sid c) (fc_cid c) (fc_fsid c) b)"
    and "complete_msg FAP (fap_msg t (fc_sid c) (fc_cid c) (fc_fsid c) b)" and "out_ok (fc_net c) sd"
  shows "fap_command sd t cmd ds c =
    Inr (fap_sent sd (wire FAP (fap_msg t (fc_sid c) (fc_cid c) (fc_fsid c) b)) c)"
  using assms by (simp add: fap_command_def fap_send_complete)

lemma complete_path_commands:
  assumes "length p < 2 ^ 29"
  shows "complete_msg FAP (fap_msg t s c f (FList r p))"
    and "complete_msg FAP (fap_msg t s c f (FCreate p r))"
    and "complete_msg FAP (fap_msg t s c f (FWrite p r))"
    and "complete_msg FAP (fap_msg t s c f (FRead p r n))"
  using assms by (simp_all add: complete_fap_msg length_wire_fap MSG_MAX_def)

lemma copy_infos_run:
  "list_all fileinfo_ok fs \<Longrightarrow> sections m = xs @ map fi_sec fs \<Longrightarrow>
     copy_infos m (length xs) (length fs) = Inr fs"
proof (induction fs arbitrary: xs)
  case Nil
  then show ?case by simp
next
  case (Cons f fs)
  from Cons.prems have "SECF m (length xs) = Inr f" by (simp add: sec_access fi_sec_def)
  moreover from Cons.prems have "copy_infos m (length (xs @ [fi_sec f])) (length fs) = Inr fs"
    by (intro Cons.IH) simp_all
  ultimately show ?case using Cons.prems by (simp add: fsmsg_fileinfo_copy_ok)
qed

lemma fap_list_answered:
  assumes "length dir < 2 ^ 29" and "length fs < 2 ^ 31" and "list_all fi_receivable fs"
    and "complete_msg FAP (fap_msg t (fc_sid c) (fc_cid c) (fc_fsid c) (FFileinfo (of_nat (length fs)) fs))"
    and "inq (fc_net c) sd =
      wire FAP (fap_msg t (fc_sid c) (fc_cid c) (fc_fsid c) (FFileinfo (of_nat (length fs)) fs)) # cs"
    and "out_ok (fc_net c) sd"
  shows "\<exists>c'. fap_list junk sd t r dir c =
      Inr (int (length fs), map (\<lambda>f. f\<lparr>fi_pad := fresh_pad junk\<rparr>) fs, c') \<and>
    outq (fc_net c') sd = outq (fc_net c) sd @
      wire FAP (fap_msg t (fc_sid c) (fc_cid c) (fc_fsid c) (FList 1 dir))"
proof -
  let ?q = "fap_msg t (fc_sid c) (fc_cid c) (fc_fsid c) (FList 1 dir)"
  let ?b = "FFileinfo (of_nat (length fs)) fs"
  let ?c = "fap_sent sd (wire FAP ?q) c" and ?gs = "map (\<lambda>f. f\<lparr>fi_pad := fresh_pad junk\<rparr>) fs"
  let ?m = "transported junk FAP (fap_msg t (fc_sid c) (fc_cid c) (fc_fsid c) ?b)"
  have q: "fap_command sd t FAP_CMD_LIST
      [(ST_INTEGER, DInteger 1), (ST_STRING, DString (raw_of dir))] c = Inr ?c"
    by (rule fap_command_sent [OF _ complete_path_commands(1) [OF assms(1)] assms(6)])
      (use assms(1) in \<open>simp add: fap_msg_def\<close>)
  have n: "sint (of_nat (length fs) :: u32) = int (length fs)"
    using assms(2) by (subst sint_small) (simp_all add: unat_of_nat)
  have a: "fap_answer junk sd t ?c = Inr (Inr ?m,
      ?c\<lparr>fc_net := (fc_net ?c)\<lparr>inq := (inq (fc_net ?c))(sd := [] # cs)\<rparr>\<rparr>)"
    using fap_answer_ok [of ?c sd t ?b cs junk] assms(4,5) n by (simp add: fap_sent_def)
  have secs: "sections ?m = int_sec FAP_FILEINFO # int_sec (of_nat (length fs)) # map fi_sec ?gs"
    by simp
  have "list_all fileinfo_ok ?gs"
    using assms(3) by (auto simp: list_all_iff fi_receivable_def fileinfo_ok_def)
  from copy_infos_run [OF this, of ?m "[int_sec FAP_FILEINFO, int_sec (of_nat (length fs))]"] secs
  have "copy_infos ?m 2 (length fs) = Inr ?gs" by (simp add: numeral_2_eq_2)
  with q a n secs show ?thesis by (simp add: fap_list_def fap_sent_def)
qed

lemma fap_create_sent:
  assumes "length name < 2 ^ 29" and "out_ok (fc_net c) sd"
  shows "fap_command sd t FAP_CMD_CREATE [(ST_STRING, DString (raw_of name)), (ST_INTEGER, DInteger 1)] c =
    Inr (fap_sent sd (wire FAP (fap_msg t (fc_sid c) (fc_cid c) (fc_fsid c) (FCreate name 1))) c)"
  by (rule fap_command_sent [OF _ complete_path_commands(2) [OF assms(1)] assms(2)])
    (use assms(1) in \<open>simp add: fap_msg_def\<close>)

lemma fap_create_answered:
  assumes "length name < 2 ^ 29" and "out_ok (fc_net c) sd" and "fap_body_type b = FAP_RESPONSE"
    and "fap_body_valid b"
    and "complete_msg FAP (fap_msg t (fc_sid c) (fc_cid c) (fc_fsid c) b)"
    and "inq (fc_net c) sd = wire FAP (fap_msg t (fc_sid c) (fc_cid c) (fc_fsid c) b) # cs"
  shows "(case b of
      FFileinfo n fs \<Rightarrow> \<exists>c'. fap_create junk sd t name c = Inr (if length fs = 1 then 0 else -1, c')
    | FDataout n \<Rightarrow> \<exists>c'. fap_create junk sd t name c = Inr (if n = 1 then 0 else -1, c')
    | _ \<Rightarrow> fap_create junk sd t name c = Inl (Fault NullDeref))"
proof -
  let ?c = "fap_sent sd (wire FAP (fap_msg t (fc_sid c) (fc_cid c) (fc_fsid c) (FCreate name 1))) c"
  let ?m = "transported junk FAP (fap_msg t (fc_sid c) (fc_cid c) (fc_fsid c) b)"
  have a: "\<exists>c'. fap_answer junk sd t ?c = Inr (Inr ?m, c')"
    using fap_answer_ok [of ?c sd t b cs junk] assms(3-6) by (simp add: fap_sent_def)
  have one: "n = 1 \<longleftrightarrow> nat (sint n) = 1" if "nat (sint n) = length (fs :: fileinfo_sect list)" for n :: u32 and fs
  proof
    assume "nat (sint n) = 1"
    then have "sint n = sint (1 :: u32)" by simp
    then show "n = 1" by (rule signed_word_eqI)
  qed simp
  show ?thesis
  proof (cases b)
    case (FFileinfo n fs)
    with assms(4) one [of n fs] a fap_create_sent [OF assms(1,2)] show ?thesis
      by (auto simp: fap_create_def FAP_OK_def)
  qed (use assms(3) a fap_create_sent [OF assms(1,2)] in \<open>auto simp: fap_create_def FAP_OK_def
    fap_types sec_access\<close>)
qed

text \<open>
  C34. \<open>fap_create\<close> takes the number of file infos in the answer for a response code: it reports
  success when the answer holds exactly one file info, and reads through NULL when the server
  answers with \<open>FAP_OK\<close>.
\<close>

theorem fap_create_result:
  assumes "length name < 2 ^ 29" and "out_ok (fc_net c) sd" and "fap_body_type b = FAP_RESPONSE"
    and "fap_body_valid b"
    and "complete_msg FAP (fap_msg t (fc_sid c) (fc_cid c) (fc_fsid c) b)"
    and "inq (fc_net c) sd = wire FAP (fap_msg t (fc_sid c) (fc_cid c) (fc_fsid c) b) # cs"
  shows "(case b of
      FFileinfo n fs \<Rightarrow> \<exists>c'. fap_create junk sd t name c = Inr (if length fs = 1 then 0 else -1, c')
    | FDataout n \<Rightarrow> \<exists>c'. fap_create junk sd t name c = Inr (if n = 1 then 0 else -1, c')
    | _ \<Rightarrow> fap_create junk sd t name c = Inl (Fault NullDeref))"
  using assms by (rule fap_create_answered)

theorem fap_create_result_witness:
  "fap_create (\<lambda>_. 0) 3 9 (cstr ''/a'')
      \<lparr>fc_sid = 1, fc_fsid = 2, fc_cid = 3, fc_datasd = 4, fc_server = [],
       fc_net = idle_net\<lparr>inq := \<lambda>_. [wire FAP (fap_msg 9 1 3 2 FOk)]\<rparr>\<rparr> = Inl (Fault NullDeref)"
  using fap_create_result [of "cstr ''/a''" "\<lparr>fc_sid = 1, fc_fsid = 2, fc_cid = 3, fc_datasd = 4,
      fc_server = [], fc_net = idle_net\<lparr>inq := \<lambda>_. [wire FAP (fap_msg 9 1 3 2 FOk)]\<rparr>\<rparr>"
      3 FOk 9 "[]" "\<lambda>_. 0"]
  by (simp add: complete_fap_msg length_wire_fap MSG_MAX_def)

lemma fap_create_created:
  assumes "length name < 2 ^ 29" and "out_ok (fc_net c) sd"
    and "complete_msg FAP (fap_msg t (fc_sid c) (fc_cid c) (fc_fsid c) (FFileinfo 1 [f]))"
    and "inq (fc_net c) sd = wire FAP (fap_msg t (fc_sid c) (fc_cid c) (fc_fsid c) (FFileinfo 1 [f])) # cs"
  shows "\<exists>c'. fap_create junk sd t name c = Inr (0, c') \<and>
    outq (fc_net c') sd = outq (fc_net c) sd @
      wire FAP (fap_msg t (fc_sid c) (fc_cid c) (fc_fsid c) (FCreate name 1))"
  using fap_create_sent [OF assms(1,2), of t] assms(3,4)
    fap_answer_ok [of "fap_sent sd (wire FAP (fap_msg t (fc_sid c) (fc_cid c) (fc_fsid c) (FCreate name 1))) c"
      sd t "FFileinfo 1 [f]" cs junk]
  by (simp add: fap_create_def fap_sent_def FAP_OK_def)

text \<open>Reading and writing a file, with the data connection in any pieces.\<close>

lemma sint_size: "n < 2 ^ 31 \<Longrightarrow> sint (of_nat n :: u32) = int n"
  by (subst sint_small) (simp_all add: unat_of_nat)

lemma fap_read_answered:
  assumes "length name < 2 ^ 29" and "out_ok (fc_net c) sd" and "sd \<noteq> fc_datasd c" and "sd \<noteq> 1"
    and "concat (inq (fc_net c) (fc_datasd c)) = content" and "length content < 2 ^ 31"
    and "inq (fc_net c) sd =
      wire FAP (fap_msg t (fc_sid c) (fc_cid c) (fc_fsid c) (FDataout (of_nat (length content)))) # cs"
    and "whole (out_wr (fc_net c) 1)"
  shows "\<exists>c'. fap_read_file junk sd t name c = Inr (0, c') \<and>
    outq (fc_net c') 1 = outq (fc_net c) 1 @ content \<and> concat (inq (fc_net c') (fc_datasd c)) = [] \<and>
    outq (fc_net c') sd = outq (fc_net c) sd @
      wire FAP (fap_msg t (fc_sid c) (fc_cid c) (fc_fsid c) (FRead name 0 0))"
proof -
  let ?q = "fap_msg t (fc_sid c) (fc_cid c) (fc_fsid c) (FRead name 0 0)"
  let ?b = "FDataout (of_nat (length content))" and ?c = "fap_sent sd (wire FAP ?q) c"
  have q: "fap_command sd t FAP_CMD_READ
      [(ST_STRING, DString (raw_of name)), (ST_INTEGER, DInteger 0), (ST_INTEGER, DInteger 0)] c = Inr ?c"
    by (rule fap_command_sent [OF _ complete_path_commands(4) [OF assms(1)] assms(2)])
      (use assms(1) in \<open>simp add: fap_msg_def\<close>)
  have "complete_msg FAP (fap_msg t (fc_sid c) (fc_cid c) (fc_fsid c) ?b)"
    by (simp add: complete_fap_msg length_wire_fap MSG_MAX_def)
  then have a: "fap_answer junk sd t ?c =
      Inr (Inr (transported junk FAP (fap_msg t (fc_sid c) (fc_cid c) (fc_fsid c) ?b)),
         ?c\<lparr>fc_net := (fc_net ?c)\<lparr>inq := (inq (fc_net ?c))(sd := [] # cs)\<rparr>\<rparr>)"
    using fap_answer_ok [of ?c sd t ?b cs junk] assms(7) by (simp add: fap_sent_def)
  obtain rx where "recvfile (out_wr (fc_net c) 1) (in_err (fc_net c) (fc_datasd c)) (inq (fc_net c) (fc_datasd c))
      (int (length content)) = Some (Inr (int (length content), content, rx))" "concat rx = []"
    using recvfile_exact [of "out_wr (fc_net c) 1" "in_err (fc_net c) (fc_datasd c)" "inq (fc_net c) (fc_datasd c)"]
      assms(8)
    unfolding assms(5) by blast
  with q a assms(3,4) sint_size [OF assms(6)] show ?thesis
    by (simp add: fap_read_file_def fap_sent_def sec_access)
qed

lemma fap_write_answered:
  assumes "length name < 2 ^ 29" and "out_ok (fc_net c) sd" and "out_ok (fc_net c) (fc_datasd c)"
    and "sd \<noteq> fc_datasd c"
    and "inq (fc_net c) sd = wire FAP (fap_msg t (fc_sid c) (fc_cid c) (fc_fsid c) FOk) # cs"
  shows "\<exists>c'. fap_write_file junk sd t name content c = Inr (0, c') \<and>
    outq (fc_net c') (fc_datasd c) = outq (fc_net c) (fc_datasd c) @ content \<and>
    outq (fc_net c') sd = outq (fc_net c) sd @
      wire FAP (fap_msg t (fc_sid c) (fc_cid c) (fc_fsid c) (FWrite name (of_nat (length content))))"
proof -
  let ?q = "fap_msg t (fc_sid c) (fc_cid c) (fc_fsid c) (FWrite name (of_nat (length content)))"
  let ?c1 = "fap_sent sd (wire FAP ?q) c"
  let ?c = "fap_sent (fc_datasd c) content ?c1"
  have q: "fap_command sd t FAP_CMD_WRITE [(ST_STRING, DString (raw_of name)),
      (ST_INTEGER, DInteger (of_nat (length content)))] c = Inr ?c1"
    by (rule fap_command_sent [OF _ complete_path_commands(3) [OF assms(1)] assms(2)])
      (use assms(1) in \<open>simp add: fap_msg_def\<close>)
  have "complete_msg FAP (fap_msg t (fc_sid c) (fc_cid c) (fc_fsid c) FOk)"
    by (simp add: complete_fap_msg length_wire_fap MSG_MAX_def)
  then have a: "fap_answer junk sd t ?c =
      Inr (Inr (transported junk FAP (fap_msg t (fc_sid c) (fc_cid c) (fc_fsid c) FOk)),
         ?c\<lparr>fc_net := (fc_net ?c)\<lparr>inq := (inq (fc_net ?c))(sd := [] # cs)\<rparr>\<rparr>)"
    using fap_answer_ok [of ?c sd t FOk cs junk] assms(5) by (simp add: fap_sent_def)
  with q assms(3,4) show ?thesis
    by (simp add: fap_write_file_def fap_sent_def sec_access)
qed

section \<open>The handshake\<close>

lemma fap_accept_hello:
  assumes "length host \<le> 255" and "length user \<le> 255" and "0 \<notin> set host" and "0 \<notin> set user"
    and "length sname \<le> 255"
    and "inq net (ci_sd info) = wire FAP (fap_msg t 0 0 0 (FHello host user)) # cs"
    and "out_ok net (ci_sd info)" and "0 \<le> dsd"
  shows "fap_accept junk sid fsid sname dsd info net =
    Inr (0, info\<lparr>ci_lasttid := t, ci_host := host, ci_user := user, ci_datasd := dsd\<rparr>,
         sent (ci_sd info) (wire FAP (fap_msg t sid (ci_id info) fsid (FHelloResponse sname (ci_dataport info))))
           (net\<lparr>inq := (inq net)(ci_sd info := [] # cs)\<rparr>))"
proof -
  let ?m = "fap_msg t 0 0 0 (FHello host user)"
  let ?r = "fap_msg t sid (ci_id info) fsid (FHelloResponse sname (ci_dataport info))"
  have "complete_msg FAP ?m" using assms(1,2) by (simp add: complete_fap_msg length_wire_fap MSG_MAX_def)
  note r = recv_wire [OF this assms(6), of junk]
  have "complete_msg FAP ?r" using assms(5) by (simp add: complete_fap_msg length_wire_fap MSG_MAX_def)
  note s = send_complete [OF this]
  have v: "fap_validate_sections (transported junk FAP ?m) = Inr 0" by (rule fap_msg_accepted) simp
  have dup: "SECSDUP (transported junk FAP ?m) 0 = Inr host" "SECSDUP (transported junk FAP ?m) (Suc 0) = Inr user"
    using assms(1-4) by (auto intro!: SECSDUP_str)
  have all: "add_all (fap_create_msg t sid (ci_id info) fsid FAP_HELLO_RESPONSE)
      [(ST_STRING, DString (raw_of sname)), (ST_INTEGER, DInteger (ci_dataport info))] = Inr ?r"
    using assms(5) by (simp add: fap_msg_def)
  have chk: "fap_check_response (Some (transported junk FAP ?m)) 0 0 0 0 0 = Inr 0"
    by (simp add: fap_check_response_def fap_types)
  show ?thesis
    using r s v all chk dup assms(7,8) by (simp add: fap_accept_def)
qed

lemma fap_open_response:
  assumes "length host \<le> 255" and "length user \<le> 255" and "length sname \<le> 255" and "0 \<notin> set sname"
    and "inq (fc_net c) sd = wire FAP (fap_msg t sid cid fsid (FHelloResponse sname port)) # cs"
    and "out_ok (fc_net c) sd" and "dataconn (ucast port) = Some dsd"
  shows "\<exists>c'. fap_open junk (Inr sd) t host (Some user) True dataconn c = Inr (sd, c') \<and>
    fc_sid c' = sid \<and> fc_cid c' = cid \<and> fc_fsid c' = fsid \<and> fc_server c' = sname \<and> fc_datasd c' = dsd \<and>
    outq (fc_net c') sd = outq (fc_net c) sd @ wire FAP (fap_msg t 0 0 0 (FHello host user))"
proof -
  let ?q = "fap_msg t 0 0 0 (FHello host user)" and ?r = "fap_msg t sid cid fsid (FHelloResponse sname port)"
  let ?c = "fap_sent sd (wire FAP ?q) c"
  have "complete_msg FAP ?q" using assms(1,2) by (simp add: complete_fap_msg length_wire_fap MSG_MAX_def)
  note q = fap_send_complete [OF this assms(6)]
  have all: "add_all (fap_create_msg t 0 0 0 FAP_HELLO)
      [(ST_STRING, DString (raw_of host)), (ST_STRING, DString (raw_of user))] = Inr ?q"
    using assms(1,2) by (simp add: fap_msg_def)
  have "complete_msg FAP ?r" using assms(3) by (simp add: complete_fap_msg length_wire_fap MSG_MAX_def)
  moreover have "inq (fc_net ?c) sd = wire FAP ?r # cs" using assms(5) by (simp add: fap_sent_def)
  ultimately have r: "fap_recv junk sd ?c = (Some (transported junk FAP ?r),
      ?c\<lparr>fc_net := (fc_net ?c)\<lparr>inq := (inq (fc_net ?c))(sd := [] # cs)\<rparr>\<rparr>)"
    by (simp add: fap_recv_def recv_wire)
  have v: "fap_validate_sections (transported junk FAP ?r) = Inr 0" by (rule fap_msg_accepted) simp
  have chk: "fap_check_response (Some (transported junk FAP ?r)) t 0 0 0 FAP_HELLO = Inr 0"
    by (simp add: fap_check_response_def fap_types)
  have dup: "SECSDUP (transported junk FAP ?r) 0 = Inr sname"
      "SECI (transported junk FAP ?r) (Suc 0) = Inr port"
    using assms(3,4) by (auto intro!: SECSDUP_str)
  show ?thesis
    using q r v chk all dup assms(7) by (simp add: fap_open_def fap_sent_def)
qed

text \<open>
  C33. Handshake of a client. When the hello of a client reaches the file server, \<open>fap_accept\<close>
  records its host and user and answers with the client's id, the server's name and a data port;
  and when that answer reaches the client, its \<open>fap_open\<close> has sent that hello, keeps the three ids
  and the name, and is connected to that port.
\<close>

theorem fap_handshake:
  assumes "length host \<le> 255" and "length user \<le> 255" and "0 \<notin> set host" and "0 \<notin> set user"
    and "length sname \<le> 255" and "0 \<notin> set sname"
    and "inq net (ci_sd info) = wire FAP (fap_msg t 0 0 0 (FHello host user)) # cs"
    and "out_ok net (ci_sd info)" and "0 \<le> dsd"
    and "inq (fc_net c) sd =
      wire FAP (fap_msg t sid (ci_id info) fsid (FHelloResponse sname (ci_dataport info))) # cs'"
    and "out_ok (fc_net c) sd" and "dataconn (ucast (ci_dataport info)) = Some cdsd"
  shows "(\<exists>net1. fap_accept junk sid fsid sname dsd info net =
      Inr (0, info\<lparr>ci_lasttid := t, ci_host := host, ci_user := user, ci_datasd := dsd\<rparr>, net1) \<and>
      outq net1 (ci_sd info) = outq net (ci_sd info) @
        wire FAP (fap_msg t sid (ci_id info) fsid (FHelloResponse sname (ci_dataport info)))) \<and>
    (\<exists>c'. fap_open junk' (Inr sd) t host (Some user) True dataconn c = Inr (sd, c') \<and>
      fc_sid c' = sid \<and> fc_cid c' = ci_id info \<and> fc_fsid c' = fsid \<and> fc_server c' = sname \<and>
      fc_datasd c' = cdsd \<and>
      outq (fc_net c') sd = outq (fc_net c) sd @ wire FAP (fap_msg t 0 0 0 (FHello host user)))"
  using fap_accept_hello [OF assms(1-5,7-9)]
    fap_open_response [OF assms(1,2,5,6,10,11), of dataconn cdsd junk'] assms(12) by simp

theorem fap_handshake_witness:
  "\<exists>c'. fap_open (\<lambda>_. 0) (Inr 3) 9 (cstr ''pc'') (Some (cstr ''me'')) True (\<lambda>p. Some 8)
      \<lparr>fc_sid = 0, fc_fsid = 0, fc_cid = 0, fc_datasd = 0, fc_server = [],
       fc_net = idle_net\<lparr>inq := \<lambda>_. [wire FAP (fap_msg 9 1 2 7 (FHelloResponse (cstr ''fs'') 40100))]\<rparr>\<rparr> =
     Inr (3, c') \<and> fc_cid c' = 2 \<and> fc_datasd c' = 8"
  using fap_handshake [of "cstr ''pc''" "cstr ''me''" "cstr ''fs''"
      "idle_net\<lparr>inq := \<lambda>_. [wire FAP (fap_msg 9 0 0 0 (FHello (cstr ''pc'') (cstr ''me'')))]\<rparr>"
      "\<lparr>ci_id = 2, ci_lasttid = 0, ci_sd = 5, ci_datasd = 0, ci_user = [], ci_host = [], ci_dataport = 40100\<rparr>"
      9 "[]" 6 "\<lparr>fc_sid = 0, fc_fsid = 0, fc_cid = 0, fc_datasd = 0, fc_server = [],
       fc_net = idle_net\<lparr>inq := \<lambda>_. [wire FAP (fap_msg 9 1 2 7 (FHelloResponse (cstr ''fs'') 40100))]\<rparr>\<rparr>"
      3 1 7 "[]" "\<lambda>p. Some 8" 8 "\<lambda>_. 0" "\<lambda>_. 0"]
  by auto

end
