(* ===== verification/Fsservd.thy ===== *)
theory Fsservd
  imports Fap_Conn Dcp_Conn Fctp
begin

text \<open>
  The file server (\<^verbatim>\<open>src/src/fsservd.c\<close>): its table of clients, the handling of their commands, and
  its requests to the directory server. It serves one client at a time. The random transaction ids
  are an argument \<open>rnd\<close>, the host names that \<open>fctp_connect\<close> resolves another, and the files are the
  \<open>host\<close> of \<open>Fctp\<close>. A file that exists can be read.
\<close>

section \<open>State\<close>

definition MAX_CLIENTS :: nat where "MAX_CLIENTS = 100"

definition FAP_DATAPORT_BASE :: u32 where "FAP_DATAPORT_BASE = 40100"

record fsrv =
  fs_dssd :: int
  fs_sid :: u64
  fs_fsid :: u64
  fs_lastcid :: u64
  fs_clicnt :: int
  fs_clients :: "client_info list"
  fs_dataloc :: bytes
  fs_host :: host
  fs_net :: netw

definition no_client :: client_info where
  "no_client = \<lparr>ci_id = 0, ci_lasttid = 0, ci_sd = 0, ci_datasd = 0, ci_user = [], ci_host = [],
     ci_dataport = 0\<rparr>"

definition client_at :: "fsrv \<Rightarrow> nat \<Rightarrow> client_info res" where
  "client_at s i =
     (if i < length (fs_clients s) then Inr (fs_clients s ! i) else Inl (Fault OutOfBounds))"

section \<open>Clients\<close>

definition nextcid :: "fsrv \<Rightarrow> u64 \<times> fsrv" where
  "nextcid s = (let cid = fs_lastcid s + 1 in (cid, s\<lparr>fs_lastcid := cid\<rparr>))"

text \<open>The loop over the table ends at \<open>MAX_CLIENTS\<close> when no entry is free.\<close>

fun free_client :: "client_info list \<Rightarrow> nat \<Rightarrow> nat" where
  "free_client [] i = i"
| "free_client (c # cs) i = (if ci_id c = 0 then i else free_client cs (Suc i))"

definition register_client :: "int \<Rightarrow> u64 \<Rightarrow> fsrv \<Rightarrow> int \<times> fsrv" where
  "register_client clisd cid s =
     (if cid = 0 \<or> fs_clicnt s > int MAX_CLIENTS then (-1, s)
      else
        let i = free_client (take MAX_CLIENTS (fs_clients s)) 0 in
        if i < MAX_CLIENTS
        then (int i, s\<lparr>fs_clients := (fs_clients s)[i := (fs_clients s ! i)\<lparr>ci_id := cid, ci_lasttid := 0,
                         ci_sd := clisd, ci_datasd := 0, ci_dataport := FAP_DATAPORT_BASE + of_nat i\<rparr>],
                       fs_clicnt := fs_clicnt s + 1\<rparr>)
        else (int i, s))"

text \<open>
  The part of a round of \<open>do_fap_server\<close> before \<open>serve_client\<close>, for a connection \<open>clisd\<close>; \<open>cid\<close> is
  the one id that the function draws before its loop. The result is the entry to serve, if any.
\<close>

definition fap_server_accept ::
  "(nat \<Rightarrow> u8) \<Rightarrow> int \<Rightarrow> u64 \<Rightarrow> bytes \<Rightarrow> int \<Rightarrow> fsrv \<Rightarrow> (nat option \<times> fsrv) res" where
  "fap_server_accept junk clisd cid host dsd s =
     (let (ret, s) = register_client clisd cid s in
      if ret < 0 then Inr (None, s)
      else
        let i = nat ret in
        rbind (client_at s i) (\<lambda>info.
        rbind (fap_accept junk (fs_sid s) (fs_fsid s) host dsd info (fs_net s)) (\<lambda>(ret, info, net).
        let s = s\<lparr>fs_clients := (fs_clients s)[i := info], fs_net := net\<rparr> in
        Inr (if ret < 0 then None else Some i, s))))"

section \<open>Messages out and in\<close>

definition srv_send :: "int \<Rightarrow> fsmsg \<Rightarrow> fsmsg_protocol \<Rightarrow> fsrv \<Rightarrow> fsrv res" where
  "srv_send sd m p s = rbind (fsmsg_send sd m p (fs_net s)) (\<lambda>(_, net). Inr (s\<lparr>fs_net := net\<rparr>))"

definition srv_recv :: "(nat \<Rightarrow> u8) \<Rightarrow> int \<Rightarrow> fsmsg_protocol \<Rightarrow> fsrv \<Rightarrow> fsmsg option \<times> fsrv" where
  "srv_recv junk sd p s = (let (m, net) = recv_msg junk sd p (fs_net s) in (m, s\<lparr>fs_net := net\<rparr>))"

definition srv_error :: "client_info \<Rightarrow> u64 \<Rightarrow> u32 \<Rightarrow> bytes \<Rightarrow> fsrv \<Rightarrow> fsrv res" where
  "srv_error info t errorn errstr s =
     rbind (fap_send_error (fs_sid s) (fs_fsid s) (ci_sd info) t (ci_id info) errorn errstr (fs_net s)) (\<lambda>net.
     Inr (s\<lparr>fs_net := net\<rparr>))"

text \<open>A response to the client in the entry \<open>info\<close>.\<close>

definition srv_respond :: "client_info \<Rightarrow> (u16 \<times> section_data) list \<Rightarrow> fsrv \<Rightarrow> fsrv res" where
  "srv_respond info ds s =
     rbind (add_all (fap_create_msg (ci_lasttid info) (fs_sid s) (ci_id info) (fs_fsid s) FAP_RESPONSE) ds) (\<lambda>m.
     srv_send (ci_sd info) m FAP s)"

text \<open>
  A request to the directory server: \<open>id0\<close> and \<open>id1\<close> are the ids as the code passes them.
\<close>

definition srv_ask :: "u64 \<Rightarrow> u64 \<Rightarrow> u64 \<Rightarrow> u16 \<Rightarrow> (u16 \<times> section_data) list \<Rightarrow> fsrv \<Rightarrow> fsrv res" where
  "srv_ask t id0 id1 ty ds s =
     rbind (add_all (dcp_create_msg t id0 id1 ty) ds) (\<lambda>m. srv_send (fs_dssd s) m DCP s)"

text \<open>\<open>dirmsg->sections[i]->data\<close>.\<close>

definition data_at :: "fsmsg \<Rightarrow> nat \<Rightarrow> section_data res" where
  "data_at m i = rbind (sec_at m i) (\<lambda>s. Inr (sec_data s))"

fun data_range :: "fsmsg \<Rightarrow> nat \<Rightarrow> nat \<Rightarrow> (u16 \<times> section_data) list res" where
  "data_range m i 0 = Inr []"
| "data_range m i (Suc k) =
     rbind (data_at m i) (\<lambda>d. rbind (data_range m (Suc i) k) (\<lambda>ds. Inr ((ST_FILEINFO, d) # ds)))"

section \<open>Commands\<close>

definition list_directory :: "(nat \<Rightarrow> u8) \<Rightarrow> u64 \<Rightarrow> nat \<Rightarrow> u32 \<Rightarrow> bytes \<Rightarrow> u32 \<Rightarrow> fsrv \<Rightarrow> fsrv res" where
  "list_directory junk t i recurse path pathlen s =
     rbind (client_at s i) (\<lambda>info.
     rbind (srv_ask t (fs_fsid s) (fs_sid s) DCP_READ
        [(ST_INTEGER, DInteger recurse), (ST_STRING, DString \<lparr>rs_length = pathlen, rs_data = path\<rparr>)] s) (\<lambda>s.
     let (resp, s) = srv_recv junk (fs_dssd s) DCP s in
     rbind (dcp_check_response resp t (fs_sid s) (fs_fsid s) DCP_READ) (\<lambda>ret.
     if ret < 0 then Inr s
     else case resp of
       None \<Rightarrow> Inl (Fault NullDeref)
     | Some m \<Rightarrow>
         rbind (dcp_validate_sections m) (\<lambda>ret.
         if ret < 0 then Inr s
         else
           rbind (data_at m 0) (\<lambda>d0.
           rbind (SECI m 0) (\<lambda>n.
           rbind (data_range m 1 (nat (sint n))) (\<lambda>ds.
           srv_respond info ((ST_INTEGER, DInteger FAP_FILEINFO) # (ST_INTEGER, d0) # ds) s)))))))"

text \<open>The file info of a path and user in a request: the rest of the union was cleared.\<close>

definition path_info :: "bytes \<Rightarrow> bytes \<Rightarrow> fileinfo_sect" where
  "path_info path user = \<lparr>fi_type = 0, fi_pad = 0, fi_pathlen = of_nat (length path), fi_path = path,
     fi_usernamelen = of_nat (length user), fi_username = user, fi_modified = 0, fi_size = 0,
     fi_replicas = 0\<rparr>"

definition create_file :: "(nat \<Rightarrow> u8) \<Rightarrow> u64 \<Rightarrow> nat \<Rightarrow> bytes \<Rightarrow> fsrv \<Rightarrow> fsrv res" where
  "create_file junk t i path s =
     rbind (client_at s i) (\<lambda>info.
     rbind (srv_ask t (fs_fsid s) (fs_sid s) DCP_CREATE
        [(ST_FILEINFO, DFileinfo (path_info path (ci_user info)))] s) (\<lambda>s.
     let (resp, s) = srv_recv junk (fs_dssd s) DCP s in
     rbind (dcp_check_response resp t (fs_sid s) (fs_fsid s) DCP_CREATE) (\<lambda>ret.
     case resp of
       None \<Rightarrow> Inr s
     | Some m \<Rightarrow>
         rbind (if ret = -5 then rbind (SECI m 0) (\<lambda>e. Inr (e = ERR_EXISTS)) else Inr False) (\<lambda>exists.
         if exists then srv_error info (ci_lasttid info) ERR_EXISTS (cstr ''file already exists'') s
         else if ret < 0 then Inr s
         else
           rbind (dcp_validate_sections m) (\<lambda>ret.
           if ret < 0 then Inr s
           else
             rbind (SECI m 0) (\<lambda>n.
             case open_create (fs_host s) (local_path (fs_dataloc s) path) of
               None \<Rightarrow> Inl Exit
             | Some hs \<Rightarrow>
                 let s = s\<lparr>fs_host := hs\<rparr> in
                 rbind (data_at m 0) (\<lambda>d0.
                 rbind (data_at m 1) (\<lambda>d1.
                 srv_respond info [(ST_INTEGER, DInteger FAP_FILEINFO), (ST_INTEGER, d0), (ST_FILEINFO, d1)] s))))))))"

definition write_file :: "(nat \<Rightarrow> u8) \<Rightarrow> u64 \<Rightarrow> nat \<Rightarrow> bytes \<Rightarrow> u32 \<Rightarrow> fsrv \<Rightarrow> fsrv res" where
  "write_file junk t i path len s =
     rbind (client_at s i) (\<lambda>info.
     rbind (srv_ask t (fs_fsid s) (fs_sid s) DCP_UPDATE
        [(ST_FILEINFO, DFileinfo (path_info path (ci_user info)))] s) (\<lambda>s.
     let (resp, s) = srv_recv junk (fs_dssd s) DCP s in
     rbind (dcp_check_response resp t (fs_sid s) (fs_fsid s) DCP_UPDATE) (\<lambda>ret.
     case resp of
       None \<Rightarrow> Inr s
     | Some m \<Rightarrow>
         if ret = -5 then
           rbind (SECI m 0) (\<lambda>e. srv_error info (ci_lasttid info) e (cstr ''error'') s)
         else if ret < 0 then Inr s
         else
           rbind (dcp_validate_sections m) (\<lambda>ret.
           if ret < 0 then Inr s
           else
             rbind (SECI m 0) (\<lambda>n.
             case open_create (fs_host s) (local_path (fs_dataloc s) path) of
               None \<Rightarrow> Inl Exit
             | Some hs \<Rightarrow>
                 (case recvfile (hs_wr hs) (in_err (fs_net s) (ci_datasd info)) (inq (fs_net s) (ci_datasd info)) (sint len) of
                    None \<Rightarrow> Inl Diverge
                  | Some r \<Rightarrow>
                      rbind r (\<lambda>(ret, out, rx).
                      if ret < 0 then Inl Exit
                      else
                        let net = (fs_net s)\<lparr>inq := (inq (fs_net s))(ci_datasd info := rx)\<rparr>;
                            hs = write_start hs (local_path (fs_dataloc s) path) out;
                            s = s\<lparr>fs_host := hs, fs_net := net\<rparr> in
                        srv_respond info [(ST_INTEGER, DInteger FAP_OK)] s)))))))"

text \<open>
  \<open>ask_file\<close> sends the cleared union as the path. The replies name hosts, which are asked in turn
  until one returns something; \<open>connect\<close> is the descriptor \<open>fctp_connect\<close> gives for a name, \<open>t2\<close> the
  transaction ids of the transfers.
\<close>

fun try_replicas ::
  "(nat \<Rightarrow> u8) \<Rightarrow> (bytes \<Rightarrow> int) \<Rightarrow> (nat \<Rightarrow> u64) \<Rightarrow> fsmsg \<Rightarrow> nat \<Rightarrow> nat \<Rightarrow> bytes \<Rightarrow> fsrv \<Rightarrow> fsrv res" where
  "try_replicas junk connect rnd m i 0 path s = Inr s"
| "try_replicas junk connect rnd m i (Suc k) path s =
     rbind (SECSDUP m i) (\<lambda>h.
     rbind (fctp_get_file junk (connect h) (rnd i) (fs_sid s) (fs_fsid s) path (fs_dataloc s)
              (fs_host s) (fs_net s)) (\<lambda>(r, hs, net).
     let s = s\<lparr>fs_host := hs, fs_net := net\<rparr> in
     if r \<noteq> 0 then Inr s else try_replicas junk connect rnd m (Suc i) k path s))"

definition ask_file ::
  "(nat \<Rightarrow> u8) \<Rightarrow> (bytes \<Rightarrow> int) \<Rightarrow> (nat \<Rightarrow> u64) \<Rightarrow> bytes \<Rightarrow> fsrv \<Rightarrow> fsrv res" where
  "ask_file junk connect rnd path s =
     rbind (srv_ask (rnd 0) (fs_sid s) (fs_fsid s) DCP_GET_REPLICAS
        [(ST_STRING, DString (raw_of []))] s) (\<lambda>s.
     let (resp, s) = srv_recv junk (fs_dssd s) DCP s in
     rbind (dcp_check_response resp (rnd 0) (fs_sid s) (fs_fsid s) DCP_GET_REPLICAS) (\<lambda>ret.
     if ret < 0 then Inr s
     else case resp of
       None \<Rightarrow> Inl (Fault NullDeref)
     | Some m \<Rightarrow>
         rbind (dcp_validate_sections m) (\<lambda>ret.
         if ret < 0 then Inr s
         else rbind (SECI m 0) (\<lambda>n. try_replicas junk connect rnd m 1 (nat (sint n)) path s))))"

text \<open>
  \<open>sendfile\<close>: one call transfers at most \<open>SENDFILE_MAX\<close> bytes and may transfer fewer. Its result is
  not looked at, so the rest of the file is not sent.
\<close>

definition SENDFILE_MAX :: int where "SENDFILE_MAX = 0x7ffff000"

definition sendfile_bytes :: "int \<Rightarrow> bytes \<Rightarrow> netw \<Rightarrow> bytes" where
  "sendfile_bytes sd content net =
     (if out_ok net sd then take (nat (min SENDFILE_MAX (out_wr net sd 0 (length content)))) content else [])"

definition send_file :: "int \<Rightarrow> bytes \<Rightarrow> fsrv \<Rightarrow> fsrv" where
  "send_file sd content s = s\<lparr>fs_net := sent sd (sendfile_bytes sd content (fs_net s)) (fs_net s)\<rparr>"

lemma sendfile_whole:
  assumes "whole (out_wr net sd)" and "int (length content) \<le> SENDFILE_MAX" and "out_ok net sd"
  shows "sendfile_bytes sd content net = content"
  using assms(1) [unfolded whole_def, rule_format, of "length content" 0] assms(2,3)
  by (simp add: sendfile_bytes_def)

lemma sendfile_bytes_sent [simp]:
  "sendfile_bytes sd content (sent sd' b net) = sendfile_bytes sd content net"
  "sendfile_bytes sd content (net\<lparr>inq := q\<rparr>) = sendfile_bytes sd content net"
  by (simp_all add: sendfile_bytes_def)

definition serve_file ::
  "(nat \<Rightarrow> u8) \<Rightarrow> (bytes \<Rightarrow> int) \<Rightarrow> (nat \<Rightarrow> u64) \<Rightarrow> nat \<Rightarrow> bytes \<Rightarrow> fsrv \<Rightarrow> fsrv res" where
  "serve_file junk connect rnd i path s =
     rbind (client_at s i) (\<lambda>info.
     let lp = local_path (fs_dataloc s) path in
     rbind (if hs_files (fs_host s) lp = None then ask_file junk connect rnd path s else Inr s) (\<lambda>s.
     case hs_files (fs_host s) lp of
       None \<Rightarrow> Inl Exit
     | Some content \<Rightarrow>
         rbind (srv_respond info [(ST_INTEGER, DInteger FAP_DATAOUT),
                  (ST_INTEGER, DInteger (of_nat (length content)))] s) (\<lambda>s.
         Inr (send_file (ci_datasd info) content s))))"

section \<open>The loop over a client's messages\<close>

definition srv_command ::
  "(nat \<Rightarrow> u8) \<Rightarrow> (bytes \<Rightarrow> int) \<Rightarrow> (nat \<Rightarrow> u64) \<Rightarrow> nat \<Rightarrow> fsmsg \<Rightarrow> fsrv \<Rightarrow> fsrv res" where
  "srv_command junk connect rnd i m s =
     rbind (SECI m 0) (\<lambda>c.
     let cmd = (ucast (ucast c :: u16) :: u32) in
     if cmd = FAP_CMD_CREATE then rbind (SECSDUP m 1) (\<lambda>p. create_file junk (rnd 0) i p s)
     else if cmd = FAP_CMD_READ then rbind (SECSDUP m 1) (\<lambda>p. serve_file junk connect rnd i p s)
     else if cmd = FAP_CMD_WRITE then
       rbind (SECSDUP m 1) (\<lambda>p. rbind (SECI m 2) (\<lambda>n. write_file junk (rnd 0) i p n s))
     else if cmd = FAP_CMD_LIST then
       rbind (SECI m 1) (\<lambda>r. rbind (SECS m 2) (\<lambda>p.
         list_directory junk (rnd 0) i r (rs_data p) (rs_length p) s))
     else Inr s)"

text \<open>One round of \<open>serve_client\<close>; the result is false when the function returns.\<close>

definition serve_client_round ::
  "(nat \<Rightarrow> u8) \<Rightarrow> (bytes \<Rightarrow> int) \<Rightarrow> (nat \<Rightarrow> u64) \<Rightarrow> nat \<Rightarrow> fsrv \<Rightarrow> (bool \<times> fsrv) res" where
  "serve_client_round junk connect rnd i s =
     rbind (client_at s i) (\<lambda>info.
     let (msg, s) = srv_recv junk (ci_sd info) FAP s in
     case msg of
       None \<Rightarrow> Inr (False, s)
     | Some m \<Rightarrow>
         rbind (fap_validate_sections m) (\<lambda>ret.
         if ret < 0 then rbind (srv_error info (tid m) ERR_MSG [] s) (\<lambda>s. Inr (True, s))
         else
           let info = info\<lparr>ci_lasttid := tid m\<rparr>;
               s = s\<lparr>fs_clients := (fs_clients s)[i := info]\<rparr> in
           if msg_type m = FAP_QUIT then
             rbind (fap_send_ok (fs_sid s) (fs_fsid s) (ci_sd info) (tid m) (ci_id info) (fs_net s)) (\<lambda>net.
             Inr (False, s\<lparr>fs_net := net,
                            fs_clients := (fs_clients s)[i := info\<lparr>ci_id := 0, ci_sd := 0\<rparr>]\<rparr>))
           else if msg_type m = FAP_COMMAND then
             rbind (srv_command junk connect rnd i m s) (\<lambda>s. Inr (True, s))
           else Inr (True, s)))"

section \<open>Exchanges\<close>

definition srv_sent :: "int \<Rightarrow> bytes \<Rightarrow> fsrv \<Rightarrow> fsrv" where
  "srv_sent sd b s = s\<lparr>fs_net := sent sd b (fs_net s)\<rparr>"

text \<open>The state after the first piece of the stream of \<open>sd\<close> has been read, with \<open>cs\<close> to come.\<close>

definition srv_taken :: "int \<Rightarrow> stream \<Rightarrow> fsrv \<Rightarrow> fsrv" where
  "srv_taken sd cs s = s\<lparr>fs_net := (fs_net s)\<lparr>inq := (inq (fs_net s))(sd := [] # cs)\<rparr>\<rparr>"

lemma srv_simps [simp]:
  "fs_net (srv_sent sd b s) = sent sd b (fs_net s)"
  "fs_net (srv_taken sd cs s) = (fs_net s)\<lparr>inq := (inq (fs_net s))(sd := [] # cs)\<rparr>"
  "fs_sid (srv_sent sd b s) = fs_sid s" "fs_sid (srv_taken sd cs s) = fs_sid s"
  "fs_fsid (srv_sent sd b s) = fs_fsid s" "fs_fsid (srv_taken sd cs s) = fs_fsid s"
  "fs_dssd (srv_sent sd b s) = fs_dssd s" "fs_dssd (srv_taken sd cs s) = fs_dssd s"
  "fs_clients (srv_sent sd b s) = fs_clients s" "fs_clients (srv_taken sd cs s) = fs_clients s"
  "fs_host (srv_sent sd b s) = fs_host s" "fs_host (srv_taken sd cs s) = fs_host s"
  "fs_dataloc (srv_sent sd b s) = fs_dataloc s" "fs_dataloc (srv_taken sd cs s) = fs_dataloc s"
  by (simp_all add: srv_sent_def srv_taken_def)

lemma srv_send_complete:
  "complete_msg p m \<Longrightarrow> out_ok (fs_net s) sd \<Longrightarrow> srv_send sd m p s = Inr (srv_sent sd (wire p m) s)"
  by (simp add: srv_send_def send_complete srv_sent_def)

lemma srv_recv_wire:
  "complete_msg p m \<Longrightarrow> inq (fs_net s) sd = wire p m # cs \<Longrightarrow>
     srv_recv junk sd p s = (Some (transported junk p m), srv_taken sd cs s)"
  by (simp add: srv_recv_def recv_wire srv_taken_def)

lemma srv_ask_sent:
  "add_all (dcp_create_msg t a b ty) ds = Inr (dcp_msg t a b body) \<Longrightarrow>
   complete_msg DCP (dcp_msg t a b body) \<Longrightarrow> out_ok (fs_net s) (fs_dssd s) \<Longrightarrow>
     srv_ask t a b ty ds s = Inr (srv_sent (fs_dssd s) (wire DCP (dcp_msg t a b body)) s)"
  by (simp add: srv_ask_def srv_send_complete)

lemma srv_respond_sent:
  "add_all (fap_create_msg (ci_lasttid info) (fs_sid s) (ci_id info) (fs_fsid s) FAP_RESPONSE) ds =
     Inr (fap_msg (ci_lasttid info) (fs_sid s) (ci_id info) (fs_fsid s) body) \<Longrightarrow>
   complete_msg FAP (fap_msg (ci_lasttid info) (fs_sid s) (ci_id info) (fs_fsid s) body) \<Longrightarrow>
   out_ok (fs_net s) (ci_sd info) \<Longrightarrow>
     srv_respond info ds s = Inr (srv_sent (ci_sd info)
       (wire FAP (fap_msg (ci_lasttid info) (fs_sid s) (ci_id info) (fs_fsid s) body)) s)"
  by (simp add: srv_respond_def srv_send_complete)

text \<open>The answers of the directory server that a request of the file server lets through.\<close>

lemma dcp_fileinfo_checked:
  "ty \<in> {DCP_READ, DCP_CREATE, DCP_UPDATE} \<Longrightarrow>
     dcp_check_response (Some (transported junk DCP (dcp_msg t a b (DFileinfos n fs)))) t a b ty = Inr 0"
  by (auto simp: dcp_check_response_def dcp_types)

lemma add_all_infos:
  "list_all fileinfo_ok gs \<Longrightarrow>
     add_all m (map (\<lambda>f. (ST_FILEINFO, DFileinfo f)) gs) =
       Inr (m\<lparr>sections := sections m @ map fi_sec gs @ [end_sec]\<rparr>)"
proof (induction gs arbitrary: m)
  case Nil
  then show ?case by simp
next
  case (Cons g gs)
  then show ?case by simp
qed

lemma data_range_infos:
  "sections m = xs @ map fi_sec gs \<Longrightarrow>
     data_range m (length xs) (length gs) = Inr (map (\<lambda>f. (ST_FILEINFO, DFileinfo f)) gs)"
proof (induction gs arbitrary: xs)
  case Nil
  then show ?case by simp
next
  case (Cons g gs)
  from Cons.prems have "data_at m (length xs) = Inr (DFileinfo g)"
    by (simp add: data_at_def sec_at_def fi_sec_def)
  moreover from Cons.prems have "data_range m (length (xs @ [fi_sec g])) (length gs) =
      Inr (map (\<lambda>f. (ST_FILEINFO, DFileinfo f)) gs)"
    by (intro Cons.IH) simp_all
  ultimately show ?case by simp
qed

section \<open>Listing a directory\<close>

lemma list_directory_forwards:
  fixes s :: fsrv and t :: u64 and r :: u32 and path :: bytes and fs :: "fileinfo_sect list" and junk :: "nat \<Rightarrow> u8"
  defines "q \<equiv> wire DCP (dcp_msg t (fs_fsid s) (fs_sid s) (DRead r path))"
    and "gs \<equiv> map (fi_pad_update (\<lambda>_. fresh_pad junk)) fs"
  assumes "i < length (fs_clients s)" and "info = fs_clients s ! i"
    and "length path < 2 ^ 29" and "length fs < 2 ^ 31" and "list_all fi_receivable fs"
    and "inq (fs_net s) (fs_dssd s) =
      wire DCP (dcp_msg t (fs_sid s) (fs_fsid s) (DFileinfos (of_nat (length fs)) fs)) # cs"
    and "complete_msg DCP (dcp_msg t (fs_sid s) (fs_fsid s) (DFileinfos (of_nat (length fs)) fs))"
    and "complete_msg FAP (fap_msg (ci_lasttid info) (fs_sid s) (ci_id info) (fs_fsid s)
      (FFileinfo (of_nat (length fs)) gs))"
    and "out_ok (fs_net s) (fs_dssd s)" and "out_ok (fs_net s) (ci_sd info)"
  shows "list_directory junk t i r path (of_nat (length path)) s =
    Inr (srv_sent (ci_sd info)
      (wire FAP (fap_msg (ci_lasttid info) (fs_sid s) (ci_id info) (fs_fsid s) (FFileinfo (of_nat (length fs)) gs)))
      (srv_taken (fs_dssd s) cs (srv_sent (fs_dssd s) q s)))"
proof -
  let ?b = "DFileinfos (of_nat (length fs)) fs"
  let ?m = "transported junk DCP (dcp_msg t (fs_sid s) (fs_fsid s) ?b)"
  let ?s1 = "srv_sent (fs_dssd s) q s" and ?s2 = "srv_taken (fs_dssd s) cs (srv_sent (fs_dssd s) q s)"
  have ask: "srv_ask t (fs_fsid s) (fs_sid s) DCP_READ [(ST_INTEGER, DInteger r),
      (ST_STRING, DString \<lparr>rs_length = of_nat (length path), rs_data = path\<rparr>)] s = Inr ?s1"
    unfolding q_def
    by (rule srv_ask_sent [OF _ complete_dcp_paths(1) [OF assms(5)] assms(11)])
      (use assms(5) in \<open>simp add: dcp_msg_def raw_of_def [symmetric]\<close>)
  have rcv: "srv_recv junk (fs_dssd s) DCP ?s1 = (Some ?m, ?s2)"
    using assms(8,9) by (intro srv_recv_wire) simp_all
  have n: "nat (sint (of_nat (length fs) :: u32)) = length fs"
    using assms(6) by (subst sint_small) (simp_all add: unat_of_nat)
  have v: "dcp_validate_sections ?m = Inr 0" by (rule dcp_msg_accepted) (simp add: n)
  have secs: "sections ?m = [int_sec (of_nat (length fs))] @ map fi_sec gs"
    by (simp add: gs_def)
  then have d: "data_at ?m 0 = Inr (DInteger (of_nat (length fs)))" "SECI ?m 0 = Inr (of_nat (length fs))"
    by (simp_all add: data_at_def sec_at_def int_sec_def SECI_def)
  have l: "length gs = length fs" by (simp add: gs_def)
  have "list_all fileinfo_ok gs"
    using assms(7) by (auto simp: gs_def list_all_iff fi_receivable_def fileinfo_ok_def)
  then have all: "add_all (fap_create_msg (ci_lasttid info) (fs_sid s) (ci_id info) (fs_fsid s) FAP_RESPONSE)
     ((ST_INTEGER, DInteger FAP_FILEINFO) # (ST_INTEGER, DInteger (of_nat (length fs))) #
        map (\<lambda>f. (ST_FILEINFO, DFileinfo f)) gs) =
     Inr (fap_msg (ci_lasttid info) (fs_sid s) (ci_id info) (fs_fsid s) (FFileinfo (of_nat (length fs)) gs))"
    by (simp add: add_all_infos fap_msg_def)
  have resp: "srv_respond info ((ST_INTEGER, DInteger FAP_FILEINFO) # (ST_INTEGER, DInteger (of_nat (length fs))) #
        map (\<lambda>f. (ST_FILEINFO, DFileinfo f)) gs) ?s2 =
    Inr (srv_sent (ci_sd info) (wire FAP (fap_msg (ci_lasttid info) (fs_sid s) (ci_id info) (fs_fsid s)
      (FFileinfo (of_nat (length fs)) gs))) ?s2)"
    using srv_respond_sent [of info ?s2] all assms(10,12) by simp
  show ?thesis
    using ask rcv v d data_range_infos [OF secs] n l resp assms(3,4)
    by (simp add: list_directory_def client_at_def dcp_fileinfo_checked)
qed

section \<open>A round on a command of the protocol\<close>

text \<open>The state in which the command \<open>t\<close> of the client in entry \<open>i\<close> is handled.\<close>

definition srv_heard :: "nat \<Rightarrow> u64 \<Rightarrow> stream \<Rightarrow> fsrv \<Rightarrow> fsrv" where
  "srv_heard i t cs s = (srv_taken (ci_sd (fs_clients s ! i)) cs s)
     \<lparr>fs_clients := (fs_clients s)[i := (fs_clients s ! i)\<lparr>ci_lasttid := t\<rparr>]\<rparr>"

lemma srv_heard_simps [simp]:
  "fs_net (srv_heard i t cs s) =
     (fs_net s)\<lparr>inq := (inq (fs_net s))(ci_sd (fs_clients s ! i) := [] # cs)\<rparr>"
  "fs_sid (srv_heard i t cs s) = fs_sid s" "fs_fsid (srv_heard i t cs s) = fs_fsid s"
  "fs_dssd (srv_heard i t cs s) = fs_dssd s" "fs_host (srv_heard i t cs s) = fs_host s"
  "fs_dataloc (srv_heard i t cs s) = fs_dataloc s"
  "fs_clients (srv_heard i t cs s) = (fs_clients s)[i := (fs_clients s ! i)\<lparr>ci_lasttid := t\<rparr>]"
  by (simp_all add: srv_heard_def)

lemma client_heard [simp]:
  "i < length (fs_clients s) \<Longrightarrow>
     client_at (srv_heard i t cs s) i = Inr ((fs_clients s ! i)\<lparr>ci_lasttid := t\<rparr>)"
  by (simp add: client_at_def)

lemma serve_client_command:
  assumes "i < length (fs_clients s)"
    and "inq (fs_net s) (ci_sd (fs_clients s ! i)) = wire FAP (fap_msg t a b c body) # cs"
    and "complete_msg FAP (fap_msg t a b c body)" and "fap_body_type body = FAP_COMMAND"
    and "fap_body_valid body"
  shows "serve_client_round junk connect rnd i s =
    rbind (srv_command junk connect rnd i (transported junk FAP (fap_msg t a b c body)) (srv_heard i t cs s))
      (\<lambda>s. Inr (True, s))"
  using srv_recv_wire [OF assms(3,2), of junk] fap_msg_accepted [OF assms(5)] assms(1,4)
  by (simp add: serve_client_round_def client_at_def fap_types srv_heard_def)

lemma listing_fits:
  assumes "complete_msg FAP (fap_msg t s c f (FFileinfo n fs))"
  shows "complete_msg DCP (dcp_msg t' s' f' (DFileinfos n fs))"
    and "complete_msg FAP (fap_msg t s c f (FFileinfo n (map (fi_pad_update (\<lambda>_. p)) fs)))"
proof -
  have sz: "map section_size (map fi_sec (map (fi_pad_update (\<lambda>_. p)) fs)) = map section_size (map fi_sec fs)"
    by simp
  from assms show "complete_msg DCP (dcp_msg t' s' f' (DFileinfos n fs))"
    by (simp add: complete_fap_msg complete_dcp_msg length_wire_fap length_wire_dcp)
  from assms sz show "complete_msg FAP (fap_msg t s c f (FFileinfo n (map (fi_pad_update (\<lambda>_. p)) fs)))"
    by (auto simp: complete_fap_msg length_wire_fap list_all_iff fi_receivable_def fileinfo_ok_def comp_def)
qed

lemma serve_list_answers:
  assumes "i < length (fs_clients s)" and "info = fs_clients s ! i" and "ci_sd info \<noteq> fs_dssd s"
    and "inq (fs_net s) (ci_sd info) = wire FAP (fap_msg t a b c (FList r path)) # cs"
    and "length path < 2 ^ 29" and "length fs < 2 ^ 31" and "list_all fi_receivable fs"
    and "inq (fs_net s) (fs_dssd s) =
      wire DCP (dcp_msg (rnd 0) (fs_sid s) (fs_fsid s) (DFileinfos (of_nat (length fs)) fs)) # ds"
    and "complete_msg FAP (fap_msg t (fs_sid s) (ci_id info) (fs_fsid s) (FFileinfo (of_nat (length fs)) fs))"
    and "out_ok (fs_net s) (fs_dssd s)" and "out_ok (fs_net s) (ci_sd info)"
  shows "\<exists>s'. serve_client_round junk connect rnd i s = Inr (True, s') \<and>
    outq (fs_net s') (fs_dssd s) = outq (fs_net s) (fs_dssd s) @
      wire DCP (dcp_msg (rnd 0) (fs_fsid s) (fs_sid s) (DRead r path)) \<and>
    outq (fs_net s') (ci_sd info) = outq (fs_net s) (ci_sd info) @
      wire FAP (fap_msg t (fs_sid s) (ci_id info) (fs_fsid s)
        (FFileinfo (of_nat (length fs)) (map (fi_pad_update (\<lambda>_. fresh_pad junk)) fs)))"
proof -
  let ?m = "transported junk FAP (fap_msg t a b c (FList r path))" and ?s = "srv_heard i t cs s"
  have round: "serve_client_round junk connect rnd i s =
      rbind (srv_command junk connect rnd i ?m ?s) (\<lambda>s. Inr (True, s))"
    using assms(1,2,4) complete_path_commands(1) [OF assms(5)] by (intro serve_client_command) simp_all
  have cmd: "srv_command junk connect rnd i ?m ?s =
      list_directory junk (rnd 0) i r path (of_nat (length path)) ?s"
    by (simp add: srv_command_def sec_access fap_commands raw_of_def)
  note fits = listing_fits [OF assms(9)]
  show ?thesis
    using round cmd list_directory_forwards [of i ?s "info\<lparr>ci_lasttid := t\<rparr>" path fs "rnd 0" ds junk r]
      assms fits by simp
qed

section \<open>Serving a file\<close>

lemma add_all_dataout:
  "add_all (fap_create_msg t s c f FAP_RESPONSE) [(ST_INTEGER, DInteger FAP_DATAOUT), (ST_INTEGER, DInteger n)] =
     Inr (fap_msg t s c f (FDataout n))"
  by (simp add: fap_msg_def)

text \<open>A file that is in the data location goes out on the data connection, after its size.\<close>

lemma serve_read_local:
  assumes "i < length (fs_clients s)" and "info = fs_clients s ! i" and "ci_sd info \<noteq> ci_datasd info"
    and "inq (fs_net s) (ci_sd info) = wire FAP (fap_msg t a b c (FRead path k n)) # cs"
    and "length path < 2 ^ 29" and "0 \<notin> set path"
    and "hs_files (fs_host s) (local_path (fs_dataloc s) path) = Some content"
    and "out_ok (fs_net s) (ci_sd info)"
  shows "\<exists>s'. serve_client_round junk connect rnd i s = Inr (True, s') \<and> fs_host s' = fs_host s \<and>
    outq (fs_net s') (ci_sd info) = outq (fs_net s) (ci_sd info) @
      wire FAP (fap_msg t (fs_sid s) (ci_id info) (fs_fsid s) (FDataout (of_nat (length content)))) \<and>
    outq (fs_net s') (ci_datasd info) = outq (fs_net s) (ci_datasd info) @
      sendfile_bytes (ci_datasd info) content (fs_net s)"
proof -
  let ?m = "transported junk FAP (fap_msg t a b c (FRead path k n))" and ?s = "srv_heard i t cs s"
  let ?r = "fap_msg t (fs_sid s) (ci_id info) (fs_fsid s) (FDataout (of_nat (length content)))"
  have round: "serve_client_round junk connect rnd i s =
      rbind (srv_command junk connect rnd i ?m ?s) (\<lambda>s. Inr (True, s))"
    using assms(1,2,4) complete_path_commands(4) [OF assms(5)] by (intro serve_client_command) simp_all
  have "SECSDUP ?m 1 = Inr path" using assms(5,6) by (intro SECSDUP_str) auto
  then have cmd: "srv_command junk connect rnd i ?m ?s = serve_file junk connect rnd i path ?s"
    by (simp add: srv_command_def sec_access fap_commands)
  have "complete_msg FAP ?r" by (simp add: complete_fap_msg length_wire_fap MSG_MAX_def)
  then have "srv_respond (info\<lparr>ci_lasttid := t\<rparr>) [(ST_INTEGER, DInteger FAP_DATAOUT),
      (ST_INTEGER, DInteger (of_nat (length content)))] ?s = Inr (srv_sent (ci_sd info) (wire FAP ?r) ?s)"
    using srv_respond_sent [of "info\<lparr>ci_lasttid := t\<rparr>" ?s _ "FDataout (of_nat (length content))",
        OF add_all_dataout] assms(8) by simp
  with round cmd assms(1,2,3,7) show ?thesis by (simp add: serve_file_def send_file_def)
qed


text \<open>A file server with one client, for concrete runs.\<close>

definition one_client :: "netw \<Rightarrow> fsrv" where
  "one_client net = \<lparr>fs_dssd = 4, fs_sid = 1, fs_fsid = 2, fs_lastcid = 2, fs_clicnt = 1,
     fs_clients = [no_client\<lparr>ci_id := 2, ci_sd := 5, ci_datasd := 6, ci_user := cstr ''me''\<rparr>],
     fs_dataloc = cstr ''/d'',
     fs_host = \<lparr>hs_files = [cstr ''/d/a'' \<mapsto> cstr ''hi''], hs_creatable = \<lambda>_. True, hs_writable = \<lambda>_. True,
       hs_wr = \<lambda>_. int\<rparr>,
     fs_net = net\<rparr>"


section \<open>Creating a file\<close>

lemma path_info_simps [simp]:
  "fi_path (path_info p u) = p" "fi_username (path_info p u) = u"
  "length p < 2 ^ 32 \<Longrightarrow> length u < 2 ^ 32 \<Longrightarrow> fi_receivable (path_info p u) \<longleftrightarrow> p \<noteq> [] \<and> u \<noteq> []"
  by (auto simp: path_info_def fi_receivable_def fileinfo_ok_def unat_of_nat)

lemma path_info_ask:
  assumes "length p < 2 ^ 29" and "length u \<le> 255" and "p \<noteq> []" and "u \<noteq> []"
  shows "fileinfo_ok (path_info p u)" and "fi_receivable (path_info p u)"
    and "complete_msg DCP (dcp_msg t a b (DCreate (path_info p u)))"
    and "complete_msg DCP (dcp_msg t a b (DUpdate (path_info p u)))"
proof -
  show r: "fi_receivable (path_info p u)" using assms by simp
  then show "fileinfo_ok (path_info p u)" by (simp add: fi_receivable_def)
  show "complete_msg DCP (dcp_msg t a b (DCreate (path_info p u)))"
    and "complete_msg DCP (dcp_msg t a b (DUpdate (path_info p u)))"
    using complete_dcp_infos [OF r] assms by simp_all
qed

text \<open>The command, up to the request to the directory server.\<close>

lemma serve_create_command:
  assumes "i < length (fs_clients s)" and "info = fs_clients s ! i"
    and "inq (fs_net s) (ci_sd info) = wire FAP (fap_msg t a b c (FCreate path k)) # cs"
    and "length path < 2 ^ 29" and "0 \<notin> set path"
  shows "serve_client_round junk connect rnd i s =
    rbind (create_file junk (rnd 0) i path (srv_heard i t cs s)) (\<lambda>s. Inr (True, s))"
proof -
  let ?m = "transported junk FAP (fap_msg t a b c (FCreate path k))"
  have "SECSDUP ?m 1 = Inr path" using assms(4,5) by (intro SECSDUP_str) auto
  then have "srv_command junk connect rnd i ?m s' = create_file junk (rnd 0) i path s'" for s'
    by (simp add: srv_command_def sec_access fap_commands)
  with assms(1,2,3) complete_path_commands(2) [OF assms(4)] show ?thesis
    using serve_client_command [of i s t a b c "FCreate path k" cs junk connect rnd] by simp
qed

lemma create_request:
  assumes "length path < 2 ^ 29" and "length (ci_user info) \<le> 255" and "path \<noteq> []" and "ci_user info \<noteq> []"
    and "out_ok (fs_net s) (fs_dssd s)"
  shows "srv_ask t a b DCP_CREATE [(ST_FILEINFO, DFileinfo (path_info path (ci_user info)))] s =
    Inr (srv_sent (fs_dssd s) (wire DCP (dcp_msg t a b (DCreate (path_info path (ci_user info))))) s)"
  using path_info_ask [OF assms(1-4)] assms(5) by (intro srv_ask_sent) (simp_all add: dcp_msg_def)

lemma create_file_forwards:
  assumes "i < length (fs_clients s)" and "info = fs_clients s ! i"
    and "length path < 2 ^ 29" and "length (ci_user info) \<le> 255" and "path \<noteq> []" and "ci_user info \<noteq> []"
    and "inq (fs_net s) (fs_dssd s) = wire DCP (dcp_msg t (fs_sid s) (fs_fsid s) (DFileinfos 1 [f])) # ds"
    and "fi_receivable f"
    and "complete_msg FAP (fap_msg (ci_lasttid info) (fs_sid s) (ci_id info) (fs_fsid s) (FFileinfo 1 [f]))"
    and "open_create (fs_host s) (local_path (fs_dataloc s) path) = Some hs"
    and "out_ok (fs_net s) (fs_dssd s)" and "out_ok (fs_net s) (ci_sd info)"
  shows "create_file junk t i path s =
    Inr (srv_sent (ci_sd info) (wire FAP (fap_msg (ci_lasttid info) (fs_sid s) (ci_id info) (fs_fsid s)
          (FFileinfo 1 [f\<lparr>fi_pad := fresh_pad junk\<rparr>])))
      ((srv_taken (fs_dssd s) ds (srv_sent (fs_dssd s) (wire DCP (dcp_msg t (fs_fsid s) (fs_sid s)
          (DCreate (path_info path (ci_user info))))) s))\<lparr>fs_host := hs\<rparr>))"
proof -
  let ?q = "wire DCP (dcp_msg t (fs_fsid s) (fs_sid s) (DCreate (path_info path (ci_user info))))"
  let ?m = "transported junk DCP (dcp_msg t (fs_sid s) (fs_fsid s) (DFileinfos 1 [f]))"
  let ?f = "f\<lparr>fi_pad := fresh_pad junk\<rparr>"
  let ?s2 = "(srv_taken (fs_dssd s) ds (srv_sent (fs_dssd s) ?q s))\<lparr>fs_host := hs\<rparr>"
  note fits = listing_fits [OF assms(9)]
  have rcv: "srv_recv junk (fs_dssd s) DCP (srv_sent (fs_dssd s) ?q s) =
      (Some ?m, srv_taken (fs_dssd s) ds (srv_sent (fs_dssd s) ?q s))"
    using assms(7) fits(1) by (intro srv_recv_wire) simp_all
  have v: "dcp_validate_sections ?m = Inr 0" by (rule dcp_msg_accepted) simp
  have "sections ?m = [int_sec 1, fi_sec ?f]" by simp
  then have d: "data_at ?m 0 = Inr (DInteger 1)" "SECI ?m 0 = Inr 1" "data_at ?m 1 = Inr (DFileinfo ?f)"
    by (simp_all add: data_at_def sec_access int_sec_def fi_sec_def del: transported_simps)
  have "fileinfo_ok ?f" using assms(8) by (simp add: fi_receivable_def fileinfo_ok_def)
  then have "add_all (fap_create_msg (ci_lasttid info) (fs_sid s) (ci_id info) (fs_fsid s) FAP_RESPONSE)
     [(ST_INTEGER, DInteger FAP_FILEINFO), (ST_INTEGER, DInteger 1), (ST_FILEINFO, DFileinfo ?f)] =
     Inr (fap_msg (ci_lasttid info) (fs_sid s) (ci_id info) (fs_fsid s) (FFileinfo 1 [?f]))"
    by (simp add: fap_msg_def)
  then have resp: "srv_respond info [(ST_INTEGER, DInteger FAP_FILEINFO), (ST_INTEGER, DInteger 1),
      (ST_FILEINFO, DFileinfo ?f)] ?s2 = Inr (srv_sent (ci_sd info) (wire FAP
        (fap_msg (ci_lasttid info) (fs_sid s) (ci_id info) (fs_fsid s) (FFileinfo 1 [?f]))) ?s2)"
    using srv_respond_sent [of info ?s2 _ "FFileinfo 1 [?f]"] fits(2) assms(12) by simp
  show ?thesis
    using create_request [OF assms(3-6,11), of t "fs_fsid s" "fs_sid s"] rcv v d resp assms(1,2,10)
    by (simp add: create_file_def client_at_def dcp_fileinfo_checked)
qed

text \<open>An error of the directory server.\<close>

definition dcp_error :: "u64 \<Rightarrow> u64 \<Rightarrow> u64 \<Rightarrow> u32 \<Rightarrow> bytes \<Rightarrow> fsmsg" where
  "dcp_error t s f e str = (dcp_create_msg t s f DCP_ERROR)\<lparr>sections := [int_sec e, str_sec str, end_sec]\<rparr>"

lemma dcp_error_simps [simp]:
  "tid (dcp_error t s f e str) = t" "msg_type (dcp_error t s f e str) = DCP_ERROR"
  "sections (dcp_error t s f e str) = [int_sec e, str_sec str, end_sec]"
  "nth_id (transported junk DCP (dcp_error t s f e str)) 0 = Inr s"
  "nth_id (transported junk DCP (dcp_error t s f e str)) (Suc 0) = Inr f"
  by (simp_all add: dcp_error_def transported_def nth_id_def nth_append)

lemma complete_dcp_error: "length str \<le> 1000 \<Longrightarrow> complete_msg DCP (dcp_error t s f e str)"
  using length_wire [of DCP "dcp_error t s f e str"]
  by (auto simp: complete_msg_def dcp_error_def msg_ok_def MSG_MAX_def)

lemma srv_create_exists:
  assumes "i < length (fs_clients s)" and "info = fs_clients s ! i"
    and "length path < 2 ^ 29" and "length (ci_user info) \<le> 255" and "path \<noteq> []" and "ci_user info \<noteq> []"
    and "inq (fs_net s) (fs_dssd s) = wire DCP (dcp_error t (fs_sid s) (fs_fsid s) ERR_EXISTS str) # ds"
    and "length str \<le> 1000"
    and "out_ok (fs_net s) (fs_dssd s)" and "out_ok (fs_net s) (ci_sd info)"
  shows "create_file junk t i path s =
    Inr (srv_sent (ci_sd info) (wire FAP (fap_msg (ci_lasttid info) (fs_sid s) (ci_id info) (fs_fsid s)
          (FError ERR_EXISTS (cstr ''file already exists''))))
      (srv_taken (fs_dssd s) ds (srv_sent (fs_dssd s) (wire DCP (dcp_msg t (fs_fsid s) (fs_sid s)
          (DCreate (path_info path (ci_user info))))) s)))"
proof -
  let ?q = "wire DCP (dcp_msg t (fs_fsid s) (fs_sid s) (DCreate (path_info path (ci_user info))))"
  let ?m = "transported junk DCP (dcp_error t (fs_sid s) (fs_fsid s) ERR_EXISTS str)"
  let ?s2 = "srv_taken (fs_dssd s) ds (srv_sent (fs_dssd s) ?q s)"
  let ?e = "fap_msg (ci_lasttid info) (fs_sid s) (ci_id info) (fs_fsid s)
    (FError ERR_EXISTS (cstr ''file already exists''))"
  have rcv: "srv_recv junk (fs_dssd s) DCP (srv_sent (fs_dssd s) ?q s) = (Some ?m, ?s2)"
    using assms(7) complete_dcp_error [OF assms(8)] by (intro srv_recv_wire) simp_all
  have chk: "dcp_check_response (Some ?m) t (fs_sid s) (fs_fsid s) DCP_CREATE = Inr (-5)"
    by (simp add: dcp_check_response_def dcp_types)
  have "complete_msg FAP ?e" by (simp add: complete_fap_msg length_wire_fap MSG_MAX_def)
  moreover have "fap_error_msg (fs_sid s) (fs_fsid s) (ci_lasttid info) (ci_id info) ERR_EXISTS
      (cstr ''file already exists'') = Inr ?e"
    by (simp add: fap_error_msg_def fap_msg_def)
  ultimately have "srv_error info (ci_lasttid info) ERR_EXISTS (cstr ''file already exists'') ?s2 =
      Inr (srv_sent (ci_sd info) (wire FAP ?e) ?s2)"
    using assms(10) by (simp add: srv_error_def fap_send_error_def send_complete srv_sent_def)
  then show ?thesis
    using create_request [OF assms(3-6,9), of t "fs_fsid s" "fs_sid s"] rcv chk assms(1,2)
    by (simp add: create_file_def client_at_def sec_access)
qed

text \<open>Any other error of the directory server is only logged; the client gets no answer.\<close>

lemma srv_create_other_error:
  assumes "i < length (fs_clients s)" and "info = fs_clients s ! i"
    and "length path < 2 ^ 29" and "length (ci_user info) \<le> 255" and "path \<noteq> []" and "ci_user info \<noteq> []"
    and "inq (fs_net s) (fs_dssd s) = wire DCP (dcp_error t (fs_sid s) (fs_fsid s) e str) # ds"
    and "length str \<le> 1000" and "e \<noteq> ERR_EXISTS" and "out_ok (fs_net s) (fs_dssd s)"
  shows "create_file junk t i path s =
    Inr (srv_taken (fs_dssd s) ds (srv_sent (fs_dssd s) (wire DCP (dcp_msg t (fs_fsid s) (fs_sid s)
          (DCreate (path_info path (ci_user info))))) s))"
proof -
  let ?q = "wire DCP (dcp_msg t (fs_fsid s) (fs_sid s) (DCreate (path_info path (ci_user info))))"
  let ?m = "transported junk DCP (dcp_error t (fs_sid s) (fs_fsid s) e str)"
  let ?s2 = "srv_taken (fs_dssd s) ds (srv_sent (fs_dssd s) ?q s)"
  have rcv: "srv_recv junk (fs_dssd s) DCP (srv_sent (fs_dssd s) ?q s) = (Some ?m, ?s2)"
    using assms(7) complete_dcp_error [OF assms(8)] by (intro srv_recv_wire) simp_all
  have chk: "dcp_check_response (Some ?m) t (fs_sid s) (fs_fsid s) DCP_CREATE = Inr (-5)"
    by (simp add: dcp_check_response_def dcp_types)
  then show ?thesis
    using create_request [OF assms(3-6,10), of t "fs_fsid s" "fs_sid s"] rcv assms(1,2,9)
    by (simp add: create_file_def client_at_def sec_access)
qed

lemma one_info_complete:
  "fi_receivable f \<Longrightarrow> length (fi_path f) + length (fi_username f) < 2 ^ 29 \<Longrightarrow>
     complete_msg FAP (fap_msg t s c fs (FFileinfo 1 [f]))"
  by (simp add: complete_fap_msg length_wire_fap MSG_MAX_def)

lemma serve_create_answers:
  assumes "i < length (fs_clients s)" and "info = fs_clients s ! i" and "ci_sd info \<noteq> fs_dssd s"
    and "inq (fs_net s) (ci_sd info) = wire FAP (fap_msg t a b c (FCreate path k)) # cs"
    and "length path < 2 ^ 29" and "0 \<notin> set path" and "path \<noteq> []"
    and "length (ci_user info) \<le> 255" and "ci_user info \<noteq> []"
    and "out_ok (fs_net s) (fs_dssd s)" and "out_ok (fs_net s) (ci_sd info)"
    and "inq (fs_net s) (fs_dssd s) = wire DCP reply # ds"
    and "reply = dcp_msg (rnd 0) (fs_sid s) (fs_fsid s) (DFileinfos 1 [f]) \<and> fi_receivable f \<and>
        length (fi_path f) + length (fi_username f) < 2 ^ 29 \<and>
        open_create (fs_host s) (local_path (fs_dataloc s) path) = Some hs \<and>
        body = FFileinfo 1 [f\<lparr>fi_pad := fresh_pad junk\<rparr>] \<or>
      reply = dcp_error (rnd 0) (fs_sid s) (fs_fsid s) ERR_EXISTS str \<and> length str \<le> 1000 \<and>
        hs = fs_host s \<and> body = FError ERR_EXISTS (cstr ''file already exists'')"
  shows "\<exists>s'. serve_client_round junk connect rnd i s = Inr (True, s') \<and> fs_host s' = hs \<and>
    outq (fs_net s') (fs_dssd s) = outq (fs_net s) (fs_dssd s) @ wire DCP
      (dcp_msg (rnd 0) (fs_fsid s) (fs_sid s) (DCreate (path_info path (ci_user info)))) \<and>
    outq (fs_net s') (ci_sd info) = outq (fs_net s) (ci_sd info) @
      wire FAP (fap_msg t (fs_sid s) (ci_id info) (fs_fsid s) body)"
proof -
  let ?s = "srv_heard i t cs s"
  note round = serve_create_command [OF assms(1,2,4,5,6), of junk connect rnd]
  from assms(13) show ?thesis
  proof
    assume r: "reply = dcp_msg (rnd 0) (fs_sid s) (fs_fsid s) (DFileinfos 1 [f]) \<and> fi_receivable f \<and>
        length (fi_path f) + length (fi_username f) < 2 ^ 29 \<and>
        open_create (fs_host s) (local_path (fs_dataloc s) path) = Some hs \<and>
        body = FFileinfo 1 [f\<lparr>fi_pad := fresh_pad junk\<rparr>]"
    then show ?thesis
      using round create_file_forwards [of i ?s "info\<lparr>ci_lasttid := t\<rparr>" path "rnd 0" f ds hs junk]
        assms(1-3,5,7-12) one_info_complete by simp
  next
    assume "reply = dcp_error (rnd 0) (fs_sid s) (fs_fsid s) ERR_EXISTS str \<and> length str \<le> 1000 \<and>
        hs = fs_host s \<and> body = FError ERR_EXISTS (cstr ''file already exists'')"
    then show ?thesis
      using round srv_create_exists [of i ?s "info\<lparr>ci_lasttid := t\<rparr>" path "rnd 0" str ds junk]
        assms(1-3,5,7-12) by simp
  qed
qed

text \<open>
  C29. Creating a file on a file server. The server asks the directory server to create the path for
  the client's user, without the file type \<open>k\<close>, which it ignores: a directory is created as a file.
  When the answer is a file info, a regular file is opened for creation below the data location and
  the client gets that file info (not the ok response of the protocol document); when the answer is
  the error that the file exists, the client gets that error and the local files are not touched; on
  any other error the local files are not touched and the client gets no answer at all.
\<close>

theorem serve_create_forwards:
  assumes "i < length (fs_clients s)" and "info = fs_clients s ! i" and "ci_sd info \<noteq> fs_dssd s"
    and "inq (fs_net s) (ci_sd info) = wire FAP (fap_msg t a b c (FCreate path k)) # cs"
    and "length path < 2 ^ 29" and "0 \<notin> set path" and "path \<noteq> []"
    and "length (ci_user info) \<le> 255" and "ci_user info \<noteq> []"
    and "out_ok (fs_net s) (fs_dssd s)" and "out_ok (fs_net s) (ci_sd info)"
    and "inq (fs_net s) (fs_dssd s) = wire DCP reply # ds"
    and "reply = dcp_msg (rnd 0) (fs_sid s) (fs_fsid s) (DFileinfos 1 [f]) \<and> fi_receivable f \<and>
        length (fi_path f) + length (fi_username f) < 2 ^ 29 \<and>
        open_create (fs_host s) (local_path (fs_dataloc s) path) = Some hs \<and>
        answer = wire FAP (fap_msg t (fs_sid s) (ci_id info) (fs_fsid s)
          (FFileinfo 1 [f\<lparr>fi_pad := fresh_pad junk\<rparr>])) \<or>
      reply = dcp_error (rnd 0) (fs_sid s) (fs_fsid s) e str \<and> length str \<le> 1000 \<and> hs = fs_host s \<and>
        answer = (if e = ERR_EXISTS
          then wire FAP (fap_msg t (fs_sid s) (ci_id info) (fs_fsid s)
            (FError ERR_EXISTS (cstr ''file already exists'')))
          else [])"
  shows "\<exists>s'. serve_client_round junk connect rnd i s = Inr (True, s') \<and> fs_host s' = hs \<and>
    outq (fs_net s') (fs_dssd s) = outq (fs_net s) (fs_dssd s) @ wire DCP
      (dcp_msg (rnd 0) (fs_fsid s) (fs_sid s) (DCreate (path_info path (ci_user info)))) \<and>
    outq (fs_net s') (ci_sd info) = outq (fs_net s) (ci_sd info) @ answer"
proof (cases "reply = dcp_error (rnd 0) (fs_sid s) (fs_fsid s) e str \<and> length str \<le> 1000 \<and>
    hs = fs_host s \<and> answer = [] \<and> e \<noteq> ERR_EXISTS")
  case True
  then show ?thesis
    using serve_create_command [OF assms(1,2,4,5,6), of junk connect rnd] assms(1-3,5,7-12)
      srv_create_other_error [of i "srv_heard i t cs s" "info\<lparr>ci_lasttid := t\<rparr>" path "rnd 0" e str ds junk]
    by simp
next
  case False
  with assms(13) obtain body where "answer = wire FAP (fap_msg t (fs_sid s) (ci_id info) (fs_fsid s) body)"
    "reply = dcp_msg (rnd 0) (fs_sid s) (fs_fsid s) (DFileinfos 1 [f]) \<and> fi_receivable f \<and>
        length (fi_path f) + length (fi_username f) < 2 ^ 29 \<and>
        open_create (fs_host s) (local_path (fs_dataloc s) path) = Some hs \<and>
        body = FFileinfo 1 [f\<lparr>fi_pad := fresh_pad junk\<rparr>] \<or>
      reply = dcp_error (rnd 0) (fs_sid s) (fs_fsid s) ERR_EXISTS str \<and> length str \<le> 1000 \<and>
        hs = fs_host s \<and> body = FError ERR_EXISTS (cstr ''file already exists'')"
    by (auto split: if_splits)
  then show ?thesis using serve_create_answers [OF assms(1-12), where f = f and hs = hs and body = body and str = str] by blast
qed

theorem serve_create_forwards_witness:
  "\<exists>s'. serve_client_round (\<lambda>_. 0) (\<lambda>_. -1) (\<lambda>_. 9) 0
      (one_client (idle_net\<lparr>inq := (\<lambda>_. [])(5 := [wire FAP (fap_msg 8 1 2 2 (FCreate (cstr ''/b'') 1))],
         4 := [wire DCP (dcp_msg 9 1 2 (DFileinfos 1 [path_info (cstr ''b'') (cstr ''user'')]))])\<rparr>)) =
     Inr (True, s') \<and> hs_files (fs_host s') (cstr ''/d/b'') = Some []"
  using serve_create_forwards [of 0 "one_client (idle_net\<lparr>inq := (\<lambda>_. [])(5 := [wire FAP
      (fap_msg 8 1 2 2 (FCreate (cstr ''/b'') 1))],
      4 := [wire DCP (dcp_msg 9 1 2 (DFileinfos 1 [path_info (cstr ''b'') (cstr ''user'')]))])\<rparr>)"
      "no_client\<lparr>ci_id := 2, ci_sd := 5, ci_datasd := 6, ci_user := cstr ''me''\<rparr>" 8 1 2 2 "cstr ''/b''" 1 "[]"
      "dcp_msg 9 1 2 (DFileinfos 1 [path_info (cstr ''b'') (cstr ''user'')])" "[]" "\<lambda>_. 9"
      "path_info (cstr ''b'') (cstr ''user'')"
      "\<lparr>hs_files = [cstr ''/d/a'' \<mapsto> cstr ''hi'', cstr ''/d/b'' \<mapsto> []], hs_creatable = \<lambda>_. True,
        hs_writable = \<lambda>_. True, hs_wr = \<lambda>_. int\<rparr>"
      "wire FAP (fap_msg 8 1 2 2
        (FFileinfo 1 [(path_info (cstr ''b'') (cstr ''user''))\<lparr>fi_pad := fresh_pad (\<lambda>_. 0)\<rparr>]))"
      "\<lambda>_. 0" 0 "[]" "\<lambda>_. -1"]
  by (auto simp: one_client_def no_client_def local_path_def open_create_def)

section \<open>Writing a file\<close>

lemma serve_write_command:
  assumes "i < length (fs_clients s)" and "info = fs_clients s ! i"
    and "inq (fs_net s) (ci_sd info) = wire FAP (fap_msg t a b c (FWrite path n)) # cs"
    and "length path < 2 ^ 29" and "0 \<notin> set path"
  shows "serve_client_round junk connect rnd i s =
    rbind (write_file junk (rnd 0) i path n (srv_heard i t cs s)) (\<lambda>s. Inr (True, s))"
proof -
  let ?m = "transported junk FAP (fap_msg t a b c (FWrite path n))"
  have "SECSDUP ?m 1 = Inr path" using assms(4,5) by (intro SECSDUP_str) auto
  then have "srv_command junk connect rnd i ?m s' = write_file junk (rnd 0) i path n s'" for s'
    by (simp add: srv_command_def sec_access fap_commands)
  with assms(1,2,3) complete_path_commands(3) [OF assms(4)] show ?thesis
    using serve_client_command [of i s t a b c "FWrite path n" cs junk connect rnd] by simp
qed

lemma update_request:
  assumes "length path < 2 ^ 29" and "length (ci_user info) \<le> 255" and "path \<noteq> []" and "ci_user info \<noteq> []"
    and "out_ok (fs_net s) (fs_dssd s)"
  shows "srv_ask t a b DCP_UPDATE [(ST_FILEINFO, DFileinfo (path_info path (ci_user info)))] s =
    Inr (srv_sent (fs_dssd s) (wire DCP (dcp_msg t a b (DUpdate (path_info path (ci_user info))))) s)"
  using path_info_ask [OF assms(1-4)] assms(5) by (intro srv_ask_sent) (simp_all add: dcp_msg_def)

lemma write_file_stores:
  assumes "i < length (fs_clients s)" and "info = fs_clients s ! i"
    and "length path < 2 ^ 29" and "length (ci_user info) \<le> 255" and "path \<noteq> []" and "ci_user info \<noteq> []"
    and "inq (fs_net s) (fs_dssd s) = wire DCP (dcp_msg t (fs_sid s) (fs_fsid s) (DFileinfos 1 [f])) # ds"
    and "complete_msg DCP (dcp_msg t (fs_sid s) (fs_fsid s) (DFileinfos 1 [f]))"
    and "open_create (fs_host s) (local_path (fs_dataloc s) path) = Some hs"
    and "concat (inq (fs_net s) (ci_datasd info)) = content" and "length content < 2 ^ 31"
    and "ci_datasd info \<noteq> fs_dssd s"
    and "out_ok (fs_net s) (fs_dssd s)" and "out_ok (fs_net s) (ci_sd info)"
    and "whole (hs_wr hs)"
  shows "\<exists>s'. write_file junk t i path (of_nat (length content)) s = Inr s' \<and>
    fs_host s' = write_start hs (local_path (fs_dataloc s) path) content \<and>
    concat (inq (fs_net s') (ci_datasd info)) = [] \<and>
    outq (fs_net s') = outq (sent (ci_sd info)
      (wire FAP (fap_msg (ci_lasttid info) (fs_sid s) (ci_id info) (fs_fsid s) FOk))
      (sent (fs_dssd s) (wire DCP (dcp_msg t (fs_fsid s) (fs_sid s) (DUpdate (path_info path (ci_user info)))))
        (fs_net s)))"
proof -
  let ?q = "wire DCP (dcp_msg t (fs_fsid s) (fs_sid s) (DUpdate (path_info path (ci_user info))))"
  let ?m = "transported junk DCP (dcp_msg t (fs_sid s) (fs_fsid s) (DFileinfos 1 [f]))"
  let ?s1 = "srv_taken (fs_dssd s) ds (srv_sent (fs_dssd s) ?q s)"
  let ?d = "ci_datasd info" and ?lp = "local_path (fs_dataloc s) path"
  let ?ok = "fap_msg (ci_lasttid info) (fs_sid s) (ci_id info) (fs_fsid s) FOk"
  have rcv: "srv_recv junk (fs_dssd s) DCP (srv_sent (fs_dssd s) ?q s) = (Some ?m, ?s1)"
    using assms(7,8) by (intro srv_recv_wire) simp_all
  have v: "dcp_validate_sections ?m = Inr 0" by (rule dcp_msg_accepted) simp
  have d: "SECI ?m 0 = Inr 1" by (simp add: sec_access)
  obtain rx where f: "recvfile (hs_wr hs) (in_err (fs_net s) ?d) (inq (fs_net s) ?d) (int (length content)) =
      Some (Inr (int (length content), content, rx))" "concat rx = []"
    using recvfile_exact [of "hs_wr hs" "in_err (fs_net s) ?d" "inq (fs_net s) ?d"] assms(15) unfolding assms(10) by blast
  let ?s2 = "?s1\<lparr>fs_host := write_start hs ?lp content,
    fs_net := (fs_net ?s1)\<lparr>inq := (inq (fs_net ?s1))(?d := rx)\<rparr>\<rparr>"
  have "complete_msg FAP ?ok" by (simp add: complete_fap_msg length_wire_fap MSG_MAX_def)
  then have "srv_respond info [(ST_INTEGER, DInteger FAP_OK)] ?s2 = Inr (srv_sent (ci_sd info) (wire FAP ?ok) ?s2)"
    using srv_respond_sent [of info ?s2 _ FOk] assms(14) by (simp add: fap_msg_def)
  moreover have "write_file junk t i path (of_nat (length content)) s =
      srv_respond info [(ST_INTEGER, DInteger FAP_OK)] ?s2"
    using update_request [OF assms(3-6,13), of t "fs_fsid s" "fs_sid s"] rcv v d f(1) assms(1,2,9,12)
      sint_size [OF assms(11)]
    by (simp add: write_file_def client_at_def dcp_fileinfo_checked)
  ultimately show ?thesis using f(2) by (simp add: sent_def)
qed

lemma serve_write_answers:
  assumes "i < length (fs_clients s)" and "info = fs_clients s ! i"
    and "distinct [ci_sd info, ci_datasd info, fs_dssd s]"
    and "inq (fs_net s) (ci_sd info) = wire FAP (fap_msg t a b c (FWrite path (of_nat (length content)))) # cs"
    and "concat (inq (fs_net s) (ci_datasd info)) = content" and "length content < 2 ^ 31"
    and "length path < 2 ^ 29" and "0 \<notin> set path" and "path \<noteq> []"
    and "length (ci_user info) \<le> 255" and "ci_user info \<noteq> []"
    and "inq (fs_net s) (fs_dssd s) = wire DCP (dcp_msg (rnd 0) (fs_sid s) (fs_fsid s) (DFileinfos 1 [f])) # ds"
    and "complete_msg DCP (dcp_msg (rnd 0) (fs_sid s) (fs_fsid s) (DFileinfos 1 [f]))"
    and "open_create (fs_host s) (local_path (fs_dataloc s) path) = Some hs"
    and "out_ok (fs_net s) (fs_dssd s)" and "out_ok (fs_net s) (ci_sd info)"
    and "whole (hs_wr hs)"
  shows "\<exists>s'. serve_client_round junk connect rnd i s = Inr (True, s') \<and>
    fs_host s' = write_start hs (local_path (fs_dataloc s) path) content \<and>
    outq (fs_net s') (fs_dssd s) = outq (fs_net s) (fs_dssd s) @ wire DCP
      (dcp_msg (rnd 0) (fs_fsid s) (fs_sid s) (DUpdate (path_info path (ci_user info)))) \<and>
    outq (fs_net s') (ci_sd info) = outq (fs_net s) (ci_sd info) @
      wire FAP (fap_msg t (fs_sid s) (ci_id info) (fs_fsid s) FOk)"
  using serve_write_command [OF assms(1,2,4,7,8), of junk connect rnd]
    write_file_stores [of i "srv_heard i t cs s" "info\<lparr>ci_lasttid := t\<rparr>" path "rnd 0" f ds hs content junk] assms
  by auto

text \<open>When the directory server ends instead, nothing is written and the client gets no answer.\<close>

lemma srv_recv_end:
  assumes "inq (fs_net s) sd = []"
  shows "\<exists>s'. srv_recv junk sd p s = (None, s') \<and> outq (fs_net s') = outq (fs_net s) \<and> fs_host s' = fs_host s"
  using assms
  by (simp add: srv_recv_def recv_msg_def fsmsg_from_socket_def rdr_bind_def read_u64_def rd_field_def junk_bytes_def)

lemma serve_write_unanswered:
  assumes "i < length (fs_clients s)" and "info = fs_clients s ! i" and "ci_sd info \<noteq> fs_dssd s"
    and "inq (fs_net s) (ci_sd info) = wire FAP (fap_msg t a b c (FWrite path n)) # cs"
    and "inq (fs_net s) (fs_dssd s) = []"
    and "length path < 2 ^ 29" and "0 \<notin> set path" and "path \<noteq> []"
    and "length (ci_user info) \<le> 255" and "ci_user info \<noteq> []" and "out_ok (fs_net s) (fs_dssd s)"
  shows "\<exists>s'. serve_client_round junk connect rnd i s = Inr (True, s') \<and> fs_host s' = fs_host s \<and>
    outq (fs_net s') (fs_dssd s) = outq (fs_net s) (fs_dssd s) @ wire DCP
      (dcp_msg (rnd 0) (fs_fsid s) (fs_sid s) (DUpdate (path_info path (ci_user info)))) \<and>
    outq (fs_net s') (ci_sd info) = outq (fs_net s) (ci_sd info)"
proof -
  let ?q = "wire DCP (dcp_msg (rnd 0) (fs_fsid s) (fs_sid s) (DUpdate (path_info path (ci_user info))))"
  let ?s = "srv_heard i t cs s"
  obtain s' where r: "srv_recv junk (fs_dssd s) DCP (srv_sent (fs_dssd s) ?q ?s) = (None, s')"
    "outq (fs_net s') = outq (fs_net (srv_sent (fs_dssd s) ?q ?s))" "fs_host s' = fs_host s"
    using srv_recv_end [of "srv_sent (fs_dssd s) ?q ?s" "fs_dssd s" junk DCP] assms(2,3,5) by auto
  have "write_file junk (rnd 0) i path n ?s = Inr s'"
    using update_request [of path "info\<lparr>ci_lasttid := t\<rparr>" ?s "rnd 0" "fs_fsid s" "fs_sid s"] r(1) assms
    by (simp add: write_file_def client_at_def dcp_check_response_def)
  with serve_write_command [OF assms(1,2,4,6,7), of junk connect rnd] r(2,3) assms(1-3) show ?thesis by simp
qed

section \<open>A file that is not here\<close>

lemma ask_file_refused:
  assumes "inq (fs_net s) (fs_dssd s) = wire DCP (dcp_error (rnd 0) (fs_sid s) (fs_fsid s) e str) # ds"
    and "length str \<le> 1000" and "out_ok (fs_net s) (fs_dssd s)"
  shows "ask_file junk connect rnd path s = Inr (srv_taken (fs_dssd s) ds (srv_sent (fs_dssd s)
     (wire DCP (dcp_msg (rnd 0) (fs_sid s) (fs_fsid s) (DGetReplicas []))) s))"
proof -
  let ?q = "wire DCP (dcp_msg (rnd 0) (fs_sid s) (fs_fsid s) (DGetReplicas []))"
  let ?m = "transported junk DCP (dcp_error (rnd 0) (fs_sid s) (fs_fsid s) e str)"
  let ?s2 = "srv_taken (fs_dssd s) ds (srv_sent (fs_dssd s) ?q s)"
  have q: "srv_ask (rnd 0) (fs_sid s) (fs_fsid s) DCP_GET_REPLICAS [(ST_STRING, DString (raw_of []))] s =
      Inr (srv_sent (fs_dssd s) ?q s)"
    by (rule srv_ask_sent [OF _ complete_dcp_paths(2) assms(3)]) (simp_all add: dcp_msg_def)
  have "srv_recv junk (fs_dssd s) DCP (srv_sent (fs_dssd s) ?q s) = (Some ?m, ?s2)"
    using assms(1) complete_dcp_error [OF assms(2)] by (intro srv_recv_wire) simp_all
  moreover have "dcp_check_response (Some ?m) (rnd 0) (fs_sid s) (fs_fsid s) DCP_GET_REPLICAS = Inr (-5)"
    by (simp add: dcp_check_response_def dcp_types)
  ultimately show ?thesis using q by (simp add: ask_file_def)
qed

text \<open>
  C31. For a file that is not in the data location the server asks the directory server for the
  replicas of the empty path, whatever file the client wants; and when the directory server answers
  with an error, the process of the file server ends instead of answering the client.
\<close>

theorem serve_missing_file:
  assumes "i < length (fs_clients s)" and "hs_files (fs_host s) (local_path (fs_dataloc s) path) = None"
    and "inq (fs_net s) (fs_dssd s) = wire DCP (dcp_error (rnd 0) (fs_sid s) (fs_fsid s) e str) # ds"
    and "length str \<le> 1000" and "out_ok (fs_net s) (fs_dssd s)"
  shows "(\<exists>s'. ask_file junk connect rnd path s = Inr s' \<and> outq (fs_net s') (fs_dssd s) =
      outq (fs_net s) (fs_dssd s) @ wire DCP (dcp_msg (rnd 0) (fs_sid s) (fs_fsid s) (DGetReplicas []))) \<and>
    serve_file junk connect rnd i path s = Inl Exit"
  using ask_file_refused [of s rnd e str ds junk connect path] assms
  by (simp add: serve_file_def client_at_def)

theorem serve_missing_file_witness:
  "serve_file (\<lambda>_. 0) (\<lambda>_. -1) (\<lambda>_. 9) 0 (cstr ''/x'') (one_client (idle_net\<lparr>inq := (\<lambda>_. [])(4 :=
     [wire DCP (dcp_error 9 1 2 ERR_FILENOTFOUND (cstr ''file doesn't exist''))])\<rparr>)) = Inl Exit"
  using serve_missing_file [of 0 "one_client (idle_net\<lparr>inq := (\<lambda>_. [])(4 :=
     [wire DCP (dcp_error 9 1 2 ERR_FILENOTFOUND (cstr ''file doesn't exist''))])\<rparr>)" "cstr ''/x''" "\<lambda>_. 9"
     ERR_FILENOTFOUND "cstr ''file doesn't exist''" "[]" "\<lambda>_. 0" "\<lambda>_. -1"]
  by (simp add: one_client_def local_path_def)

section \<open>The table of clients\<close>

lemma free_client_first: "free_client cs k = k + length (takeWhile (\<lambda>c. ci_id c \<noteq> 0) cs)"
  by (induction cs arbitrary: k) simp_all

lemma client_register_takes:
  assumes "length (fs_clients s) = MAX_CLIENTS" and "cid \<noteq> 0" and "fs_clicnt s \<le> 100"
    and "i < MAX_CLIENTS" and "ci_id (fs_clients s ! i) = 0" and "\<forall>j<i. ci_id (fs_clients s ! j) \<noteq> 0"
  shows "register_client clisd cid s = (int i,
    s\<lparr>fs_clients := (fs_clients s)[i := (fs_clients s ! i)\<lparr>ci_id := cid, ci_lasttid := 0, ci_sd := clisd,
        ci_datasd := 0, ci_dataport := FAP_DATAPORT_BASE + of_nat i\<rparr>],
      fs_clicnt := fs_clicnt s + 1\<rparr>)"
proof -
  have "takeWhile (\<lambda>c. ci_id c \<noteq> 0) (fs_clients s) = take i (fs_clients s)"
    using assms(1,4-6) by (intro takeWhile_eq_take_P_nth) auto
  with assms show ?thesis by (simp add: register_client_def free_client_first MAX_CLIENTS_def Let_def)
qed

lemma register_full:
  assumes "length (fs_clients s) = MAX_CLIENTS" and "cid \<noteq> 0" and "fs_clicnt s \<le> 100"
    and "\<forall>c\<in>set (fs_clients s). ci_id c \<noteq> 0"
  shows "register_client clisd cid s = (int MAX_CLIENTS, s)"
proof -
  have "takeWhile (\<lambda>c. ci_id c \<noteq> 0) (fs_clients s) = fs_clients s"
    using assms(4) by simp
  then have "length (takeWhile (\<lambda>c. ci_id c \<noteq> 0) (fs_clients s)) = MAX_CLIENTS"
    using assms(1) by (simp only:)
  with assms(1-3) show ?thesis by (simp add: register_client_def free_client_first MAX_CLIENTS_def Let_def)
qed

text \<open>What the handling of a command keeps: everything but the local files and the network.\<close>

definition table :: "fsrv \<Rightarrow> fsrv" where
  "table s = s\<lparr>fs_host := \<lparr>hs_files = \<lambda>_. None, hs_creatable = \<lambda>_. False, hs_writable = \<lambda>_. False, hs_wr = \<lambda>_. int\<rparr>,
     fs_net := idle_net\<rparr>"

definition keeps :: "fsrv \<Rightarrow> fsrv res \<Rightarrow> bool" where
  "keeps s r \<longleftrightarrow> (\<forall>s'. r = Inr s' \<longrightarrow> table s' = table s)"

lemma table_simps [simp]:
  "table (s\<lparr>fs_net := net\<rparr>) = table s" "table (s\<lparr>fs_host := hs\<rparr>) = table s"
  by (simp_all add: table_def)

lemma table_sel:
  "fs_clients (table s) = fs_clients s" "fs_clicnt (table s) = fs_clicnt s" "fs_sid (table s) = fs_sid s"
  "fs_fsid (table s) = fs_fsid s" "fs_dssd (table s) = fs_dssd s" "fs_dataloc (table s) = fs_dataloc s"
  "fs_lastcid (table s) = fs_lastcid s"
  by (simp_all add: table_def)

lemma table_parts:
  assumes "table s' = table s"
  shows "fs_clients s' = fs_clients s" "fs_clicnt s' = fs_clicnt s" "fs_sid s' = fs_sid s"
    "fs_fsid s' = fs_fsid s" "fs_dssd s' = fs_dssd s" "fs_dataloc s' = fs_dataloc s"
    "fs_lastcid s' = fs_lastcid s"
  using assms by (metis table_sel)+

text \<open>Two collections: what a value is built from, and the calls that return a new state.\<close>

named_theorems keeps_intros
named_theorems keeps_calls

lemma keeps_Inl [keeps_intros]: "keeps s (Inl e)"
  by (simp add: keeps_def)

lemma keeps_Inr [keeps_intros]: "table s' = table s \<Longrightarrow> keeps s (Inr s')"
  by (simp add: keeps_def)

lemma keeps_value [keeps_intros]: "(\<And>x. keeps s (f x)) \<Longrightarrow> keeps s (rbind m f)"
  by (cases m) (simp_all add: keeps_def)

lemma keeps_if [keeps_intros]: "keeps s a \<Longrightarrow> keeps s b \<Longrightarrow> keeps s (if c then a else b)"
  by simp

lemma keeps_option [keeps_intros]:
  "keeps s a \<Longrightarrow> (\<And>x. keeps s (f x)) \<Longrightarrow> keeps s (case m of None \<Rightarrow> a | Some x \<Rightarrow> f x)"
  by (cases m) simp_all

lemma keeps_pair [keeps_intros]: "(\<And>a b. keeps s (f a b)) \<Longrightarrow> keeps s (case x of (a, b) \<Rightarrow> f a b)"
  by (cases x) simp

lemma keeps_recv [keeps_calls]:
  "table s1 = table s \<Longrightarrow> (\<And>m s2. table s2 = table s \<Longrightarrow> keeps s (f m s2)) \<Longrightarrow>
     keeps s (case srv_recv junk sd p s1 of (m, s2) \<Rightarrow> f m s2)"
  by (auto simp: srv_recv_def split: prod.split)

lemma keeps_then: "keeps s m \<Longrightarrow> (\<And>s'. table s' = table s \<Longrightarrow> keeps s (f s')) \<Longrightarrow> keeps s (rbind m f)"
  unfolding keeps_def rbind_Inr_iff by blast

lemma keeps_send [keeps_calls]: "table s = table s0 \<Longrightarrow> keeps s0 (srv_send sd m p s)"
  unfolding srv_send_def by (rule keeps_value) (simp add: keeps_Inr split_beta)

lemma keeps_error [keeps_calls]: "table s = table s0 \<Longrightarrow> keeps s0 (srv_error info t e str s)"
  unfolding srv_error_def by (rule keeps_value) (simp add: keeps_Inr)

lemma keeps_respond [keeps_calls]: "table s = table s0 \<Longrightarrow> keeps s0 (srv_respond info ds s)"
  unfolding srv_respond_def by (rule keeps_value, rule keeps_send)

lemma keeps_ask: "table s = table s0 \<Longrightarrow> keeps s0 (srv_ask t a b ty ds s)"
  unfolding srv_ask_def by (rule keeps_value, rule keeps_send)

lemmas keeps_then_calls [keeps_calls] = keeps_then [OF keeps_ask] keeps_then [OF keeps_respond]

lemma keeps_try_replicas [keeps_calls]:
  "table s = table s0 \<Longrightarrow> keeps s0 (try_replicas junk connect rnd m i k path s)"
proof (induction k arbitrary: i s)
  case 0
  then show ?case by (auto intro: keeps_intros)
next
  case (Suc k)
  then show ?case by (auto simp: Let_def intro!: keeps_intros split: prod.split)
qed

lemma keeps_list_directory [keeps_calls]:
  "table s = table s0 \<Longrightarrow> keeps s0 (list_directory junk t i r path n s)"
  unfolding list_directory_def Let_def by (rule keeps_calls | rule keeps_intros | assumption | (simp; fail))+

lemma keeps_create_file [keeps_calls]: "table s = table s0 \<Longrightarrow> keeps s0 (create_file junk t i path s)"
  unfolding create_file_def Let_def by (rule keeps_calls | rule keeps_intros | assumption | (simp; fail))+

lemma keeps_write_file [keeps_calls]: "table s = table s0 \<Longrightarrow> keeps s0 (write_file junk t i path n s)"
  unfolding write_file_def Let_def by (rule keeps_calls | rule keeps_intros | assumption | (simp; fail))+

lemma keeps_ask_file: "table s = table s0 \<Longrightarrow> keeps s0 (ask_file junk connect rnd path s)"
  unfolding ask_file_def Let_def by (rule keeps_calls | rule keeps_intros | assumption | (simp; fail))+

lemma keeps_serve_file [keeps_calls]: "table s = table s0 \<Longrightarrow> keeps s0 (serve_file junk connect rnd i path s)"
  unfolding serve_file_def Let_def
  by (rule keeps_value, rule keeps_then, simp add: keeps_ask_file keeps_Inr,
      (rule keeps_calls | rule keeps_intros | assumption | (simp add: send_file_def; fail))+)

lemma keeps_srv_command: "keeps s (srv_command junk connect rnd i m s)"
  unfolding srv_command_def Let_def by (rule keeps_calls | rule keeps_intros | assumption | (simp; fail))+

section \<open>The life of the server\<close>

text \<open>An entry in use has the one id that \<open>do_fap_server\<close> draws, and the port of its index.\<close>

definition client_ok :: "u64 \<Rightarrow> nat \<Rightarrow> client_info \<Rightarrow> bool" where
  "client_ok cid j c \<longleftrightarrow> ci_id c = 0 \<or> ci_id c = cid \<and> ci_dataport c = FAP_DATAPORT_BASE + of_nat j"

definition clients_ok :: "u64 \<Rightarrow> fsrv \<Rightarrow> bool" where
  "clients_ok cid s \<longleftrightarrow> length (fs_clients s) = MAX_CLIENTS \<and>
     (\<forall>j<MAX_CLIENTS. client_ok cid j (fs_clients s ! j))"

lemma clients_ok_update:
  "clients_ok cid s \<Longrightarrow> client_ok cid i c \<Longrightarrow> fs_clients s' = (fs_clients s)[i := c] \<Longrightarrow> clients_ok cid s'"
  by (simp add: clients_ok_def) (metis nth_list_update nth_list_update_neq)

lemma fap_accept_keeps:
  "fap_accept junk sid fsid host dsd info net = Inr (ret, info', net') \<Longrightarrow>
     ci_id info' = ci_id info \<and> ci_dataport info' = ci_dataport info \<and> ci_sd info' = ci_sd info"
  by (auto simp: fap_accept_def Let_def rbind_Inr_iff split: prod.splits if_splits option.splits)

text \<open>What one registration does.\<close>

lemma register_cases:
  assumes "clients_ok cid s" and "cid \<noteq> 0"
  obtains (refused) "fs_clicnt s > 100" "register_client clisd cid s = (-1, s)"
    | (full) "fs_clicnt s \<le> 100" "\<forall>c\<in>set (fs_clients s). ci_id c \<noteq> 0"
        "register_client clisd cid s = (int MAX_CLIENTS, s)"
    | (taken) i c where "fs_clicnt s \<le> 100" "i < MAX_CLIENTS" "ci_id (fs_clients s ! i) = 0"
        "\<forall>j<i. ci_id (fs_clients s ! j) \<noteq> 0" "ci_id c = cid" "ci_sd c = clisd"
        "ci_dataport c = FAP_DATAPORT_BASE + of_nat i"
        "register_client clisd cid s = (int i, s\<lparr>fs_clients := (fs_clients s)[i := c], fs_clicnt := fs_clicnt s + 1\<rparr>)"
proof -
  have len: "length (fs_clients s) = MAX_CLIENTS" using assms(1) by (simp add: clients_ok_def)
  show ?thesis
  proof (cases "fs_clicnt s > 100")
    case True
    then show ?thesis by (intro refused) (simp_all add: register_client_def MAX_CLIENTS_def)
  next
    case cnt: False
    show ?thesis
    proof (cases "\<exists>i. i < MAX_CLIENTS \<and> ci_id (fs_clients s ! i) = 0")
      case True
      then obtain i where i: "i < MAX_CLIENTS" "ci_id (fs_clients s ! i) = 0"
          "\<forall>j<i. ci_id (fs_clients s ! j) \<noteq> 0"
        using exists_least_iff [of "\<lambda>i. i < MAX_CLIENTS \<and> ci_id (fs_clients s ! i) = 0"]
        by (metis order_less_trans)
      from client_register_takes [OF len assms(2) _ i, of clisd] cnt i show ?thesis
        by (intro taken [of i "(fs_clients s ! i)\<lparr>ci_id := cid, ci_lasttid := 0, ci_sd := clisd,
          ci_datasd := 0, ci_dataport := FAP_DATAPORT_BASE + of_nat i\<rparr>"]) simp_all
    next
      case False
      then have "\<forall>c\<in>set (fs_clients s). ci_id c \<noteq> 0" using len by (metis in_set_conv_nth)
      with cnt register_full [OF len assms(2) _ this, of clisd] show ?thesis by (intro full) simp_all
    qed
  qed
qed

text \<open>
  The runs of the server: \<open>n\<close> counts the connections that were registered. Between the steps the
  network and the local files change as they like.
\<close>

inductive srv_run :: "u64 \<Rightarrow> nat \<Rightarrow> fsrv \<Rightarrow> bool" for cid where
  start: "length (fs_clients s) = MAX_CLIENTS \<Longrightarrow> \<forall>c\<in>set (fs_clients s). ci_id c = 0 \<Longrightarrow>
    fs_clicnt s = 0 \<Longrightarrow> srv_run cid 0 s"
| accept: "srv_run cid n s \<Longrightarrow> fap_server_accept junk clisd cid host dsd s = Inr (r, s') \<Longrightarrow>
    srv_run cid (if fst (register_client clisd cid s) < 0 then n else Suc n) s'"
| serve: "srv_run cid n s \<Longrightarrow> serve_client_round junk connect rnd i s = Inr (b, s') \<Longrightarrow> srv_run cid n s'"
| world: "srv_run cid n s \<Longrightarrow> srv_run cid n (s\<lparr>fs_net := net, fs_host := hs\<rparr>)"

inductive_cases srv_runE: "srv_run cid n s"

lemma accept_steps:
  assumes "clients_ok cid s" and "cid \<noteq> 0"
    and "fap_server_accept junk clisd cid host dsd s = Inr (r, s')"
  shows "clients_ok cid s' \<and> (if fst (register_client clisd cid s) < 0 then fs_clicnt s' = fs_clicnt s
    else fs_clicnt s' = fs_clicnt s + 1 \<and> fs_clicnt s \<le> 100)"
  using assms(1,2)
proof (cases rule: register_cases [where clisd = clisd])
  case refused
  with assms show ?thesis by (simp add: fap_server_accept_def)
next
  case full
  with assms show ?thesis by (simp add: fap_server_accept_def client_at_def clients_ok_def)
next
  case (taken i c)
  let ?s = "s\<lparr>fs_clients := (fs_clients s)[i := c], fs_clicnt := fs_clicnt s + 1\<rparr>"
  have at: "client_at ?s i = Inr c" using taken(2) assms(1) by (simp add: client_at_def clients_ok_def)
  with taken(8) assms(3) obtain ret info net where
    f: "fap_accept junk (fs_sid s) (fs_fsid s) host dsd c (fs_net s) = Inr (ret, info, net)" and
    s': "s' = ?s\<lparr>fs_clients := (fs_clients ?s)[i := info], fs_net := net\<rparr>"
    by (auto simp: fap_server_accept_def rbind_Inr_iff Let_def split: prod.splits)
  from fap_accept_keeps [OF f] taken(5,7) have "client_ok cid i info" by (simp add: client_ok_def)
  then have "clients_ok cid s'"
    by (rule clients_ok_update [OF assms(1)]) (simp add: s')
  with taken s' show ?thesis by simp
qed

lemma round_steps:
  assumes "clients_ok cid s" and "serve_client_round junk connect rnd i s = Inr (b, s')"
  shows "clients_ok cid s' \<and> fs_clicnt s' = fs_clicnt s"
proof -
  have kept: "clients_ok cid s2 \<and> fs_clicnt s2 = fs_clicnt s1"
    if "table s2 = table s1" "clients_ok cid s1" for s1 s2
    using that table_parts [OF that(1)] by (simp add: clients_ok_def)
  define info where "info = fs_clients s ! i"
  from assms(2) have i: "i < length (fs_clients s)" "client_at s i = Inr info"
    by (auto simp: serve_client_round_def client_at_def info_def split: if_splits)
  obtain msg s1 where r: "srv_recv junk (ci_sd info) FAP s = (msg, s1)" by fastforce
  then have t1: "table s1 = table s" by (auto simp: srv_recv_def split: prod.splits)
  note s1 = kept [OF t1 assms(1)] table_parts(1) [OF t1]
  show ?thesis
  proof (cases msg)
    case None
    with assms(2) i r s1 show ?thesis by (simp add: serve_client_round_def)
  next
    case (Some m)
    let ?info = "info\<lparr>ci_lasttid := tid m\<rparr>"
    let ?s2 = "s1\<lparr>fs_clients := (fs_clients s1)[i := ?info]\<rparr>"
    have ok: "client_ok cid i info"
      using assms(1) i(1) by (simp add: clients_ok_def info_def)
    then have s2: "clients_ok cid ?s2"
      using clients_ok_update [of cid s1 i ?info ?s2] s1 by (simp add: client_ok_def)
    note eq = assms(2) [unfolded serve_client_round_def i(2) rbind_Inr r Some Let_def prod.case option.case]
    then obtain ret where v: "fap_validate_sections m = Inr ret"
      by (cases "fap_validate_sections m") simp_all
    note eq = eq [unfolded v rbind_Inr]
    consider "ret < 0" | "\<not> ret < 0" "msg_type m = FAP_QUIT" | "\<not> ret < 0" "msg_type m = FAP_COMMAND"
      | "\<not> ret < 0" "msg_type m \<noteq> FAP_QUIT" "msg_type m \<noteq> FAP_COMMAND" by blast
    then show ?thesis
    proof cases
      case 1
      with eq have "srv_error info (tid m) ERR_MSG [] s1 = Inr s'" by (auto simp: rbind_Inr_iff)
      then have "table s' = table s1" using keeps_error [OF refl] by (simp add: keeps_def)
      from kept [OF this] s1 show ?thesis by simp
    next
      case 2
      with eq obtain net where s': "s' = ?s2\<lparr>fs_net := net,
          fs_clients := (fs_clients ?s2)[i := ?info\<lparr>ci_id := 0, ci_sd := 0\<rparr>]\<rparr>"
        by (auto simp: rbind_Inr_iff)
      then have "clients_ok cid s'"
        using clients_ok_update [OF s2, of i "?info\<lparr>ci_id := 0, ci_sd := 0\<rparr>"] by (simp add: client_ok_def)
      with s' s1 show ?thesis by simp
    next
      case 3
      with eq have "srv_command junk connect rnd i m ?s2 = Inr s'" by (auto simp: rbind_Inr_iff fap_types)
      then have "table s' = table ?s2" using keeps_srv_command by (simp add: keeps_def)
      from kept [OF this s2] s1 show ?thesis by simp
    next
      case 4
      with eq have "s' = ?s2" by simp
      with s1 s2 show ?thesis by simp
    qed
  qed
qed

lemma srv_run_steps:
  assumes "srv_run cid n s" and "cid \<noteq> 0"
  shows "clients_ok cid s \<and> fs_clicnt s = int n \<and> n \<le> 101"
  using assms(1)
proof induction
  case (start s)
  then show ?case by (simp add: clients_ok_def client_ok_def)
next
  case (accept n s junk clisd host dsd r s')
  with accept_steps [OF _ assms(2) accept.hyps(2)] show ?case by (auto split: if_splits)
next
  case (serve n s junk connect rnd i b s')
  with round_steps [OF _ serve.hyps(2), of cid] show ?case by simp
next
  case (world n s net hs)
  then show ?case by (simp add: clients_ok_def)
qed

text \<open>
  C28. Over its whole life the server registers at most 101 connections, because a client that quits
  frees its entry but not its place in \<open>clicnt\<close>: at every moment \<open>clicnt\<close> is the number of connections
  registered so far, every entry in use has the same id and the data port of its index, so no two
  of them share a port; and once 101 were registered every further connection is refused.
\<close>

theorem file_server_wears_out:
  assumes "srv_run cid n s" and "cid \<noteq> 0"
  shows "fs_clicnt s = int n \<and> n \<le> 101 \<and>
    (\<forall>j k. j < 100 \<and> k < 100 \<and> j \<noteq> k \<and> ci_id (fs_clients s ! j) \<noteq> 0 \<and> ci_id (fs_clients s ! k) \<noteq> 0 \<longrightarrow>
       ci_id (fs_clients s ! j) = ci_id (fs_clients s ! k) \<and>
       ci_dataport (fs_clients s ! j) \<noteq> ci_dataport (fs_clients s ! k)) \<and>
    (n = 101 \<longrightarrow> (\<forall>junk clisd host dsd. fap_server_accept junk clisd cid host dsd s = Inr (None, s)))"
proof -
  note inv = srv_run_steps [OF assms]
  have "of_nat j = (of_nat k :: u32) \<longleftrightarrow> j = k" if "j < 100" "k < 100" for j k :: nat
    using that by (subst word_of_nat_eq_iff) (simp add: take_bit_nat_eq_self)
  then have port: "FAP_DATAPORT_BASE + of_nat j \<noteq> FAP_DATAPORT_BASE + of_nat k"
    if "j < 100" "k < 100" "j \<noteq> k" for j k :: nat using that by simp
  have used: "ci_id (fs_clients s ! j) = cid" "ci_dataport (fs_clients s ! j) = FAP_DATAPORT_BASE + of_nat j"
    if "j < 100" "ci_id (fs_clients s ! j) \<noteq> 0" for j
    using inv that by (auto simp: clients_ok_def client_ok_def MAX_CLIENTS_def)
  have "fap_server_accept junk clisd cid host dsd s = Inr (None, s)" if "n = 101" for junk clisd host dsd
    using inv that by (simp add: fap_server_accept_def register_client_def MAX_CLIENTS_def)
  with inv port used show ?thesis by metis
qed

theorem file_server_wears_out_witness:
  "\<exists>s. srv_run 2 1 s \<and> fs_clicnt s = int 1"
proof -
  let ?s = "(one_client idle_net)\<lparr>fs_clients := replicate 100 no_client, fs_clicnt := 0\<rparr>"
  have start: "srv_run 2 0 ?s" by (rule srv_run.start) (simp_all add: MAX_CLIENTS_def no_client_def)
  have reg: "register_client 5 2 ?s = (0, ?s\<lparr>fs_clients := (replicate 100 no_client)[0 := no_client\<lparr>ci_id := 2,
      ci_lasttid := 0, ci_sd := 5, ci_datasd := 0, ci_dataport := FAP_DATAPORT_BASE\<rparr>], fs_clicnt := 1\<rparr>)"
    using client_register_takes [of ?s 2 0 5] by (simp add: MAX_CLIENTS_def no_client_def)
  have "recv_msg (\<lambda>_. 0) 5 FAP idle_net = (None, idle_net\<lparr>inq := \<lambda>_. []\<rparr>)"
    by (simp add: recv_msg_def fsmsg_from_socket_def rdr_bind_def read_u64_def rd_field_def idle_net_def
        junk_bytes_def fun_eq_iff)
  then obtain s' where "fap_server_accept (\<lambda>_. 0) 5 2 [] 8 ?s = Inr (None, s')"
    using reg by (simp add: fap_server_accept_def client_at_def one_client_def fap_accept_def
        fap_check_response_def)
  from srv_run.accept [OF start this] reg have "srv_run 2 1 s'" by simp
  with file_server_wears_out [OF this] show ?thesis by (intro exI [of _ s']) simp
qed

text \<open>
  C32. Registration. With fewer than 101 registrations so far a connection gets the first free entry
  of the table, with the id, descriptor and data port of that entry; when no entry is free the
  function returns the size of the table and the server reads behind the table's end.
\<close>

theorem register_client_entry:
  assumes "length (fs_clients s) = 100" and "cid \<noteq> 0" and "fs_clicnt s \<le> 100"
  shows "(\<forall>i<100. ci_id (fs_clients s ! i) = 0 \<and> (\<forall>j<i. ci_id (fs_clients s ! j) \<noteq> 0) \<longrightarrow>
      register_client clisd cid s = (int i,
        s\<lparr>fs_clients := (fs_clients s)[i := (fs_clients s ! i)\<lparr>ci_id := cid, ci_lasttid := 0,
            ci_sd := clisd, ci_datasd := 0, ci_dataport := FAP_DATAPORT_BASE + of_nat i\<rparr>],
          fs_clicnt := fs_clicnt s + 1\<rparr>)) \<and>
    ((\<forall>c\<in>set (fs_clients s). ci_id c \<noteq> 0) \<longrightarrow>
      register_client clisd cid s = (100, s) \<and>
      fap_server_accept junk clisd cid host dsd s = Inl (Fault OutOfBounds))"
  using client_register_takes [of s cid] register_full [of s cid clisd] assms
  by (simp add: MAX_CLIENTS_def fap_server_accept_def client_at_def)

theorem register_client_entry_witness:
  "fap_server_accept (\<lambda>_. 0) 7 2 [] 8 ((one_client idle_net)\<lparr>fs_clients := replicate 100 (no_client\<lparr>ci_id := 2\<rparr>),
     fs_clicnt := 100\<rparr>) = Inl (Fault OutOfBounds)"
  using register_client_entry [of "(one_client idle_net)\<lparr>fs_clients := replicate 100 (no_client\<lparr>ci_id := 2\<rparr>),
     fs_clicnt := 100\<rparr>" 2 7 "\<lambda>_. 0" "[]" 8]
  by simp

end
