(* ===== verification/Util_Config.thy ===== *)
theory Util_Config
  imports Net_Prelude
begin

text \<open>
  The configuration of the programs (\<^verbatim>\<open>src/src/util.c\<close>): \<open>readline\<close> into a buffer that is never
  cleared, the list of expected parameters, and \<open>read_config\<close>, which cuts the lines with \<open>strtok\<close>
  in place. A file is the list of its bytes, read one at a time; a reading error ends the process.
\<close>

abbreviation NL :: u8 where "NL \<equiv> 10"
abbreviation TAB :: u8 where "TAB \<equiv> 9"
abbreviation SPACE :: u8 where "SPACE \<equiv> 32"
abbreviation HASH :: u8 where "HASH \<equiv> 35"

definition MAX_LINE :: nat where "MAX_LINE = 1024"

section \<open>Reading a line\<close>

text \<open>
  \<open>err\<close>: whether the read after the last byte fails instead of returning 0. The result is the
  returned value, the buffer and what is left of the file; \<open>k\<close> counts \<open>maxline - i\<close> down.
\<close>

fun readline_loop :: "bool \<Rightarrow> bytes \<Rightarrow> bytes \<Rightarrow> nat \<Rightarrow> nat \<Rightarrow> (nat \<times> bytes \<times> bytes) res" where
  "readline_loop err buffer inp i 0 = Inr (0, buffer, inp)"
| "readline_loop err buffer [] i (Suc k) =
     (if err then Inl Exit
      else if i \<ge> length buffer then Inl (Fault OutOfBounds)
      else if Suc i > 1 then Inr (Suc i, buffer[i := NL], [])
      else Inr (0, buffer, []))"
| "readline_loop err buffer (b # inp) i (Suc k) =
     (if i \<ge> length buffer then Inl (Fault OutOfBounds)
      else if b = NL then Inr (Suc i, buffer[i := b], inp)
      else readline_loop err (buffer[i := b]) inp (Suc i) k)"

definition readline :: "bool \<Rightarrow> bytes \<Rightarrow> bytes \<Rightarrow> nat \<Rightarrow> (nat \<times> bytes \<times> bytes) res" where
  "readline err buffer inp maxline = readline_loop err buffer inp 0 maxline"

section \<open>Cutting a line\<close>

text \<open>
  \<open>strtok\<close> on the buffer from position \<open>p\<close>: the token, the buffer with the delimiter behind the
  token overwritten, and the position where the next call goes on. A string that does not end in
  the buffer is read past its end.
\<close>

definition strtok_at :: "bytes \<Rightarrow> bytes \<Rightarrow> nat \<Rightarrow> (bytes option \<times> bytes \<times> nat) res" where
  "strtok_at delims buffer p =
     (let q = p + length (takeWhile (\<lambda>b. b \<in> set delims) (drop p buffer)) in
      if q \<ge> length buffer then Inl (Fault OutOfBounds)
      else if buffer ! q = 0 then Inr (None, buffer, q)
      else
        let token = takeWhile (\<lambda>b. b \<noteq> 0 \<and> b \<notin> set delims) (drop q buffer);
            e = q + length token in
        if e \<ge> length buffer then Inl (Fault OutOfBounds)
        else if buffer ! e = 0 then Inr (Some token, buffer, e)
        else Inr (Some token, buffer[e := 0], Suc e))"

section \<open>The parameters\<close>

text \<open>The names added by \<open>add_config_param\<close>, in order, with what their variables hold.\<close>

type_synonym params = "(bytes \<times> bytes option) list"

definition add_config_param :: "bytes \<Rightarrow> bytes option \<Rightarrow> params \<Rightarrow> params" where
  "add_config_param name val ps = ps @ [(name, val)]"

text \<open>The walk over the list: the first parameter of the name is set.\<close>

fun set_param :: "bytes \<Rightarrow> bytes \<Rightarrow> params \<Rightarrow> params" where
  "set_param name val [] = []"
| "set_param name val (p # ps) =
     (if fst p = name then (fst p, Some val) # ps else p # set_param name val ps)"

text \<open>One line; \<open>i\<close> counts the parameters found.\<close>

definition config_line :: "bytes \<Rightarrow> nat \<Rightarrow> params \<Rightarrow> (bytes \<times> nat \<times> params) res" where
  "config_line buffer i ps =
     (if buffer ! 0 = HASH then Inr (buffer, i, ps)
      else
        rbind (strtok_at [TAB, SPACE] buffer 0) (\<lambda>(t, buffer, q).
        case t of
          None \<Rightarrow> Inr (buffer, i, ps)
        | Some name \<Rightarrow>
            if name \<notin> fst ` set ps then Inr (buffer, i, ps)
            else
              rbind (strtok_at [NL] buffer q) (\<lambda>(v, buffer, _).
              case v of
                None \<Rightarrow> Inl (Fault NullDeref)
              | Some val \<Rightarrow> Inr (buffer, Suc i, set_param name val ps))))"

section \<open>Reading a line ends and takes a line\<close>

lemma readline_loop_le:
  "readline_loop err buffer inp i k = Inr (n, buffer', inp') \<Longrightarrow> length inp' \<le> length inp"
  by (induction err buffer inp i k rule: readline_loop.induct) (auto split: if_splits)

lemma readline_shorter:
  assumes "readline err buffer inp maxline = Inr (n, buffer', inp')" and "0 < n"
  shows "length inp' < length inp"
proof (cases inp)
  case Nil
  with assms show ?thesis by (cases maxline) (auto simp: readline_def split: if_splits)
next
  case (Cons b bs)
  with assms show ?thesis
    by (cases maxline) (auto simp: readline_def le_imp_less_Suc split: if_splits dest: readline_loop_le)
qed

text \<open>The next line of a file with its newline, which is added at the end of the file.\<close>

definition next_line :: "nat \<Rightarrow> bytes \<Rightarrow> (bytes \<times> bytes) option" where
  "next_line maxline inp =
     (let l = takeWhile (\<lambda>b. b \<noteq> NL) inp in
      if inp = [] \<or> length l \<ge> maxline then None else Some (l @ [NL], drop (Suc (length l)) inp))"

lemma readline_loop_line:
  assumes "i + k \<le> length buffer" and "takeWhile (\<lambda>b. b \<noteq> NL) inp = l" and "length l < k"
    and "inp \<noteq> [] \<or> 0 < i"
  shows "readline_loop False buffer inp i k =
    Inr (Suc (i + length l), take i buffer @ l @ NL # drop (Suc (i + length l)) buffer, drop (Suc (length l)) inp)"
  using assms
proof (induction inp arbitrary: buffer i k l)
  case Nil
  then obtain k' where "k = Suc k'" by (cases k) auto
  with Nil show ?case by (simp add: upd_conv_take_nth_drop)
next
  case (Cons b inp)
  then obtain k' where k: "k = Suc k'" by (cases k) auto
  show ?case
  proof (cases "b = NL")
    case True
    with Cons.prems k show ?thesis by (auto simp: upd_conv_take_nth_drop)
  next
    case False
    with Cons.prems(2) obtain l' where l: "l = b # l'" "takeWhile (\<lambda>b. b \<noteq> NL) inp = l'" by auto
    have "readline_loop False (buffer[i := b]) inp (Suc i) k' =
      Inr (Suc (Suc i + length l'), take (Suc i) (buffer[i := b]) @ l' @ NL # drop (Suc (Suc i + length l')) (buffer[i := b]),
        drop (Suc (length l')) inp)"
      using Cons.prems k l by (intro Cons.IH) simp_all
    with False Cons.prems(1) k l show ?thesis by (simp add: take_Suc_conv_app_nth)
  qed
qed

lemma readline_loop_long:
  assumes "i + k \<le> length buffer" and "length (takeWhile (\<lambda>b. b \<noteq> NL) inp) \<ge> k"
  shows "readline_loop False buffer inp i k =
    Inr (0, take i buffer @ take k inp @ drop (i + k) buffer, drop k inp)"
  using assms
proof (induction k arbitrary: buffer i inp)
  case 0
  then show ?case by simp
next
  case (Suc k)
  then obtain b inp' where b: "inp = b # inp'" "b \<noteq> NL" "length (takeWhile (\<lambda>b. b \<noteq> NL) inp') \<ge> k"
    by (cases inp) (auto split: if_splits)
  have "readline_loop False (buffer[i := b]) inp' (Suc i) k =
    Inr (0, take (Suc i) (buffer[i := b]) @ take k inp' @ drop (Suc i + k) (buffer[i := b]), drop k inp')"
    using Suc.prems(1) b(3) by (intro Suc.IH) simp_all
  with Suc.prems(1) b show ?case by (simp add: take_Suc_conv_app_nth)
qed

lemma readline_next:
  assumes "length buffer = maxline" and "0 < maxline"
  shows "readline False buffer inp maxline = Inr (case next_line maxline inp of
      Some (l, rest) \<Rightarrow> (length l, l @ drop (length l) buffer, rest)
    | None \<Rightarrow> (0, take maxline inp @ drop (min maxline (length inp)) buffer, drop maxline inp))"
proof (cases "inp = []")
  case True
  with assms show ?thesis by (cases maxline) (simp_all add: readline_def next_line_def)
next
  case False
  show ?thesis
  proof (cases "length (takeWhile (\<lambda>b. b \<noteq> NL) inp) < maxline")
    case True
    with False readline_loop_line [of 0 maxline buffer inp _, OF _ refl] assms show ?thesis
      by (simp add: readline_def next_line_def Let_def)
  next
    case long: False
    then have "maxline \<le> length inp" using length_takeWhile_le [of "\<lambda>b. b \<noteq> NL" inp] by simp
    with False long readline_loop_long [of 0 maxline buffer inp] assms show ?thesis
      by (simp add: readline_def next_line_def Let_def)
  qed
qed

section \<open>Reading the configuration\<close>

text \<open>The loop over the lines, with the buffer as the last line left it.\<close>

function read_lines :: "bool \<Rightarrow> bytes \<Rightarrow> bytes \<Rightarrow> nat \<Rightarrow> params \<Rightarrow> (nat \<times> params) res" where
  "read_lines err buffer inp i ps =
     rbind (readline err buffer inp MAX_LINE) (\<lambda>(n, buffer, inp).
     if n = 0 then Inr (i, ps)
     else rbind (config_line buffer i ps) (\<lambda>(buffer, i, ps). read_lines err buffer inp i ps))"
  by pat_completeness auto
termination
  by (relation "measure (\<lambda>(err, buffer, inp, i, ps). length inp)") (auto dest: readline_shorter)

declare read_lines.simps [simp del]

text \<open>
  \<open>file\<close>: the content, \<open>None\<close> when the file cannot be opened; \<open>junk\<close>: the uninitialised line buffer.
\<close>

definition read_config :: "bool \<Rightarrow> bytes option \<Rightarrow> bytes \<Rightarrow> params \<Rightarrow> (nat \<times> params) res" where
  "read_config err file junk ps =
     (case file of
        None \<Rightarrow> Inl Exit
      | Some inp \<Rightarrow>
          rbind (read_lines err junk inp 0 ps) (\<lambda>(i, ps'). if i \<noteq> length ps then Inl Exit else Inr (i, ps')))"

text \<open>The arguments of the program after its name: the one after the first \<open>-conf\<close>.\<close>

fun read_args :: "bytes list \<Rightarrow> bytes \<Rightarrow> bytes" where
  "read_args (a # b # rest) defaultval =
     (if a = cstr ''-conf'' then b else read_args (b # rest) defaultval)"
| "read_args _ defaultval = defaultval"

section \<open>Well-formed lines\<close>

lemma strtok_at_token:
  assumes "tok \<noteq> []" and "\<forall>b\<in>set tok. b \<noteq> 0 \<and> b \<notin> set ds" and "d \<in> set ds" and "d \<noteq> 0"
  shows "strtok_at ds (pre @ tok @ d # rest) (length pre) =
    Inr (Some tok, pre @ tok @ 0 # rest, Suc (length pre + length tok))"
proof -
  from assms(1) obtain b tok' where "tok = b # tok'" by (cases tok) auto
  with assms(2) have "takeWhile (\<lambda>b. b \<in> set ds) (tok @ d # rest) = []" "(pre @ tok @ d # rest) ! length pre \<noteq> 0"
    by auto
  moreover have "takeWhile (\<lambda>b. b \<noteq> 0 \<and> b \<notin> set ds) (tok @ d # rest) = tok"
    using assms(2,3) by (simp add: takeWhile_append2)
  ultimately show ?thesis
    using assms(4) by (simp add: strtok_at_def Let_def nth_append list_update_append)
qed

definition name_ok :: "bytes \<Rightarrow> bool" where
  "name_ok nm \<longleftrightarrow> nm \<noteq> [] \<and> hd nm \<noteq> HASH \<and> (\<forall>b\<in>set nm. b \<notin> {0, NL, TAB, SPACE})"

definition value_ok :: "bytes \<Rightarrow> bool" where
  "value_ok v \<longleftrightarrow> v \<noteq> [] \<and> (\<forall>b\<in>set v. b \<notin> {0, NL})"

lemma set_param_other: "nm \<notin> fst ` set ps \<Longrightarrow> set_param nm v ps = ps"
  by (induction ps) auto

lemma config_line_param:
  assumes "name_ok nm" and "value_ok v" and "sep = TAB \<or> sep = SPACE"
  shows "\<exists>buffer'. length buffer' = length (nm @ sep # v @ NL # rest) \<and>
    config_line (nm @ sep # v @ NL # rest) i ps =
      Inr (buffer', if nm \<in> fst ` set ps then Suc i else i, set_param nm v ps)"
proof -
  let ?b = "nm @ sep # v @ NL # rest"
  have ok: "nm \<noteq> []" "\<forall>b\<in>set nm. b \<noteq> 0 \<and> b \<notin> set [TAB, SPACE]"
    "v \<noteq> []" "\<forall>b\<in>set v. b \<noteq> 0 \<and> b \<notin> set [NL]"
    using assms(1,2) by (auto simp: name_ok_def value_ok_def)
  have t1: "strtok_at [TAB, SPACE] ?b 0 = Inr (Some nm, nm @ 0 # v @ NL # rest, Suc (length nm))"
    using strtok_at_token [OF ok(1,2), of sep "[]" "v @ NL # rest"] assms(3) by auto
  have "strtok_at [NL] ((nm @ [0]) @ v @ NL # rest) (length (nm @ [0])) =
      Inr (Some v, (nm @ [0]) @ v @ 0 # rest, Suc (length (nm @ [0]) + length v))"
    using strtok_at_token [OF ok(3,4), of NL "nm @ [0]" rest] by simp
  then have t2: "strtok_at [NL] (nm @ 0 # v @ NL # rest) (Suc (length nm)) =
      Inr (Some v, nm @ 0 # v @ 0 # rest, Suc (Suc (length nm + length v)))"
    by simp
  have h: "?b ! 0 \<noteq> HASH" using assms(1) by (cases nm) (auto simp: name_ok_def)
  show ?thesis
  proof (cases "nm \<in> fst ` set ps")
    case True
    with h t1 t2 show ?thesis
      by (intro exI [of _ "nm @ 0 # v @ 0 # rest"]) (simp add: config_line_def)
  next
    case False
    with h t1 set_param_other show ?thesis
      by (intro exI [of _ "nm @ 0 # v @ NL # rest"]) (simp add: config_line_def)
  qed
qed

text \<open>The lines of a configuration file: comments, and names with their values.\<close>

datatype cline = Comment bytes | Param bytes u8 bytes

fun line_text :: "cline \<Rightarrow> bytes" where
  "line_text (Comment c) = HASH # c @ [NL]"
| "line_text (Param nm sep v) = nm @ sep # v @ [NL]"

fun line_ok :: "cline \<Rightarrow> bool" where
  "line_ok (Comment c) \<longleftrightarrow> NL \<notin> set c \<and> length (line_text (Comment c)) \<le> MAX_LINE"
| "line_ok (Param nm sep v) \<longleftrightarrow> name_ok nm \<and> value_ok v \<and> (sep = TAB \<or> sep = SPACE) \<and>
     length (line_text (Param nm sep v)) \<le> MAX_LINE"

fun line_sets :: "cline \<Rightarrow> params \<Rightarrow> params" where
  "line_sets (Comment c) ps = ps"
| "line_sets (Param nm sep v) ps = set_param nm v ps"

fun line_counts :: "bytes set \<Rightarrow> cline \<Rightarrow> nat" where
  "line_counts names (Comment c) = 0"
| "line_counts names (Param nm sep v) = (if nm \<in> names then 1 else 0)"

lemma map_fst_set_param [simp]: "map fst (set_param nm v ps) = map fst ps"
  by (induction ps) auto

lemma line_sets_names [simp]: "fst ` set (line_sets l ps) = fst ` set ps"
  by (cases l) (simp_all, metis list.set_map map_fst_set_param)

lemma next_line_text:
  assumes "line_ok l"
  shows "next_line MAX_LINE (line_text l @ rest) = Some (line_text l, rest)"
proof -
  obtain b where b: "line_text l = b @ [NL]" "NL \<notin> set b" "length b < MAX_LINE"
    using assms by (cases l) (fastforce simp: name_ok_def value_ok_def)+
  then have "takeWhile (\<lambda>b. b \<noteq> NL) (b @ NL # rest) = b" by (subst takeWhile_append2) auto
  with b show ?thesis by (simp add: next_line_def Let_def)
qed

lemma config_line_ok:
  assumes "line_ok l" and "length (line_text l) \<le> length buffer"
  shows "\<exists>buffer'. length buffer' = length buffer \<and>
    config_line (line_text l @ drop (length (line_text l)) buffer) i ps =
      Inr (buffer', i + line_counts (fst ` set ps) l, line_sets l ps)"
proof (cases l)
  case (Comment c)
  then show ?thesis using assms(2) by (simp add: config_line_def)
next
  case (Param nm sep v)
  define r where "r = drop (length (line_text l)) buffer"
  have b: "line_text l @ r = nm @ sep # v @ NL # r" using Param by simp
  obtain buffer' where "length buffer' = length (nm @ sep # v @ NL # r)"
      "config_line (nm @ sep # v @ NL # r) i ps =
        Inr (buffer', if nm \<in> fst ` set ps then Suc i else i, set_param nm v ps)"
    using config_line_param [of nm v sep r i ps] assms(1) Param by auto
  moreover have "length (line_text l @ r) = length buffer" using assms(2) by (simp add: r_def)
  ultimately show ?thesis
    unfolding r_def [symmetric] b [symmetric] using Param by (intro exI [of _ buffer']) simp
qed

lemma read_lines_text:
  assumes "\<forall>l\<in>set ls. line_ok l" and "length buffer = MAX_LINE"
  shows "read_lines False buffer (concat (map line_text ls)) i ps =
    Inr (i + sum_list (map (line_counts (fst ` set ps)) ls), fold line_sets ls ps)"
  using assms
proof (induction ls arbitrary: buffer i ps)
  case Nil
  then show ?case
    using readline_next [of buffer MAX_LINE "[]"]
    by (subst read_lines.simps) (simp add: next_line_def MAX_LINE_def)
next
  case (Cons l ls)
  have len: "length (line_text l) \<le> MAX_LINE" "line_text l \<noteq> []" using Cons.prems(1) by (cases l; simp)+
  let ?rest = "concat (map line_text ls)" and ?buf = "line_text l @ drop (length (line_text l)) buffer"
  have r: "readline False buffer (line_text l @ ?rest) MAX_LINE = Inr (length (line_text l), ?buf, ?rest)"
    using readline_next [of buffer MAX_LINE "line_text l @ ?rest"] next_line_text [of l ?rest] Cons.prems
    by (simp add: MAX_LINE_def)
  obtain buffer' where b: "length buffer' = length buffer"
    "config_line ?buf i ps = Inr (buffer', i + line_counts (fst ` set ps) l, line_sets l ps)"
    using config_line_ok [of l buffer i ps] Cons.prems len by auto
  have "read_lines False buffer' ?rest (i + line_counts (fst ` set ps) l) (line_sets l ps) =
    Inr (i + line_counts (fst ` set ps) l + sum_list (map (line_counts (fst ` set (line_sets l ps))) ls),
      fold line_sets ls (line_sets l ps))"
    using Cons.prems b(1) by (intro Cons.IH) simp_all
  with r b len show ?case by (subst read_lines.simps) simp
qed

section \<open>What a configuration file sets\<close>

text \<open>The settings of the parameters of a program in a file.\<close>

fun settings :: "bytes set \<Rightarrow> cline list \<Rightarrow> (bytes \<times> bytes) list" where
  "settings names [] = []"
| "settings names (Comment c # ls) = settings names ls"
| "settings names (Param nm sep v # ls) =
     (if nm \<in> names then (nm, v) # settings names ls else settings names ls)"

lemma count_settings: "sum_list (map (line_counts names) ls) = length (settings names ls)"
  by (induction names ls rule: settings.induct) auto

lemma set_param_distinct:
  "distinct (map fst ps) \<Longrightarrow> set_param nm v ps = map (\<lambda>p. if fst p = nm then (fst p, Some v) else p) ps"
proof (induction ps)
  case Nil
  then show ?case by simp
next
  case (Cons p ps)
  have "\<forall>q\<in>set ps. fst q \<noteq> fst p"
  proof
    fix q assume "q \<in> set ps"
    then have "fst q \<in> fst ` set ps" by simp
    moreover have "fst p \<notin> fst ` set ps" using Cons.prems by simp
    ultimately show "fst q \<noteq> fst p" by metis
  qed
  then have "map (\<lambda>q. if fst q = fst p then (fst q, Some v) else q) ps = map id ps"
    by (intro map_cong) auto
  with Cons show ?case by (cases "fst p = nm") (simp_all del: map_eq_conv)
qed

lemma fold_line_sets:
  assumes "distinct (map fst ps)" and "distinct (map fst (settings (fst ` set ps) ls))"
  shows "fold line_sets ls ps = map (\<lambda>p. case map_of (settings (fst ` set ps) ls) (fst p) of
      None \<Rightarrow> p | Some v \<Rightarrow> (fst p, Some v)) ps"
  using assms
proof (induction ls arbitrary: ps)
  case Nil
  then show ?case by simp
next
  case (Cons l ls)
  let ?S = "settings (fst ` set ps) ls"
  have names: "distinct (map fst (line_sets l ps))" using Cons.prems(1) by (cases l) simp_all
  have d: "distinct (map fst ?S)" using Cons.prems(2) by (cases l) (auto split: if_splits)
  have IH: "fold line_sets ls (line_sets l ps) = map (\<lambda>p. case map_of ?S (fst p) of
      None \<Rightarrow> p | Some v \<Rightarrow> (fst p, Some v)) (line_sets l ps)"
    using Cons.IH [OF names] d by simp
  show ?case
  proof (cases l)
    case (Comment c)
    with IH show ?thesis by simp
  next
    case (Param nm sep v)
    show ?thesis
    proof (cases "nm \<in> fst ` set ps")
      case True
      then have "map_of ?S nm = None" using Cons.prems(2) Param by (auto simp: map_of_eq_None_iff)
      with IH Param True Cons.prems(1) show ?thesis
        by (simp add: set_param_distinct)
    next
      case False
      with IH Param show ?thesis by (simp add: set_param_other)
    qed
  qed
qed

lemma read_config_text:
  assumes "\<forall>l\<in>set ls. line_ok l" and "length junk = MAX_LINE" and "distinct (map fst ps)"
    and "distinct (map fst (settings (fst ` set ps) ls))"
    and "fst ` set (settings (fst ` set ps) ls) = fst ` set ps"
  shows "read_config False (Some (concat (map line_text ls))) junk ps =
    Inr (length ps, map (\<lambda>p. (fst p, map_of (settings (fst ` set ps) ls) (fst p))) ps)"
proof -
  let ?S = "settings (fst ` set ps) ls"
  have "length ?S = card (fst ` set ?S)" using assms(4) by (metis distinct_card length_map list.set_map)
  also have "\<dots> = length ps" using assms(3,5) by (metis distinct_card length_map list.set_map)
  finally have "length ?S = length ps" .
  moreover have "fold line_sets ls ps = map (\<lambda>p. (fst p, map_of ?S (fst p))) ps"
    unfolding fold_line_sets [OF assms(3,4)]
  proof (rule map_cong [OF refl])
    fix p assume "p \<in> set ps"
    then have "fst p \<in> fst ` set ?S" using assms(5) by simp
    then obtain v where "map_of ?S (fst p) = Some v" by (metis map_of_eq_None_iff not_None_eq)
    then show "(case map_of ?S (fst p) of None \<Rightarrow> p | Some v \<Rightarrow> (fst p, Some v)) = (fst p, map_of ?S (fst p))"
      by simp
  qed
  ultimately show ?thesis
    using read_lines_text [OF assms(1,2), of 0 ps] by (simp add: read_config_def count_settings)
qed

text \<open>
  In \<^verbatim>\<open>doc/desc/files.md\<close> any amount of spaces and tabs separates the name from the value. The second
  call of \<open>strtok\<close> only looks for the newline, so the value begins behind the first of them.
\<close>

definition documented_value :: "bytes \<Rightarrow> bytes" where
  "documented_value v = dropWhile (\<lambda>b. b = TAB \<or> b = SPACE) v"

lemma documented_value_id: "v \<noteq> [] \<Longrightarrow> documented_value v = v \<longleftrightarrow> hd v \<noteq> TAB \<and> hd v \<noteq> SPACE"
proof (cases v)
  case (Cons b bs)
  have "length (dropWhile (\<lambda>b. b = TAB \<or> b = SPACE) bs) \<le> length bs" by (rule length_dropWhile_le)
  then have "dropWhile (\<lambda>b. b = TAB \<or> b = SPACE) bs \<noteq> b # bs" by (metis length_Cons not_less_eq_eq order_refl)
  with Cons show ?thesis by (auto simp: documented_value_def)
qed simp

lemma settings_values:
  "\<forall>l\<in>set ls. line_ok l \<Longrightarrow> (nm, v) \<in> set (settings names ls) \<Longrightarrow> v \<noteq> []"
  by (induction names ls rule: settings.induct) (auto simp: value_ok_def split: if_splits)

text \<open>
  C37. Round trip of a configuration. Reading a file that was written as comment lines and lines of a
  name, one tab or space, and a value, each at most 1024 bytes long, and that sets every expected
  parameter once, gives every parameter exactly the bytes between that separator and the end of its
  line, in whatever order the lines are, whatever other names are set, and whatever the uninitialised
  buffer held. That is the documented value if and only if it does not itself begin with a tab or
  space: further separators become part of the value.
\<close>

theorem read_config_roundtrip:
  assumes "\<forall>l\<in>set ls. line_ok l" and "length junk = MAX_LINE" and "distinct (map fst ps)"
    and "distinct (map fst (settings (fst ` set ps) ls))"
    and "fst ` set (settings (fst ` set ps) ls) = fst ` set ps"
  shows "\<exists>qs. read_config False (Some (concat (map line_text ls))) junk ps = Inr (length ps, qs) \<and>
    qs = map (\<lambda>p. (fst p, map_of (settings (fst ` set ps) ls) (fst p))) ps \<and>
    (\<forall>(nm, v)\<in>set (settings (fst ` set ps) ls).
       (map_of qs nm = Some (Some (documented_value v))) = (hd v \<noteq> TAB \<and> hd v \<noteq> SPACE))"
proof -
  let ?S = "settings (fst ` set ps) ls"
  let ?qs = "map (\<lambda>p. (fst p, map_of ?S (fst p))) ps"
  have "(map_of ?qs nm = Some (Some (documented_value v))) = (hd v \<noteq> TAB \<and> hd v \<noteq> SPACE)"
    if s: "(nm, v) \<in> set ?S" for nm v
  proof -
    have "map_of ?S nm = Some v" using assms(4) s by simp
    moreover have "nm \<in> fst ` set ps" using assms(5) s by force
    then have "(nm, map_of ?S nm) \<in> set ?qs" by force
    moreover have "distinct (map fst ?qs)" using assms(3) by (simp add: comp_def)
    ultimately have "map_of ?qs nm = Some (Some v)" by simp
    then show ?thesis using documented_value_id [OF settings_values [OF assms(1) s]] by auto
  qed
  with read_config_text [OF assms] show ?thesis by auto
qed

theorem read_config_roundtrip_witness:
  "read_config False (Some (cstr ''#c'' @ [NL] @ cstr ''log_file l'' @ [NL] @ cstr ''file_server  h'' @ [NL]))
     (replicate MAX_LINE 7) (add_config_param (cstr ''log_file'') None (add_config_param (cstr ''file_server'') None [])) =
   Inr (2, [(cstr ''file_server'', Some (cstr '' h'')), (cstr ''log_file'', Some (cstr ''l''))]) \<and>
   documented_value (cstr '' h'') = cstr ''h''"
  using read_config_roundtrip [of "[Comment (cstr ''c''), Param (cstr ''log_file'') SPACE (cstr ''l''),
      Param (cstr ''file_server'') SPACE (cstr '' h'')]" "replicate MAX_LINE 7"
      "[(cstr ''file_server'', None), (cstr ''log_file'', None)]"]
  by (simp add: name_ok_def value_ok_def MAX_LINE_def add_config_param_def insert_commute documented_value_def)

text \<open>
  C38. \<open>readline\<close> returns the next line of the file: its bytes up to and with the newline, at the
  start of the buffer, and the rest of the buffer as it was; a newline is added to a last line
  without one. At the end of the file, and on a line that does not fit the buffer, it returns 0, so
  that a line of 1024 bytes or more looks like the end of the file.
\<close>

theorem readline_reference:
  assumes "length buffer = maxline" and "0 < maxline"
  shows "readline False buffer inp maxline = Inr (case next_line maxline inp of
      Some (l, rest) \<Rightarrow> (length l, l @ drop (length l) buffer, rest)
    | None \<Rightarrow> (0, take maxline inp @ drop (min maxline (length inp)) buffer, drop maxline inp))"
  using assms by (rule readline_next)

theorem readline_reference_witness:
  "readline False [0, 0, 0, 0] [97, 98] 4 = Inr (3, [97, 98, NL, 0], []) \<and>
   readline False [0, 0, 0, 0] [97, 98, 99, 100] 4 = Inr (0, [97, 98, 99, 100], [])"
  using readline_reference [of "[0, 0, 0, 0]" 4 "[97, 98]"]
    readline_reference [of "[0, 0, 0, 0]" 4 "[97, 98, 99, 100]"]
  by (simp add: next_line_def)

end
