(* ===== verification/Fscli.thy ===== *)
theory Fscli
  imports Fap_Conn Util_Config "HOL-Library.Sublist"
begin

text \<open>
  The client program (\<^verbatim>\<open>src/src/fscli.c\<close>): the prompt that reads a command line into a buffer of
  \<open>MAX_LINE\<close> bytes, finds the command by its prefix and calls the operations of \<open>Fap_Conn\<close> on the
  file name behind it. What the program prints with \<open>printf\<close> is collected in the state; the files
  that \<open>fap_read_file\<close> shows go to descriptor 1 of the network state. Messages on the error stream
  and the prompt itself are left out.
\<close>

section \<open>State\<close>

record cli =
  cl_conn :: fapcli
  cl_sd :: int
  cl_cwd :: bytes
  cl_stdin :: bytes
  cl_buf :: bytes
  cl_out :: bytes

text \<open>After a command the client prompts again, or it has ended with \<open>exit(0)\<close>.\<close>

datatype cli_next = Prompt cli | Ended cli

definition print :: "bytes \<Rightarrow> cli \<Rightarrow> cli" where
  "print b c = c\<lparr>cl_out := cl_out c @ b\<rparr>"

section \<open>Recognising a command\<close>

text \<open>Whether \<open>strncmp\<close> gives 0; the command string is a literal with its NUL.\<close>

fun strncmp_eq :: "bytes \<Rightarrow> bytes \<Rightarrow> nat \<Rightarrow> bool" where
  "strncmp_eq a b 0 = True"
| "strncmp_eq (x # a) (y # b) (Suc n) = (x = y \<and> (x = 0 \<or> strncmp_eq a b n))"
| "strncmp_eq _ _ (Suc n) = False"

text \<open>
  The conditions of \<open>CHECKCMD_ARGS\<close> and \<open>CHECKCMD_NOARGS\<close>: \<open>cmd\<close> is the name with the space or the
  newline that the macro adds.
\<close>

definition check_cmd :: "bytes \<Rightarrow> bytes \<Rightarrow> nat \<Rightarrow> bool" where
  "check_cmd cmd buffer len = strncmp_eq (cmd @ [0]) buffer (min len (length cmd))"

text \<open>
  The file name of a command with arguments: the newline behind the arguments at \<open>k\<close> is overwritten,
  and the working directory and the arguments are copied to a block of \<open>arglen + strlen(cwd)\<close> bytes.
\<close>

definition make_filename :: "bytes \<Rightarrow> nat \<Rightarrow> nat \<Rightarrow> bytes \<Rightarrow> (bytes \<times> bytes) res" where
  "make_filename buffer k arglen cwd =
     (if k + arglen - 1 \<ge> length buffer then Inl (Fault OutOfBounds)
      else
        let buffer = buffer[k + arglen - 1 := 0] in
        if 0 \<notin> set (drop k buffer) then Inl (Fault OutOfBounds)
        else
          let args = takeWhile (\<lambda>b. b \<noteq> 0) (drop k buffer) in
          if length cwd + length args + 1 > arglen + length cwd then Inl (Fault OutOfBounds)
          else Inr (cwd @ args, buffer))"

section \<open>The commands\<close>

definition error_if :: "int \<Rightarrow> cli \<Rightarrow> cli" where
  "error_if ret c = (if ret < 0 then print (cstr ''error'' @ [NL]) c else c)"

definition new_file :: "(nat \<Rightarrow> u8) \<Rightarrow> u64 \<Rightarrow> nat \<Rightarrow> nat \<Rightarrow> cli \<Rightarrow> cli res" where
  "new_file junk t k arglen c =
     rbind (make_filename (cl_buf c) k arglen (cl_cwd c)) (\<lambda>(filename, buffer).
     rbind (fap_create junk (cl_sd c) t filename (cl_conn c)) (\<lambda>(ret, conn).
     Inr (error_if ret (c\<lparr>cl_buf := buffer, cl_conn := conn\<rparr>))))"

text \<open>\<open>data\<close>: the uninitialised buffer for the text; \<open>err\<close>: whether standard input ends in an error.\<close>

definition edit_file :: "(nat \<Rightarrow> u8) \<Rightarrow> bool \<Rightarrow> bytes \<Rightarrow> u64 \<Rightarrow> nat \<Rightarrow> nat \<Rightarrow> cli \<Rightarrow> cli res" where
  "edit_file junk err data t k arglen c =
     rbind (make_filename (cl_buf c) k arglen (cl_cwd c)) (\<lambda>(filename, buffer).
     let c = print (cstr ''enter text: '') (c\<lparr>cl_buf := buffer\<rparr>) in
     rbind (readline err data (cl_stdin c) MAX_LINE) (\<lambda>(len, data, inp).
     let c = c\<lparr>cl_stdin := inp\<rparr> in
     if len = 0 then Inr c
     else
       rbind (fap_write_file junk (cl_sd c) t filename (take len data) (cl_conn c)) (\<lambda>(ret, conn).
       Inr (error_if ret (c\<lparr>cl_conn := conn\<rparr>)))))"

definition read_file :: "(nat \<Rightarrow> u8) \<Rightarrow> u64 \<Rightarrow> nat \<Rightarrow> nat \<Rightarrow> cli \<Rightarrow> cli res" where
  "read_file junk t k arglen c =
     rbind (make_filename (cl_buf c) k arglen (cl_cwd c)) (\<lambda>(filename, buffer).
     rbind (fap_read_file junk (cl_sd c) t filename (cl_conn c)) (\<lambda>(ret, conn).
     Inr (error_if ret (c\<lparr>cl_buf := buffer, cl_conn := conn\<rparr>))))"

text \<open>\<open>%.*s\<close> and \<open>%d\<close>: a negative precision counts as none.\<close>

definition print_name :: "fileinfo_sect \<Rightarrow> bytes res" where
  "print_name f =
     (if sint (fi_pathlen f) < 0
      then (if 0 \<in> set (fi_path f) then Inr (takeWhile (\<lambda>b. b \<noteq> 0) (fi_path f))
            else Inl (Fault OutOfBounds))
      else strndup (fi_path f) (fi_pathlen f))"

fun decimal :: "nat \<Rightarrow> bytes" where
  "decimal n = (if n < 10 then [of_nat (48 + n)] else decimal (n div 10) @ [of_nat (48 + n mod 10)])"

fun print_names :: "fileinfo_sect list \<Rightarrow> cli \<Rightarrow> cli res" where
  "print_names [] c = Inr c"
| "print_names (f # fs) c = rbind (print_name f) (\<lambda>b. print_names fs (print (b @ [SPACE]) c))"

definition list_dir :: "(nat \<Rightarrow> u8) \<Rightarrow> u64 \<Rightarrow> cli \<Rightarrow> cli res" where
  "list_dir junk t c =
     rbind (fap_list junk (cl_sd c) t 1 (cl_cwd c) (cl_conn c)) (\<lambda>(ret, files, conn).
     let c = c\<lparr>cl_conn := conn\<rparr> in
     if ret < 0 then Inr (print (cstr ''change_dir listing error'' @ [NL]) c)
     else
       rbind (print_names files c) (\<lambda>c.
       Inr (print ((if ret \<noteq> 0 then [NL] else []) @ decimal (nat ret) @ cstr '' files'' @ [NL]) c)))"

definition client_quit :: "(nat \<Rightarrow> u8) \<Rightarrow> u64 \<Rightarrow> cli \<Rightarrow> cli res" where
  "client_quit junk t c =
     rbind (fap_client_quit (cl_sd c) t (cl_conn c)) (\<lambda>(t, conn).
     rbind (fap_client_wait_ok junk (cl_sd c) t conn) (\<lambda>(ret, conn).
     Inr (print (cstr ''bye'' @ [NL]) (c\<lparr>cl_conn := conn\<rparr>))))"

definition working_dir :: "cli \<Rightarrow> cli" where
  "working_dir c = print (cl_cwd c @ [NL]) c"

text \<open>The chain of the \<open>CHECKCMD\<close> macros on a line of \<open>len\<close> bytes; the prefixes in their order.\<close>

definition run_command ::
  "(nat \<Rightarrow> u8) \<Rightarrow> bool \<Rightarrow> bytes \<Rightarrow> u64 \<Rightarrow> nat \<Rightarrow> cli \<Rightarrow> cli_next res" where
  "run_command junk err data t len c =
     (let is = \<lambda>cmd. check_cmd cmd (cl_buf c) len;
          again = \<lambda>r. rbind r (\<lambda>c. Inr (Prompt c)) in
      if is (cstr ''cd '') then Inr (Prompt c)
      else if is (cstr ''pwd'' @ [NL]) then Inr (Prompt (working_dir c))
      else if is (cstr ''ls'' @ [NL]) then again (list_dir junk t c)
      else if is (cstr ''ls '') then Inr (Prompt c)
      else if is (cstr ''cat '') then again (read_file junk t 4 (len - 4) c)
      else if is (cstr ''edit '') then again (edit_file junk err data t 5 (len - 5) c)
      else if is (cstr ''rm '') then Inr (Prompt c)
      else if is (cstr ''rmdir '') then Inr (Prompt c)
      else if is (cstr ''mkdir '') then Inr (Prompt c)
      else if is (cstr ''cp '') then Inr (Prompt c)
      else if is (cstr ''find '') then Inr (Prompt c)
      else if is (cstr ''touch '') then again (new_file junk t 6 (len - 6) c)
      else if is (cstr ''quit'' @ [NL]) then rbind (client_quit junk t c) (\<lambda>c. Inr (Ended c))
      else Inr (Prompt (print (cstr ''unknown command'' @ [NL]) c)))"

text \<open>One round of \<open>prompt_loop\<close>.\<close>

definition prompt_round :: "(nat \<Rightarrow> u8) \<Rightarrow> bool \<Rightarrow> bytes \<Rightarrow> u64 \<Rightarrow> cli \<Rightarrow> cli_next res" where
  "prompt_round junk err data t c =
     rbind (readline err (cl_buf c) (cl_stdin c) MAX_LINE) (\<lambda>(len, buffer, inp).
     let c = c\<lparr>cl_stdin := inp, cl_buf := buffer\<rparr> in
     if len = 0 then rbind (client_quit junk t c) (\<lambda>c. Inr (Ended c))
     else run_command junk err data t len c)"

section \<open>A command is found by its prefix\<close>

lemma strncmp_prefix:
  "0 \<notin> set cmd \<Longrightarrow> n \<le> length cmd \<Longrightarrow> n \<le> length buffer \<Longrightarrow>
     strncmp_eq (cmd @ z) buffer n \<longleftrightarrow> take n buffer = take n cmd"
proof (induction n arbitrary: cmd buffer)
  case 0
  then show ?case by simp
next
  case (Suc n)
  then obtain x a y b where "cmd = x # a" "buffer = y # b" by (cases cmd; cases buffer) auto
  with Suc show ?case by auto
qed

text \<open>
  On a line that ends in its only newline a command that has no newline, or only one at its end, is
  found exactly when the line begins with it.
\<close>

lemma check_cmd_prefix:
  assumes "NL \<notin> set l" and "0 \<notin> set cmd" and "NL \<notin> set (butlast cmd)"
  shows "check_cmd cmd (l @ NL # r) (Suc (length l)) \<longleftrightarrow> prefix cmd (l @ [NL])"
proof (cases "length cmd \<le> Suc (length l)")
  case True
  then have "check_cmd cmd (l @ NL # r) (Suc (length l)) \<longleftrightarrow> take (length cmd) (l @ NL # r) = cmd"
    using assms(2) by (simp add: check_cmd_def strncmp_prefix min_def)
  also have "take (length cmd) (l @ NL # r) = take (length cmd) (l @ [NL])"
    using True by (cases "length cmd = Suc (length l)") (simp_all add: le_Suc_eq)
  also have "(take (length cmd) (l @ [NL]) = cmd) \<longleftrightarrow> prefix cmd (l @ [NL])"
    by (metis append_eq_conv_conj append_take_drop_id prefix_def)
  finally show ?thesis .
next
  case False
  have "l @ [NL] \<noteq> take (Suc (length l)) cmd"
  proof
    assume "l @ [NL] = take (Suc (length l)) cmd"
    moreover have "take (Suc (length l)) cmd = take (Suc (length l)) (butlast cmd)"
      using False by (simp add: take_butlast)
    ultimately have "NL \<in> set (butlast cmd)" by (metis in_set_conv_decomp in_set_takeD)
    with assms(3) show False by simp
  qed
  moreover have "\<not> prefix cmd (l @ [NL])"
    using False by (metis length_append_singleton prefix_length_le)
  ultimately show ?thesis
    using False assms(2) by (simp add: check_cmd_def strncmp_prefix min_def)
qed

section \<open>The file name\<close>

lemma make_filename_ok:
  assumes "NL \<notin> set args"
  shows "make_filename (cmd @ args @ NL # r) (length cmd) (Suc (length args)) cwd =
    Inr (cwd @ takeWhile (\<lambda>b. b \<noteq> 0) args, cmd @ args @ 0 # r)"
proof -
  have z: "(cmd @ args @ NL # r)[length cmd + Suc (length args) - 1 := 0] = cmd @ args @ 0 # r"
    by (simp add: list_update_append)
  have t: "takeWhile (\<lambda>b. b \<noteq> 0) (args @ 0 # r) = takeWhile (\<lambda>b. b \<noteq> 0) args"
    by (induction args) auto
  have "length (takeWhile (\<lambda>b. b \<noteq> 0) args) \<le> length args" by (rule length_takeWhile_le)
  then show ?thesis by (simp add: make_filename_def Let_def list_update_append t)
qed

lemma line_filename:
  assumes "readline False buffer inp MAX_LINE = Inr (len, buf, inp')" and "length buffer = MAX_LINE"
    and "0 < len" and "check_cmd cmd buf len" and "0 \<notin> set cmd" and "NL \<notin> set cmd"
  shows "\<exists>args r. buf = cmd @ args @ NL # r \<and> NL \<notin> set args \<and> len = length cmd + Suc (length args) \<and>
    make_filename buf (length cmd) (len - length cmd) cwd =
      Inr (cwd @ takeWhile (\<lambda>b. b \<noteq> 0) args, cmd @ args @ 0 # r)"
proof -
  have "0 < MAX_LINE" by (simp add: MAX_LINE_def)
  from readline_next [OF assms(2) this, of inp] assms(1,3) obtain l where
    l: "next_line MAX_LINE inp = Some (l, inp')" "len = length l" "buf = l @ drop (length l) buffer"
    by (auto split: option.splits prod.splits)
  then obtain b where b: "l = b @ [NL]" "NL \<notin> set b"
    by (auto simp: next_line_def Let_def split: if_splits dest: set_takeWhileD)
  let ?r = "drop (length l) buffer"
  have "check_cmd cmd (b @ NL # ?r) (Suc (length b))" using assms(4) l b by simp
  moreover have "NL \<notin> set (butlast cmd)" using assms(6) by (metis in_set_butlastD)
  ultimately obtain x where x: "b @ [NL] = cmd @ x" using check_cmd_prefix [OF b(2) assms(5)] by (auto simp: prefix_def)
  have "x \<noteq> []" using x assms(6) by (metis append_self_conv append_is_Nil_conv in_set_conv_decomp)
  then obtain args where args: "x = args @ [NL]" using x by (metis append_butlast_last_id last_appendR last_snoc)
  with x have b': "b = cmd @ args" by simp
  with b have "NL \<notin> set args" by simp
  from make_filename_ok [OF this, of cmd ?r cwd] this b b' l show ?thesis
    by (intro exI [of _ args] exI [of _ ?r]) simp
qed

text \<open>
  C40. File names fit. Whatever is typed, when the prompt has found a command with arguments, the
  name it hands on is the working directory and the bytes behind the command up to the end of the
  line or a NUL; it fits the block that is allocated for it, and no byte outside the line is written.
\<close>

theorem prompt_filename_fits:
  assumes "readline False buffer inp MAX_LINE = Inr (len, buf, inp')" and "length buffer = MAX_LINE"
    and "0 < len" and "check_cmd cmd buf len" and "0 \<notin> set cmd" and "NL \<notin> set cmd"
  shows "\<exists>args r. buf = cmd @ args @ NL # r \<and> NL \<notin> set args \<and> len = length cmd + Suc (length args) \<and>
    make_filename buf (length cmd) (len - length cmd) cwd =
      Inr (cwd @ takeWhile (\<lambda>b. b \<noteq> 0) args, cmd @ args @ 0 # r)"
  using assms by (rule line_filename)

theorem prompt_filename_fits_witness:
  "\<exists>buf buf'. make_filename buf (length (cstr ''cat '')) (6 - length (cstr ''cat '')) [47] = Inr ([47, 97], buf')"
proof -
  let ?inp = "cstr ''cat a'' @ [NL]" and ?b = "replicate MAX_LINE 0"
  have r: "readline False ?b ?inp MAX_LINE = Inr (6, ?inp @ drop 6 ?b, [])"
    using readline_next [of ?b MAX_LINE ?inp] by (simp add: next_line_def MAX_LINE_def)
  have "check_cmd (cstr ''cat '') (cstr ''cat a'' @ NL # drop 6 ?b) (Suc (length (cstr ''cat a'')))"
    by (subst check_cmd_prefix) simp_all
  then have c: "check_cmd (cstr ''cat '') (?inp @ drop 6 ?b) 6" by (simp add: eval_nat_numeral)
  have n: "length ?b = MAX_LINE" "(0 :: nat) < 6" "0 \<notin> set (cstr ''cat '')" "NL \<notin> set (cstr ''cat '')"
    by simp_all
  obtain args r where "?inp @ drop 6 ?b = cstr ''cat '' @ args @ NL # r" "NL \<notin> set args"
    "6 = length (cstr ''cat '') + Suc (length args)"
    "make_filename (?inp @ drop 6 ?b) (length (cstr ''cat '')) (6 - length (cstr ''cat '')) [47] =
      Inr ([47] @ takeWhile (\<lambda>b. b \<noteq> 0) args, cstr ''cat '' @ args @ 0 # r)"
    using prompt_filename_fits [OF r n(1,2) c n(3,4), of "[47]"] by blast
  moreover from this have "[47] @ takeWhile (\<lambda>b. b \<noteq> 0) args = [47, 97]" by (cases args) auto
  ultimately show ?thesis by metis
qed

section \<open>The prompt runs the commands that are typed\<close>

text \<open>What a user can ask for, how it is typed, and what it means.\<close>

datatype shell = SPwd | SLs | SQuit | STouch bytes | SCat bytes | SEdit bytes bytes

fun shell_text :: "shell \<Rightarrow> bytes" where
  "shell_text SPwd = cstr ''pwd'' @ [NL]"
| "shell_text SLs = cstr ''ls'' @ [NL]"
| "shell_text SQuit = cstr ''quit'' @ [NL]"
| "shell_text (STouch n) = cstr ''touch '' @ n @ [NL]"
| "shell_text (SCat n) = cstr ''cat '' @ n @ [NL]"
| "shell_text (SEdit n text) = cstr ''edit '' @ n @ [NL] @ text @ [NL]"

definition arg_ok :: "bytes \<Rightarrow> bool" where
  "arg_ok n \<longleftrightarrow> NL \<notin> set n \<and> 0 \<notin> set n \<and> length n \<le> 1000"

fun shell_ok :: "shell \<Rightarrow> bool" where
  "shell_ok (STouch n) \<longleftrightarrow> arg_ok n"
| "shell_ok (SCat n) \<longleftrightarrow> arg_ok n"
| "shell_ok (SEdit n text) \<longleftrightarrow> arg_ok n \<and> NL \<notin> set text \<and> length text < MAX_LINE"
| "shell_ok _ \<longleftrightarrow> True"

definition report :: "cli \<Rightarrow> (int \<times> fapcli) res \<Rightarrow> cli_next res" where
  "report c r = rbind r (\<lambda>(ret, conn). Inr (Prompt (error_if ret (c\<lparr>cl_conn := conn\<rparr>))))"

fun shell_run :: "(nat \<Rightarrow> u8) \<Rightarrow> u64 \<Rightarrow> shell \<Rightarrow> cli \<Rightarrow> cli_next res" where
  "shell_run junk t SPwd c = Inr (Prompt (print (cl_cwd c @ [NL]) c))"
| "shell_run junk t SLs c = rbind (list_dir junk t c) (\<lambda>c. Inr (Prompt c))"
| "shell_run junk t SQuit c = rbind (client_quit junk t c) (\<lambda>c. Inr (Ended c))"
| "shell_run junk t (STouch n) c = report c (fap_create junk (cl_sd c) t (cl_cwd c @ n) (cl_conn c))"
| "shell_run junk t (SCat n) c = report c (fap_read_file junk (cl_sd c) t (cl_cwd c @ n) (cl_conn c))"
| "shell_run junk t (SEdit n text) c =
     report (print (cstr ''enter text: '') c)
       (fap_write_file junk (cl_sd c) t (cl_cwd c @ n) (text @ [NL]) (cl_conn c))"

lemma typed_line:
  assumes "NL \<notin> set l" and "length l < MAX_LINE" and "length buffer = MAX_LINE"
  shows "readline False buffer (l @ NL # rest) MAX_LINE =
    Inr (Suc (length l), l @ NL # drop (Suc (length l)) buffer, rest)"
proof -
  have "takeWhile (\<lambda>b. b \<noteq> NL) (l @ NL # rest) = l"
    using assms(1) by (subst takeWhile_append2) auto
  with readline_next [OF assms(3), of "l @ NL # rest"] assms(2) show ?thesis
    by (simp add: next_line_def Let_def MAX_LINE_def)
qed

lemma run_command_line:
  assumes "NL \<notin> set l" and "cl_buf c = l @ NL # r"
  shows "run_command junk err data t (Suc (length l)) c =
     (let is = \<lambda>cmd. prefix cmd (l @ [NL]);
          again = \<lambda>r. rbind r (\<lambda>c. Inr (Prompt c)); len = Suc (length l) in
      if is (cstr ''cd '') then Inr (Prompt c)
      else if is (cstr ''pwd'' @ [NL]) then Inr (Prompt (working_dir c))
      else if is (cstr ''ls'' @ [NL]) then again (list_dir junk t c)
      else if is (cstr ''ls '') then Inr (Prompt c)
      else if is (cstr ''cat '') then again (read_file junk t 4 (len - 4) c)
      else if is (cstr ''edit '') then again (edit_file junk err data t 5 (len - 5) c)
      else if is (cstr ''rm '') then Inr (Prompt c)
      else if is (cstr ''rmdir '') then Inr (Prompt c)
      else if is (cstr ''mkdir '') then Inr (Prompt c)
      else if is (cstr ''cp '') then Inr (Prompt c)
      else if is (cstr ''find '') then Inr (Prompt c)
      else if is (cstr ''touch '') then again (new_file junk t 6 (len - 6) c)
      else if is (cstr ''quit'' @ [NL]) then rbind (client_quit junk t c) (\<lambda>c. Inr (Ended c))
      else Inr (Prompt (print (cstr ''unknown command'' @ [NL]) c)))"
proof -
  have "check_cmd cmd (cl_buf c) (Suc (length l)) \<longleftrightarrow> prefix cmd (l @ [NL])"
    if "0 \<notin> set cmd" "NL \<notin> set (butlast cmd)" for cmd
    unfolding assms(2) by (rule check_cmd_prefix [OF assms(1) that])
  then show ?thesis by (simp add: run_command_def)
qed

text \<open>The first line of what is typed, without its newline, and the lines after it.\<close>

fun shell_line :: "shell \<Rightarrow> bytes" where
  "shell_line SPwd = cstr ''pwd''"
| "shell_line SLs = cstr ''ls''"
| "shell_line SQuit = cstr ''quit''"
| "shell_line (STouch n) = cstr ''touch '' @ n"
| "shell_line (SCat n) = cstr ''cat '' @ n"
| "shell_line (SEdit n text) = cstr ''edit '' @ n"

fun shell_more :: "shell \<Rightarrow> bytes" where
  "shell_more (SEdit n text) = text @ [NL]"
| "shell_more _ = []"

lemma shell_lines:
  "shell_text s = shell_line s @ NL # shell_more s"
  "shell_ok s \<Longrightarrow> NL \<notin> set (shell_line s) \<and> length (shell_line s) < MAX_LINE"
  by (cases s; simp add: arg_ok_def MAX_LINE_def)+

lemma typed_filename:
  assumes "arg_ok n" and "length cmd = k"
  shows "make_filename (cmd @ n @ NL # r) k (Suc (length n)) cwd = Inr (cwd @ n, cmd @ n @ 0 # r)"
proof -
  have "takeWhile (\<lambda>b. b \<noteq> 0) n = n" using assms(1) by (auto simp: arg_ok_def takeWhile_eq_all_conv)
  with make_filename_ok [of n cmd r cwd] assms show ?thesis by (simp add: arg_ok_def)
qed

lemma run_typed:
  assumes "shell_ok s" and "cl_buf c = shell_line s @ NL # r" and "cl_stdin c = shell_more s @ rest"
    and "length data = MAX_LINE"
  shows "\<exists>b. run_command junk False data t (Suc (length (shell_line s))) c =
    shell_run junk t s (c\<lparr>cl_stdin := rest, cl_buf := b\<rparr>)"
proof -
  note run = run_command_line [OF conjunct1 [OF shell_lines(2) [OF assms(1)]] assms(2), of junk False data t]
  have same: "c\<lparr>cl_stdin := cl_stdin c, cl_buf := cl_buf c\<rparr> = c" by simp
  have std: "cl_stdin c = rest \<Longrightarrow> c\<lparr>cl_stdin := rest\<rparr> = c" by auto
  show ?thesis
  proof (cases s)
    case SPwd
    with run have "run_command junk False data t (Suc (length (shell_line s))) c = shell_run junk t s c"
      by (simp add: working_dir_def)
    with same SPwd assms(3) show ?thesis by (metis append_Nil shell_more.simps(2))
  next
    case SLs
    with run have "run_command junk False data t (Suc (length (shell_line s))) c = shell_run junk t s c"
      by simp
    with same SLs assms(3) show ?thesis by (metis append_Nil shell_more.simps(3))
  next
    case SQuit
    with run have "run_command junk False data t (Suc (length (shell_line s))) c = shell_run junk t s c"
      by simp
    with same SQuit assms(3) show ?thesis by (metis append_Nil shell_more.simps(4))
  next
    case (STouch n)
    let ?k = "cstr ''touch ''"
    have "make_filename (cl_buf c) 6 (Suc (length n)) (cl_cwd c) = Inr (cl_cwd c @ n, ?k @ n @ 0 # r)"
      using typed_filename [of n ?k 6 r "cl_cwd c"] assms STouch by simp
    with STouch assms(3) run show ?thesis
      by (intro exI [of _ "?k @ n @ 0 # r"])
        (simp add: new_file_def report_def rbind_assoc split_def std)
  next
    case (SCat n)
    let ?k = "cstr ''cat ''"
    have "make_filename (cl_buf c) 4 (Suc (length n)) (cl_cwd c) = Inr (cl_cwd c @ n, ?k @ n @ 0 # r)"
      using typed_filename [of n ?k 4 r "cl_cwd c"] assms SCat by simp
    with SCat assms(3) run show ?thesis
      by (intro exI [of _ "?k @ n @ 0 # r"])
        (simp add: read_file_def report_def rbind_assoc split_def std)
  next
    case (SEdit n tx)
    let ?k = "cstr ''edit ''"
    have f: "make_filename (cl_buf c) 5 (Suc (length n)) (cl_cwd c) = Inr (cl_cwd c @ n, ?k @ n @ 0 # r)"
      using typed_filename [of n ?k 5 r "cl_cwd c"] assms SEdit by simp
    have "readline False data (cl_stdin c) MAX_LINE =
        Inr (Suc (length tx), tx @ NL # drop (Suc (length tx)) data, rest)"
      using typed_line [of tx data rest] assms SEdit by simp
    with SEdit f run show ?thesis
      by (intro exI [of _ "?k @ n @ 0 # r"])
        (simp add: edit_file_def report_def rbind_assoc split_def print_def, rule rbind_cong [OF refl],
          rule arg_cong [of _ _ "\<lambda>x. Inr (Prompt x)"], rule arg_cong [of _ _ "error_if _"], simp)
  qed
qed



end
