(* ===== verification/Spec2Isabelle.thy ===== *)
theory Spec2Isabelle
  imports Net_Prelude Byteorder Sockets Protomsg Wire_Out Wire_In Netutil Msg_Io Fap_Msg Dcp_Msg Dcp_Conn
    Dirtree Fsdird Fctp Fap_Conn Fsservd Util_Config Fscli
begin

text \<open>
  Verification of a small distributed file system in C (\<^verbatim>\<open>src/src/\<close>): a directory server
  \<^verbatim>\<open>fsdird\<close> that keeps the tree of file names, file servers \<^verbatim>\<open>fsservd\<close> that keep the files, and an
  interactive client \<^verbatim>\<open>fscli\<close>. The client talks to a file server over FAP, a file server to the
  directory server over DCP, and file servers to each other over FCTP; all three protocols share one
  message format (\<^verbatim>\<open>protomsg.c\<close>).

  Parts, theories and sources.
  \<^item> \<open>Net_Prelude\<close>: machine words, the ways a C computation stops (\<open>stop\<close>: \<open>exit\<close>, a fault with its
    cause, a deadlock, a loop that never ends), sequencing with \<open>rbind\<close>, memory images, C strings.
  \<^item> \<open>Byteorder\<close>: \<open>htons\<close>, \<open>htonl\<close>, \<open>htonll\<close> and back (\<^verbatim>\<open>protomsg.h\<close>, \<^verbatim>\<open>protomsg.c\<close>), on a little-endian host.
  \<^item> \<open>Sockets\<close>: streams that arrive in arbitrary pieces, the results of writes (all, some or none of the
    bytes, or a failure), readers that fail, and the locales
    \<open>wire_codec\<close> and \<open>field_codec\<close>, the contract of an encoder and the reader of its fields.
  \<^item> \<open>Protomsg\<close>: sections, the union \<open>section_data\<close>, messages, \<open>fsmsg_create\<close>, \<open>fsmsg_add_section\<close>, the
    copies, the access macros (\<^verbatim>\<open>protomsg.c\<close>, \<^verbatim>\<open>protomsg.h\<close>).
  \<^item> \<open>Wire_Out\<close>: \<open>fsmsg_to_buffer\<close>, with the wire format \<open>wire\<close> as its specification, and the documented
    format \<open>documented_wire\<close>, which differs in the number of ids of FCTP.
  \<^item> \<open>Wire_In\<close>: \<open>fsmsg_from_socket\<close>; the codecs of all fields and sections are interpretations of the
    locales of \<open>Sockets\<close>.
  \<^item> \<open>Msg_Io\<close>: the network state of a process (\<open>netw\<close>: per descriptor what will arrive and what was
    written), \<open>fsmsg_send\<close>, the macro \<open>TESTST\<close>, and the locale \<open>section_checker\<close> of the functions
    that check the sections of a message against a set of payloads.
  \<^item> \<open>Netutil\<close>: \<open>recvfile\<close> (\<^verbatim>\<open>netutil.c\<close>), with the result of each of its writes as an argument.
  \<^item> \<open>Fap_Msg\<close>, \<open>Fap_Conn\<close>: the client protocol (\<^verbatim>\<open>fap.c\<close>): messages, validation and response checks;
    the operations of the client and the accepting end.
  \<^item> \<open>Dcp_Msg\<close>, \<open>Dcp_Conn\<close>: the directory protocol (\<^verbatim>\<open>dcp.c\<close>) in the same way. \<open>Fap_Msg\<close> and
    \<open>Dcp_Msg\<close> interpret \<open>section_checker\<close> on their validation functions, and state the messages of
    the protocol document (\<open>fap_documented\<close>, \<open>dcp_documented\<close>) to compare them with.
  \<^item> \<open>Fctp\<close>: file transfer between file servers (\<^verbatim>\<open>fctp.c\<close>) on a model of the local files.
  \<^item> \<open>Dirtree\<close>: the linked tree of the directory server (\<^verbatim>\<open>fsdird.c\<close>, from \<open>dir_init\<close> on) as a heap of
    nodes, the abstract tree it represents, and the locale \<open>directory\<close> of the laws of finding,
    adding and assigning, interpreted on the heap operations as \<open>fstree\<close>.
  \<^item> \<open>Fsdird\<close>: the state and the handlers of the directory server (\<^verbatim>\<open>fsdird.c\<close>).
  \<^item> \<open>Fsservd\<close>: the state, the table of clients and the commands of the file server (\<^verbatim>\<open>fsservd.c\<close>).
  \<^item> \<open>Util_Config\<close>: \<open>readline\<close> and the configuration files (\<^verbatim>\<open>util.c\<close>).
  \<^item> \<open>Fscli\<close>: the prompt of the client (\<^verbatim>\<open>fscli.c\<close>).

  A C function keeps its name. A process is a record of its globals; a handler takes and returns it.
  Pointers that are only passed on are the values they point to, except in \<open>Dirtree\<close>, where
  addresses matter. A function of type \<open>res\<close> yields \<open>Inl\<close> where the C function exits, faults, waits
  for itself or never ends, and \<open>Inr\<close> otherwise. What a loop does with one message, connection or line
  is a definition with the suffix \<open>_round\<close>. Uninitialised memory is an argument \<open>junk\<close>, random
  transaction ids, host names and the results of \<open>connect\<close> and \<open>accept\<close> are arguments as well.

  What the lemmas show.
  \<^item> Messages: serialising gives the wire format, receiving inverts it when each field arrives whole,
    short reads go unnoticed, whatever is received is well-formed.
  \<^item> Protocols: which messages validation accepts, compared with those of the protocol document
    (\<^verbatim>\<open>protocols.md\<close>) both ways, and that it dereferences NULL exactly on proper truncations of the
    accepted ones; the handshakes agree on ids and names.
  \<^item> Directory: the heap operations refine lookup and insertion in a tree; invariants of every
    reachable state, no loop of a handler runs forever, what each request answers, and the requests
    that block or crash the server.
  \<^item> File server: forwarding of listings and creations, serving of files, the life of the table of
    clients. Client: configuration, command lines, results of the operations.
  \<^item> This theory: a listing, a creation, a write and a read, each as an exchange between the processes.
  Where the code does something else than its documents say (levels of a listing, answers to a
  creation, parts of a file, refresh, ids of FCTP, blanks in a configuration), the theorems state what
  the code does, and their texts name the difference.

  Bounds. The loops over the children of a node (\<open>find_child\<close>, \<open>last_sibling\<close>, \<open>list_children\<close>) have
  one step more than the heap has nodes, and \<open>Diverge\<close> when these run out; represented trees have no
  cycles, and \<open>dird_round_ends\<close> shows that no reachable state runs out of them.
  \<open>recvfile\<close> is a partial function; \<open>recvfile_returns_iff\<close> says exactly when it returns, and with what,
  for complete, short and failing writes. All other recursions are total.
  Messages are limited to \<open>MSG_MAX\<close> bytes by the \<open>int\<close> arithmetic of the serialisation, and one call
  of \<open>sendfile\<close> to \<open>SENDFILE_MAX\<close> bytes by the kernel.

  Assumptions. x86-64, the default build (the Makefile does not define \<open>NDEBUG\<close>, so the debug output
  is part of the code), memory that does not run out, and a C library whose \<open>strtok\<close>, \<open>strdup\<close>,
  \<open>read\<close>, \<open>write\<close> and mutexes behave as documented; unlocking a free mutex has no effect.
  The allocator is that of glibc, whose rounding covers the 7 bytes that \<open>fsmsg_add_section\<close> asks too
  little (the check is part of the model). Messages are written to blocking sockets in one piece or
  fail; writes of file data, and \<open>sendfile\<close>, may also be short.
  Memory from \<open>malloc\<close> holds anything, but the same in all fresh blocks of one reception; the \<open>int\<close>
  that counts received bytes is not modelled, and the data of an empty string, a pointer that
  is never set, is an empty block.
  Handlers of the directory server run one at a time; its \<open>strtok\<close> has one global position.

  Not modelled: \<open>start_listen\<close>, \<open>get_server_address\<close>, \<open>fctp_connect\<close>, \<open>connect_dirserv\<close> and
  \<open>start_connect\<close> (loops over system calls whose results are arguments here), \<open>syscallerr\<close>, \<open>logopen\<close>,
  \<open>logwrite\<close> and \<open>syslog\<close> (output), \<open>fsmsg_free\<close> (only its double free in \<open>Fctp\<close>), the \<open>main\<close> functions
  and \<open>go_daemon\<close> (empty), the random numbers of \<open>nexttid\<close>, and the interleaving of the threads.
\<close>

section \<open>The three processes together\<close>

text \<open>
  \<open>deliver sd b net\<close>: the bytes \<open>b\<close> reach the descriptor \<open>sd\<close> next. An exchange of the processes is
  described by the bytes that pass between them: what one process writes is what reaches the other.
\<close>

definition deliver :: "int \<Rightarrow> bytes \<Rightarrow> netw \<Rightarrow> netw" where
  "deliver sd b net = net\<lparr>inq := (inq net)(sd := b # inq net sd)\<rparr>"

lemma deliver_simps [simp]:
  "inq (deliver sd b net) sd' = (if sd' = sd then b # inq net sd else inq net sd')"
  "outq (deliver sd b net) = outq net" "out_ok (deliver sd b net) = out_ok net"
  "in_err (deliver sd b net) = in_err net" "out_wr (deliver sd b net) = out_wr net"
  by (simp_all add: deliver_def)

text \<open>On a data connection the bytes arrive in pieces \<open>ps\<close> that the network chooses.\<close>

definition deliver_pieces :: "int \<Rightarrow> stream \<Rightarrow> netw \<Rightarrow> netw" where
  "deliver_pieces sd ps net = net\<lparr>inq := (inq net)(sd := ps @ inq net sd)\<rparr>"

lemma deliver_pieces_simps [simp]:
  "inq (deliver_pieces sd ps net) sd' = (if sd' = sd then ps @ inq net sd else inq net sd')"
  "outq (deliver_pieces sd ps net) = outq net" "out_ok (deliver_pieces sd ps net) = out_ok net"
  "in_err (deliver_pieces sd ps net) = in_err net" "out_wr (deliver_pieces sd ps net) = out_wr net"
  by (simp_all add: deliver_pieces_def)

text \<open>The listing of at most a million names of file-name length fits into the messages.\<close>

definition namable :: "bytes \<Rightarrow> bool" where
  "namable nm \<longleftrightarrow> nm \<noteq> [] \<and> length nm \<le> 255"

lemma namable_info: "namable nm \<Longrightarrow> fi_receivable (name_info nm)"
  by (simp add: namable_def name_info_receivable)

lemma listing_size:
  "\<forall>nm\<in>set nms. namable nm \<Longrightarrow>
     sum_list (map section_size (map fi_sec (map name_info nms))) \<le> 282 * length nms"
proof (induction nms)
  case Nil
  then show ?case by simp
next
  case (Cons nm nms)
  then show ?case by (simp add: namable_def name_info_def)
qed

lemma listing_complete:
  assumes "\<forall>nm\<in>set nms. namable nm" and "length nms < 2 ^ 20"
  shows "complete_msg FAP (fap_msg t s c f (FFileinfo (of_nat (length nms)) (map name_info nms)))"
proof -
  have "282 * length nms < 2 ^ 29" using assms(2) by simp
  with listing_size [OF assms(1)]
  have "int (length (wire FAP (fap_msg t s c f (FFileinfo (of_nat (length nms)) (map name_info nms))))) \<le> MSG_MAX"
    by (simp add: length_wire_fap MSG_MAX_def del: map_map)
  with assms(1) namable_info show ?thesis
    by (auto simp: complete_fap_msg list_all_iff)
qed

lemma listing_listable:
  assumes "\<forall>k\<in>set (akids kd). namable (aname k)" and "length (akids kd) < 2 ^ 20"
  shows "listable info kd"
proof -
  let ?ns = "map aname (akids kd)"
  have n: "\<forall>nm\<in>set ?ns. namable nm" using assms(1) by auto
  have "complete_msg FAP (fap_msg 0 0 0 0 (FFileinfo (of_nat (length ?ns)) (map name_info ?ns)))"
    using n assms(2) by (intro listing_complete) simp_all
  from listing_fits(1) [OF this] have "complete_msg DCP (listing info kd)"
    by (simp add: listing_def comp_def)
  with assms show ?thesis by (auto simp: listable_def namable_def complete_msg_def)
qed

lemma list_exchange:
  assumes ids: "fc_sid c = fs_sid s" "fc_fsid c = fs_fsid s" "fc_cid c = ci_id info"
      "sv_id srv = fs_sid s" "fs_fsid s = dird_fsid"
    and server: "i < length (fs_clients s)" "info = fs_clients s ! i" "ci_sd info \<noteq> fs_dssd s"
    and dirserver: "k < length (dd_servers d)" "srv = dd_servers d ! k" "\<not> dd_lock d"
      "represents (dd_heap d) tr" "alookup tr (levels dir) = Some kd"
    and names: "\<forall>x\<in>set (akids kd). namable (aname x)" "length (akids kd) < 2 ^ 20"
    and path: "length dir < 2 ^ 29" "0 \<notin> set dir"
    and alive: "out_ok (fc_net c) csd" "out_ok (fs_net s) (ci_sd info)" "out_ok (fs_net s) (fs_dssd s)"
      "out_ok (dd_net d) (sv_sd srv)"
  shows "\<exists>q1 q2 a2 a1 c' s' d' files.
    fap_list jc csd t r dir (c\<lparr>fc_net := deliver csd a1 (fc_net c)\<rparr>) =
      Inr (int (length (akids kd)), files, c') \<and>
    outq (fc_net c') csd = outq (fc_net c) csd @ q1 \<and>
    serve_client_round js connect rnd i
        (s\<lparr>fs_net := deliver (ci_sd info) q1 (deliver (fs_dssd s) a2 (fs_net s))\<rparr>) = Inr (True, s') \<and>
    outq (fs_net s') (fs_dssd s) = outq (fs_net s) (fs_dssd s) @ q2 \<and>
    outq (fs_net s') (ci_sd info) = outq (fs_net s) (ci_sd info) @ a1 \<and>
    serve_fileserver_round jd k (d\<lparr>dd_net := deliver (sv_sd srv) q2 (dd_net d)\<rparr>) = Inr (True, d') \<and>
    outq (dd_net d') (sv_sd srv) = outq (dd_net d) (sv_sd srv) @ a2 \<and>
    dd_heap d' = dd_heap d \<and> map fi_path files = map aname (akids kd)"
proof -
  let ?n = "length (akids kd)" and ?fs = "map (\<lambda>x. name_info (aname x)) (akids kd)"
  let ?gs = "map (fi_pad_update (\<lambda>_. fresh_pad js)) ?fs"
  let ?q1 = "wire FAP (fap_msg t (fs_sid s) (ci_id info) (fs_fsid s) (FList 1 dir))"
  let ?q2 = "wire DCP (dcp_msg (rnd 0) (fs_fsid s) (fs_sid s) (DRead 1 dir))"
  let ?a2 = "wire DCP (dcp_msg (rnd 0) (fs_sid s) (fs_fsid s) (DFileinfos (of_nat ?n) ?fs))"
  let ?a1 = "wire FAP (fap_msg t (fs_sid s) (ci_id info) (fs_fsid s) (FFileinfo (of_nat ?n) ?gs))"
  have recv: "list_all fi_receivable ?fs" using names(1) namable_info by (auto simp: list_all_iff)
  then have recv': "list_all fi_receivable ?gs"
    by (auto simp: list_all_iff fi_receivable_def fileinfo_ok_def)
  have fit: "complete_msg FAP (fap_msg t (fs_sid s) (ci_id info) (fs_fsid s) (FFileinfo (of_nat ?n) ?fs))"
    using listing_complete [of "map aname (akids kd)"] names by (simp add: comp_def)
  have lst: "wire DCP (listing (srv\<lparr>sv_lasttid := rnd 0\<rparr>) kd) = ?a2"
    using ids by (simp add: listing_def)
  have cli: "\<exists>c'. fap_list jc csd t r dir (c\<lparr>fc_net := deliver csd ?a1 (fc_net c)\<rparr>) =
      Inr (int ?n, map (\<lambda>f. f\<lparr>fi_pad := fresh_pad jc\<rparr>) ?gs, c') \<and>
    outq (fc_net c') csd = outq (fc_net c) csd @ ?q1"
    using fap_list_answered [OF path(1), of ?gs t "c\<lparr>fc_net := deliver csd ?a1 (fc_net c)\<rparr>" csd
        "inq (fc_net c) csd" jc r] recv' listing_fits(2) [OF fit] names(2) alive(1) ids
    by simp
  have srv: "\<exists>s'. serve_client_round js connect rnd i
        (s\<lparr>fs_net := deliver (ci_sd info) ?q1 (deliver (fs_dssd s) ?a2 (fs_net s))\<rparr>) = Inr (True, s') \<and>
    outq (fs_net s') (fs_dssd s) = outq (fs_net s) (fs_dssd s) @ ?q2 \<and>
    outq (fs_net s') (ci_sd info) = outq (fs_net s) (ci_sd info) @ ?a1"
    using serve_list_answers [of i "s\<lparr>fs_net := deliver (ci_sd info) ?q1 (deliver (fs_dssd s) ?a2 (fs_net s))\<rparr>"
        info t "fs_sid s" "ci_id info" "fs_fsid s" 1 dir "inq (fs_net s) (ci_sd info)" ?fs rnd
        "inq (fs_net s) (fs_dssd s)" js connect] server path(1) names(2) recv fit alive
    by simp
  have dir: "\<exists>d'. serve_fileserver_round jd k (d\<lparr>dd_net := deliver (sv_sd srv) ?q2 (dd_net d)\<rparr>) =
      Inr (True, d') \<and> dd_heap d' = dd_heap d \<and>
    outq (dd_net d') (sv_sd srv) = outq (dd_net d) (sv_sd srv) @ ?a2"
    using serve_round_read [of "d\<lparr>dd_net := deliver (sv_sd srv) ?q2 (dd_net d)\<rparr>" srv "rnd 0" "fs_fsid s"
        "fs_sid s" 1 dir "inq (dd_net d) (sv_sd srv)" k tr kd jd]
      path dirserver alive(4) listing_listable [OF names] lst
    by auto
  have "map fi_path (map (\<lambda>f. f\<lparr>fi_pad := fresh_pad jc\<rparr>) ?gs) = map aname (akids kd)"
    by (simp add: name_info_def)
  with cli srv dir show ?thesis by blast
qed

text \<open>A directory with one file, for concrete runs.\<close>

definition one_file :: heap where
  "one_file = [(new_node [slash])\<lparr>nd_children := Some 1\<rparr>, (new_node (cstr ''a''))\<lparr>nd_fileserv := Some 0\<rparr>]"

lemma one_file_represents:
  "represents one_file (ANode dirroot [slash] None [ANode 1 (cstr ''a'') (Some 0) []])"
  by (simp add: represents_def one_file_def dirroot_def new_node_def)

lemma create_exchange:
  assumes ids: "fc_sid c = fs_sid s" "fc_fsid c = fs_fsid s" "fc_cid c = ci_id info"
      "sv_id srv = fs_sid s" "fs_fsid s = dird_fsid"
    and server: "i < length (fs_clients s)" "info = fs_clients s ! i" "ci_sd info \<noteq> fs_dssd s"
      "namable (ci_user info)" "open_create (fs_host s) (local_path (fs_dataloc s) (path_of p nm)) = Some hs"
    and dirserver: "k < length (dd_servers d)" "srv = dd_servers d ! k" "\<not> dd_lock d" "dir_ok (dd_heap d)"
      "dir_find_node (dd_heap d) p True \<noteq> Inr None"
      "dir_find_node (dd_heap d) (path_of p nm) True = Inr None"
    and path: "length (path_of p nm) < 2 ^ 29" "0 \<notin> set (path_of p nm)" "base_name nm" "length nm \<le> 255"
    and alive: "out_ok (fc_net c) csd" "out_ok (fs_net s) (ci_sd info)" "out_ok (fs_net s) (fs_dssd s)"
      "out_ok (dd_net d) (sv_sd srv)"
  shows "\<exists>q1 q2 a2 a1 c' s' d' n.
    fap_create jc csd t (path_of p nm) (c\<lparr>fc_net := deliver csd a1 (fc_net c)\<rparr>) = Inr (0, c') \<and>
    outq (fc_net c') csd = outq (fc_net c) csd @ q1 \<and>
    serve_client_round js connect rnd i
        (s\<lparr>fs_net := deliver (ci_sd info) q1 (deliver (fs_dssd s) a2 (fs_net s))\<rparr>) = Inr (True, s') \<and>
    outq (fs_net s') (fs_dssd s) = outq (fs_net s) (fs_dssd s) @ q2 \<and>
    outq (fs_net s') (ci_sd info) = outq (fs_net s) (ci_sd info) @ a1 \<and> fs_host s' = hs \<and>
    serve_fileserver_round jd k (d\<lparr>dd_net := deliver (sv_sd srv) q2 (dd_net d)\<rparr>) = Inr (True, d') \<and>
    outq (dd_net d') (sv_sd srv) = outq (dd_net d) (sv_sd srv) @ a2 \<and> \<not> dd_lock d' \<and>
    dir_find_node (dd_heap d') (path_of p nm) True = Inr (Some n) \<and> nd_fileserv (dd_heap d' ! n) = Some k"
proof -
  let ?p = "path_of p nm" and ?f = "name_info nm"
  let ?g = "?f\<lparr>fi_pad := fresh_pad js\<rparr>"
  let ?q1 = "wire FAP (fap_msg t (fs_sid s) (ci_id info) (fs_fsid s) (FCreate ?p 1))"
  let ?fi = "path_info ?p (ci_user info)"
  let ?q2 = "wire DCP (dcp_msg (rnd 0) (fs_fsid s) (fs_sid s) (DCreate ?fi))"
  let ?a2 = "wire DCP (dcp_msg (rnd 0) (fs_sid s) (fs_fsid s) (DFileinfos 1 [?f]))"
  let ?a1 = "wire FAP (fap_msg t (fs_sid s) (ci_id info) (fs_fsid s) (FFileinfo 1 [?g]))"
  have nm: "nm \<noteq> []" "?p \<noteq> []" using path(3) by (simp_all add: base_name_def path_of_def)
  have f: "fi_receivable ?f" "length (fi_path ?f) + length (fi_username ?f) < 2 ^ 29"
    using nm path(4) by (auto simp: name_info_receivable) (simp add: name_info_def)
  note fit = listing_fits(2) [OF one_info_complete [OF f]]
  have cli: "\<exists>c'. fap_create jc csd t ?p (c\<lparr>fc_net := deliver csd ?a1 (fc_net c)\<rparr>) = Inr (0, c') \<and>
    outq (fc_net c') csd = outq (fc_net c) csd @ ?q1"
    using fap_create_created [OF path(1), of "c\<lparr>fc_net := deliver csd ?a1 (fc_net c)\<rparr>" csd t ?g
        "inq (fc_net c) csd" jc] fit [where p = "fresh_pad js"] alive(1) ids
    by simp
  have srv: "\<exists>s'. serve_client_round js connect rnd i
        (s\<lparr>fs_net := deliver (ci_sd info) ?q1 (deliver (fs_dssd s) ?a2 (fs_net s))\<rparr>) = Inr (True, s') \<and>
      fs_host s' = hs \<and>
    outq (fs_net s') (fs_dssd s) = outq (fs_net s) (fs_dssd s) @ ?q2 \<and>
    outq (fs_net s') (ci_sd info) = outq (fs_net s) (ci_sd info) @ ?a1"
    using serve_create_answers [of i "s\<lparr>fs_net := deliver (ci_sd info) ?q1 (deliver (fs_dssd s) ?a2 (fs_net s))\<rparr>"
        info t "fs_sid s" "ci_id info" "fs_fsid s" ?p 1 "inq (fs_net s) (ci_sd info)"
        "dcp_msg (rnd 0) (fs_sid s) (fs_fsid s) (DFileinfos 1 [?f])" "inq (fs_net s) (fs_dssd s)" rnd ?f hs
        "FFileinfo 1 [?g]" js "[]" connect] server path(1,2) nm f alive
    by (simp add: namable_def)
  have str: "strndup (fi_path ?fi) (fi_pathlen ?fi) = Inr ?p"
    using strndup_exact [of "fi_pathlen ?fi" ?p] path(1,2) by (simp add: path_info_def unat_of_nat)
  have dir: "\<exists>d' n. serve_fileserver_round jd k (d\<lparr>dd_net := deliver (sv_sd srv) ?q2 (dd_net d)\<rparr>) =
      Inr (True, d') \<and> \<not> dd_lock d' \<and>
    outq (dd_net d') (sv_sd srv) = outq (dd_net d) (sv_sd srv) @ ?a2 \<and>
    dir_find_node (dd_heap d') ?p True = Inr (Some n) \<and> nd_fileserv (dd_heap d' ! n) = Some k"
    using serve_round_create [of "d\<lparr>dd_net := deliver (sv_sd srv) ?q2 (dd_net d)\<rparr>" srv "rnd 0" "fs_fsid s"
        "fs_sid s" ?fi "inq (dd_net d) (sv_sd srv)" k p nm jd]
      path_info_ask(3) [of ?p "ci_user info" "rnd 0" "fs_fsid s" "fs_sid s"] str path dirserver alive(4) nm server(4) ids
    by (auto simp: created_def namable_def)
  from cli srv dir show ?thesis by blast
qed

lemma read_exchange:
  assumes ids: "fc_sid c = fs_sid s" "fc_fsid c = fs_fsid s" "fc_cid c = ci_id info"
    and server: "i < length (fs_clients s)" "info = fs_clients s ! i" "ci_sd info \<noteq> ci_datasd info"
      "hs_files (fs_host s) (local_path (fs_dataloc s) path) = Some content"
    and path: "length path < 2 ^ 29" "0 \<notin> set path"
    and data: "concat pieces = content" "int (length content) \<le> SENDFILE_MAX"
      "concat (inq (fc_net c) (fc_datasd c)) = []" "csd \<noteq> fc_datasd c" "csd \<noteq> 1"
    and alive: "out_ok (fc_net c) csd" "out_ok (fs_net s) (ci_sd info)" "out_ok (fs_net s) (ci_datasd info)"
    and complete: "whole (out_wr (fs_net s) (ci_datasd info))" "whole (out_wr (fc_net c) 1)"
  shows "\<exists>q a c' s'.
    fap_read_file jc csd t path
        (c\<lparr>fc_net := deliver csd a (deliver_pieces (fc_datasd c) pieces (fc_net c))\<rparr>) = Inr (0, c') \<and>
    outq (fc_net c') csd = outq (fc_net c) csd @ q \<and>
    serve_client_round js connect rnd i (s\<lparr>fs_net := deliver (ci_sd info) q (fs_net s)\<rparr>) = Inr (True, s') \<and>
    outq (fs_net s') (ci_sd info) = outq (fs_net s) (ci_sd info) @ a \<and>
    outq (fs_net s') (ci_datasd info) = outq (fs_net s) (ci_datasd info) @ concat pieces \<and>
    outq (fc_net c') 1 = outq (fc_net c) 1 @ content \<and>
    concat (inq (fc_net c') (fc_datasd c)) = [] \<and> fs_host s' = fs_host s"
proof -
  let ?q = "wire FAP (fap_msg t (fs_sid s) (ci_id info) (fs_fsid s) (FRead path 0 0))"
  let ?a = "wire FAP (fap_msg t (fs_sid s) (ci_id info) (fs_fsid s) (FDataout (of_nat (length content))))"
  have size: "length content < 2 ^ 31" using data(2) by (simp add: SENDFILE_MAX_def)
  have sendfile: "sendfile_bytes (ci_datasd info) content (deliver (ci_sd info) ?q (fs_net s)) = content"
    using sendfile_whole [of "deliver (ci_sd info) ?q (fs_net s)"] complete(1) data(2) alive(3) by simp
  have cli: "\<exists>c'. fap_read_file jc csd t path
        (c\<lparr>fc_net := deliver csd ?a (deliver_pieces (fc_datasd c) pieces (fc_net c))\<rparr>) = Inr (0, c') \<and>
    outq (fc_net c') 1 = outq (fc_net c) 1 @ content \<and> concat (inq (fc_net c') (fc_datasd c)) = [] \<and>
    outq (fc_net c') csd = outq (fc_net c) csd @ ?q"
    using fap_read_answered [OF path(1), of
        "c\<lparr>fc_net := deliver csd ?a (deliver_pieces (fc_datasd c) pieces (fc_net c))\<rparr>" csd content t
        "inq (fc_net c) csd" jc] data(1,3-5) size alive(1) ids complete(2) by simp
  have srv: "\<exists>s'. serve_client_round js connect rnd i
        (s\<lparr>fs_net := deliver (ci_sd info) ?q (fs_net s)\<rparr>) = Inr (True, s') \<and> fs_host s' = fs_host s \<and>
    outq (fs_net s') (ci_sd info) = outq (fs_net s) (ci_sd info) @ ?a \<and>
    outq (fs_net s') (ci_datasd info) = outq (fs_net s) (ci_datasd info) @ content"
    using serve_read_local [of i "s\<lparr>fs_net := deliver (ci_sd info) ?q (fs_net s)\<rparr>" info t "fs_sid s"
        "ci_id info" "fs_fsid s" path 0 0 "inq (fs_net s) (ci_sd info)" content js connect rnd]
      server path alive sendfile by simp
  from cli srv data(1) show ?thesis by blast
qed

lemma write_exchange:
  assumes ids: "fc_sid c = fs_sid s" "fc_fsid c = fs_fsid s" "fc_cid c = ci_id info"
      "sv_id srv = fs_sid s" "fs_fsid s = dird_fsid"
    and server: "i < length (fs_clients s)" "info = fs_clients s ! i"
      "distinct [ci_sd info, ci_datasd info, fs_dssd s]" "namable (ci_user info)"
      "open_create (fs_host s) (local_path (fs_dataloc s) path) = Some hs" "inq (fs_net s) (fs_dssd s) = []"
    and dirserver: "k < length (dd_servers d)" "srv = dd_servers d ! k"
      "represents (dd_heap d) tr" "aname tr = [slash]"
    and path: "length path < 256" "0 \<notin> set path" "path \<noteq> []"
    and data: "concat pieces = content" "length content < 2 ^ 31"
      "concat (inq (fs_net s) (ci_datasd info)) = []" "csd \<noteq> fc_datasd c"
    and alive: "out_ok (fc_net c) csd" "out_ok (fc_net c) (fc_datasd c)" "out_ok (fs_net s) (ci_sd info)"
      "out_ok (fs_net s) (fs_dssd s)" "out_ok (dd_net d) (sv_sd srv)" "whole (hs_wr hs)"
  shows "\<exists>q1 q2 a2 a1 c' s'.
    fap_write_file jc csd t path content (c\<lparr>fc_net := deliver csd a1 (fc_net c)\<rparr>) = Inr (0, c') \<and>
    outq (fc_net c') csd = outq (fc_net c) csd @ q1 \<and>
    outq (fc_net c') (fc_datasd c) = outq (fc_net c) (fc_datasd c) @ concat pieces \<and>
    serve_client_round js connect rnd i (s\<lparr>fs_net := deliver (ci_sd info) q1 (deliver (fs_dssd s) a2
        (deliver_pieces (ci_datasd info) pieces (fs_net s)))\<rparr>) = Inr (True, s') \<and>
    outq (fs_net s') (fs_dssd s) = outq (fs_net s) (fs_dssd s) @ q2 \<and>
    outq (fs_net s') (ci_sd info) = outq (fs_net s) (ci_sd info) @ a1 \<and>
    fs_host s' = write_start hs (local_path (fs_dataloc s) path) content \<and>
    (if fresh_pad jd = 0
     then \<exists>d'. serve_fileserver_round jd k (d\<lparr>dd_net := deliver (sv_sd srv) q2 (dd_net d)\<rparr>) = Inr (True, d') \<and>
       outq (dd_net d') (sv_sd srv) = outq (dd_net d) (sv_sd srv) @ a2 \<and>
       dd_heap d' = set_fileserv (dd_heap d) dirroot (Some k)
     else serve_fileserver_round jd k (d\<lparr>dd_net := deliver (sv_sd srv) q2 (dd_net d)\<rparr>) =
         Inl (Fault OutOfBounds) \<and>
       (\<exists>s''. serve_client_round js connect rnd i (s\<lparr>fs_net := deliver (ci_sd info) q1
            (deliver_pieces (ci_datasd info) pieces (fs_net s))\<rparr>) = Inr (True, s'') \<and>
          outq (fs_net s'') (ci_sd info) = outq (fs_net s) (ci_sd info) \<and> fs_host s'' = fs_host s))"
proof -
  let ?f = "name_info [slash]" and ?n = "of_nat (length content) :: u32"
  let ?fi = "path_info path (ci_user info)"
  let ?q1 = "wire FAP (fap_msg t (fs_sid s) (ci_id info) (fs_fsid s) (FWrite path ?n))"
  let ?q2 = "wire DCP (dcp_msg (rnd 0) (fs_fsid s) (fs_sid s) (DUpdate ?fi))"
  let ?a2 = "wire DCP (dcp_msg (rnd 0) (fs_sid s) (fs_fsid s) (DFileinfos 1 [?f]))"
  let ?a1 = "wire FAP (fap_msg t (fs_sid s) (ci_id info) (fs_fsid s) FOk)"
  let ?sp = "deliver_pieces (ci_datasd info) pieces (fs_net s)"
  let ?sn = "deliver (ci_sd info) ?q1 (deliver (fs_dssd s) ?a2 ?sp)"
  let ?d = "d\<lparr>dd_net := deliver (sv_sd srv) ?q2 (dd_net d)\<rparr>"
  have len: "length path < 2 ^ 29" using path(1) by simp
  have user: "length (ci_user info) \<le> 255" "ci_user info \<noteq> []" using server(4) by (simp_all add: namable_def)
  have "fi_receivable ?f" "length (fi_path ?f) + length (fi_username ?f) < 2 ^ 29"
    by (simp_all add: name_info_receivable) (simp add: name_info_def)
  note fit = listing_fits(1) [OF one_info_complete [OF this]]
  have cli: "\<exists>c'. fap_write_file jc csd t path content (c\<lparr>fc_net := deliver csd ?a1 (fc_net c)\<rparr>) = Inr (0, c') \<and>
    outq (fc_net c') csd = outq (fc_net c) csd @ ?q1 \<and>
    outq (fc_net c') (fc_datasd c) = outq (fc_net c) (fc_datasd c) @ content"
    using fap_write_answered [OF len, of "c\<lparr>fc_net := deliver csd ?a1 (fc_net c)\<rparr>" csd t
        "inq (fc_net c) csd" jc content] data(4) alive ids by auto
  have srv: "\<exists>s'. serve_client_round js connect rnd i (s\<lparr>fs_net := ?sn\<rparr>) = Inr (True, s') \<and>
    fs_host s' = write_start hs (local_path (fs_dataloc s) path) content \<and>
    outq (fs_net s') (fs_dssd s) = outq (fs_net s) (fs_dssd s) @ ?q2 \<and>
    outq (fs_net s') (ci_sd info) = outq (fs_net s) (ci_sd info) @ ?a1"
    using serve_write_answers [of i "s\<lparr>fs_net := ?sn\<rparr>" info t "fs_sid s" "ci_id info" "fs_fsid s" path content
        "inq (fs_net s) (ci_sd info)" rnd ?f "inq (fs_net s) (fs_dssd s)" hs js connect]
      server user path len data fit alive by simp
  have lost: "\<exists>s''. serve_client_round js connect rnd i (s\<lparr>fs_net := deliver (ci_sd info) ?q1 ?sp\<rparr>) = Inr (True, s'') \<and>
    outq (fs_net s'') (ci_sd info) = outq (fs_net s) (ci_sd info) \<and> fs_host s'' = fs_host s"
    using serve_write_unanswered [of i "s\<lparr>fs_net := deliver (ci_sd info) ?q1 ?sp\<rparr>" info t "fs_sid s" "ci_id info"
        "fs_fsid s" path ?n "inq (fs_net s) (ci_sd info)" js connect rnd] server user path len alive(4) by auto
  note upd = serve_round_update [of ?d srv "rnd 0" "fs_fsid s" "fs_sid s" ?fi "inq (dd_net d) (sv_sd srv)" k tr jd]
  have "complete_msg DCP (dcp_msg (rnd 0) (fs_fsid s) (fs_sid s) (DUpdate ?fi))"
    by (rule path_info_ask(4) [OF len user(1) path(3) user(2)])
  note upd = upd [OF _ this _ _ _ _ dirserver(4)]
  have dir: "if fresh_pad jd = 0
    then \<exists>d'. serve_fileserver_round jd k ?d = Inr (True, d') \<and>
      outq (dd_net d') (sv_sd srv) = outq (dd_net d) (sv_sd srv) @ ?a2 \<and>
      dd_heap d' = set_fileserv (dd_heap d) dirroot (Some k)
    else serve_fileserver_round jd k ?d = Inl (Fault OutOfBounds)"
    using upd dirserver alive(5) ids path by (auto simp: created_def path_info_def)
  have "\<exists>a2. (\<exists>a1 c' s'.
    fap_write_file jc csd t path content (c\<lparr>fc_net := deliver csd a1 (fc_net c)\<rparr>) = Inr (0, c') \<and>
    outq (fc_net c') csd = outq (fc_net c) csd @ ?q1 \<and>
    outq (fc_net c') (fc_datasd c) = outq (fc_net c) (fc_datasd c) @ concat pieces \<and>
    serve_client_round js connect rnd i
      (s\<lparr>fs_net := deliver (ci_sd info) ?q1 (deliver (fs_dssd s) a2 ?sp)\<rparr>) = Inr (True, s') \<and>
    outq (fs_net s') (fs_dssd s) = outq (fs_net s) (fs_dssd s) @ ?q2 \<and>
    outq (fs_net s') (ci_sd info) = outq (fs_net s) (ci_sd info) @ a1 \<and>
    fs_host s' = write_start hs (local_path (fs_dataloc s) path) content) \<and> a2 = ?a2"
    using cli srv data(1) by blast
  with dir lost show ?thesis by (cases "fresh_pad jd = 0") (simp; blast)+
qed

section \<open>Properties of the system\<close>

text \<open>
  C1. Listing, end to end. A client lists a directory through a file server and the directory
  server. When the three processes know each other by the ids of their handshakes, there are the
  bytes of a complete exchange between them: the command the client writes reaches the file server,
  whose request reaches the directory server, whose answer reaches the file server, whose answer
  reaches the client; every process completes its part, the tree is unchanged, and the client's
  \<open>fap_list\<close> returns the number and the names of the directory's children, in their order.
\<close>

theorem client_lists_directory:
  assumes "fc_sid c = fs_sid s" and "fc_fsid c = fs_fsid s" and "fc_cid c = ci_id info"
    and "sv_id srv = fs_sid s" and "fs_fsid s = dird_fsid"
    and "i < length (fs_clients s)" and "info = fs_clients s ! i" and "ci_sd info \<noteq> fs_dssd s"
    and "k < length (dd_servers d)" and "srv = dd_servers d ! k" and "\<not> dd_lock d"
    and "represents (dd_heap d) tr" and "alookup tr (levels dir) = Some kd"
    and "\<forall>x\<in>set (akids kd). namable (aname x)" and "length (akids kd) < 2 ^ 20"
    and "length dir < 2 ^ 29" and "0 \<notin> set dir"
    and "out_ok (fc_net c) csd" and "out_ok (fs_net s) (ci_sd info)" and "out_ok (fs_net s) (fs_dssd s)"
    and "out_ok (dd_net d) (sv_sd srv)"
  shows "\<exists>q1 q2 a2 a1 c' s' d' files.
    fap_list jc csd t r dir (c\<lparr>fc_net := deliver csd a1 (fc_net c)\<rparr>) =
      Inr (int (length (akids kd)), files, c') \<and>
    outq (fc_net c') csd = outq (fc_net c) csd @ q1 \<and>
    serve_client_round js connect rnd i
        (s\<lparr>fs_net := deliver (ci_sd info) q1 (deliver (fs_dssd s) a2 (fs_net s))\<rparr>) = Inr (True, s') \<and>
    outq (fs_net s') (fs_dssd s) = outq (fs_net s) (fs_dssd s) @ q2 \<and>
    outq (fs_net s') (ci_sd info) = outq (fs_net s) (ci_sd info) @ a1 \<and>
    serve_fileserver_round jd k (d\<lparr>dd_net := deliver (sv_sd srv) q2 (dd_net d)\<rparr>) = Inr (True, d') \<and>
    outq (dd_net d') (sv_sd srv) = outq (dd_net d) (sv_sd srv) @ a2 \<and>
    dd_heap d' = dd_heap d \<and> map fi_path files = map aname (akids kd)"
  using assms by (rule list_exchange)

text \<open>The three processes after their handshakes, for concrete runs.\<close>

definition sys_client :: fapcli where
  "sys_client = \<lparr>fc_sid = 1, fc_fsid = dird_fsid, fc_cid = 2, fc_datasd = 4, fc_server = [], fc_net = idle_net\<rparr>"

definition sys_server :: fsrv where
  "sys_server = (one_client idle_net)\<lparr>fs_fsid := dird_fsid\<rparr>"

definition sys_dird :: dird where
  "sys_dird = (dird_start idle_net)\<lparr>dd_heap := one_file, dd_servers := [no_server\<lparr>sv_id := 1, sv_sd := 7\<rparr>]\<rparr>"

lemma sys_simps [simp]:
  "fc_sid sys_client = 1" "fc_fsid sys_client = dird_fsid" "fc_cid sys_client = 2" "fc_net sys_client = idle_net"
  "fs_sid sys_server = 1" "fs_fsid sys_server = dird_fsid" "fs_dssd sys_server = 4" "fs_net sys_server = idle_net"
  "fs_clients sys_server = [no_client\<lparr>ci_id := 2, ci_sd := 5, ci_datasd := 6, ci_user := cstr ''me''\<rparr>]"
  "fs_dataloc sys_server = cstr ''/d''" "fs_host sys_server = fs_host (one_client idle_net)"
  "dd_heap sys_dird = one_file" "dd_servers sys_dird = [no_server\<lparr>sv_id := 1, sv_sd := 7\<rparr>]"
  "\<not> dd_lock sys_dird" "dd_net sys_dird = idle_net"
  by (simp_all add: sys_client_def sys_server_def sys_dird_def one_client_def)

definition sys_info :: client_info where
  "sys_info = no_client\<lparr>ci_id := 2, ci_sd := 5, ci_datasd := 6, ci_user := cstr ''me''\<rparr>"

definition sys_srv :: fileserv_info where
  "sys_srv = no_server\<lparr>sv_id := 1, sv_sd := 7\<rparr>"

lemma sys_links:
  "fc_sid sys_client = fs_sid sys_server" "fc_fsid sys_client = fs_fsid sys_server"
  "fc_cid sys_client = ci_id sys_info" "sv_id sys_srv = fs_sid sys_server" "fs_fsid sys_server = dird_fsid"
  "0 < length (fs_clients sys_server)" "sys_info = fs_clients sys_server ! 0"
  "ci_sd sys_info \<noteq> fs_dssd sys_server"
  "0 < length (dd_servers sys_dird)" "sys_srv = dd_servers sys_dird ! 0" "\<not> dd_lock sys_dird"
  "out_ok (fc_net sys_client) sd" "out_ok (fs_net sys_server) sd" "out_ok (dd_net sys_dird) sd"
  by (simp_all add: sys_info_def sys_srv_def)

theorem client_lists_directory_witness:
  "\<exists>a1 c' files. fap_list (\<lambda>_. 0) 3 9 0 (cstr ''/'') (sys_client\<lparr>fc_net := deliver 3 a1 (fc_net sys_client)\<rparr>) =
     Inr (int 1, files, c') \<and> map fi_path files = [cstr ''a'']"
proof -
  let ?t = "ANode dirroot [slash] None [ANode 1 (cstr ''a'') (Some 0) []]"
  have "levels (cstr ''/'') = []" by (simp add: levels.simps strtok_slash_def)
  then have l: "alookup ?t (levels (cstr ''/'')) = Some ?t" by simp
  have r: "represents (dd_heap sys_dird) ?t" by (simp only: sys_simps one_file_represents)
  have n: "\<forall>x\<in>set (akids ?t). namable (aname x)" "length (akids ?t) < 2 ^ 20"
    "length (cstr ''/'') < 2 ^ 29" "0 \<notin> set (cstr ''/'')"
    by (simp_all add: namable_def)
  have "map aname (akids ?t) = [cstr ''a'']" "length (akids ?t) = 1" by simp_all
  with client_lists_directory [where csd = 3 and jc = "\<lambda>_. 0" and t = 9 and js = "\<lambda>_. 0" and connect = "\<lambda>_. -1"
      and rnd = "\<lambda>_. 9" and jd = "\<lambda>_. 0" and r = 0,
      OF sys_links(1-11) r l n sys_links(12,13,13,14)]
  show ?thesis by metis
qed

text \<open>
  C2. Creation, end to end. A client creates a file below a directory that exists, under a path that
  does not. There are the bytes of a complete exchange between the three processes in which
  \<open>fap_create\<close> reports success, the file server has created the local file, and in the directory the
  path is found from then on, with the client's file server as its holder.
\<close>

theorem client_creates_file:
  assumes "fc_sid c = fs_sid s" and "fc_fsid c = fs_fsid s" and "fc_cid c = ci_id info"
    and "sv_id srv = fs_sid s" and "fs_fsid s = dird_fsid"
    and "i < length (fs_clients s)" and "info = fs_clients s ! i" and "ci_sd info \<noteq> fs_dssd s"
    and "namable (ci_user info)"
    and "open_create (fs_host s) (local_path (fs_dataloc s) (path_of p nm)) = Some hs"
    and "k < length (dd_servers d)" and "srv = dd_servers d ! k" and "\<not> dd_lock d"
    and "dir_ok (dd_heap d)" and "dir_find_node (dd_heap d) p True \<noteq> Inr None"
    and "dir_find_node (dd_heap d) (path_of p nm) True = Inr None"
    and "length (path_of p nm) < 2 ^ 29" and "0 \<notin> set (path_of p nm)" and "base_name nm" and "length nm \<le> 255"
    and "out_ok (fc_net c) csd" and "out_ok (fs_net s) (ci_sd info)" and "out_ok (fs_net s) (fs_dssd s)"
    and "out_ok (dd_net d) (sv_sd srv)"
  shows "\<exists>q1 q2 a2 a1 c' s' d' n.
    fap_create jc csd t (path_of p nm) (c\<lparr>fc_net := deliver csd a1 (fc_net c)\<rparr>) = Inr (0, c') \<and>
    outq (fc_net c') csd = outq (fc_net c) csd @ q1 \<and>
    serve_client_round js connect rnd i
        (s\<lparr>fs_net := deliver (ci_sd info) q1 (deliver (fs_dssd s) a2 (fs_net s))\<rparr>) = Inr (True, s') \<and>
    outq (fs_net s') (fs_dssd s) = outq (fs_net s) (fs_dssd s) @ q2 \<and>
    outq (fs_net s') (ci_sd info) = outq (fs_net s) (ci_sd info) @ a1 \<and> fs_host s' = hs \<and>
    serve_fileserver_round jd k (d\<lparr>dd_net := deliver (sv_sd srv) q2 (dd_net d)\<rparr>) = Inr (True, d') \<and>
    outq (dd_net d') (sv_sd srv) = outq (dd_net d) (sv_sd srv) @ a2 \<and> \<not> dd_lock d' \<and>
    dir_find_node (dd_heap d') (path_of p nm) True = Inr (Some n) \<and> nd_fileserv (dd_heap d' ! n) = Some k"
  using assms by (rule create_exchange)

theorem client_creates_file_witness:
  "\<exists>a1 c'. fap_create (\<lambda>_. 0) 3 9 (path_of [] (cstr ''b'')) (sys_client\<lparr>fc_net := deliver 3 a1 (fc_net sys_client)\<rparr>) =
     Inr (0, c')"
proof -
  have f: "dir_find_node (dd_heap sys_dird) [] True \<noteq> Inr None"
      "dir_find_node (dd_heap sys_dird) (path_of [] (cstr ''b'')) True = Inr None"
    by (simp_all add: dir_find_node_tree(1) [OF one_file_represents] levels_top kid_def base_name_def path_of_def)
  have d: "dir_ok (dd_heap sys_dird)" using one_file_represents by (auto simp: dir_ok_def)
  obtain hs where o: "open_create (fs_host sys_server)
      (local_path (fs_dataloc sys_server) (path_of [] (cstr ''b''))) = Some hs"
    by (simp add: one_client_def local_path_def open_create_def path_of_def)
  have n: "namable (ci_user sys_info)" "length (path_of [] (cstr ''b'')) < 2 ^ 29"
    "0 \<notin> set (path_of [] (cstr ''b''))" "base_name (cstr ''b'')" "length (cstr ''b'') \<le> 255"
    by (simp_all add: namable_def sys_info_def path_of_def base_name_def)
  show ?thesis
    using client_creates_file [where csd = 3 and jc = "\<lambda>_. 0" and t = 9 and js = "\<lambda>_. 0" and connect = "\<lambda>_. -1"
      and rnd = "\<lambda>_. 9" and jd = "\<lambda>_. 0",
      OF sys_links(1-8) n(1) o sys_links(9-11) d f n(2-5) sys_links(12,13,13,14)] by blast
qed

text \<open>
  C3. Reading, end to end. A client reads a file that its file server has. There are the bytes of a
  complete exchange in which the file server answers the command and writes the content to the data
  connection; in whatever pieces that arrives, \<open>fap_read_file\<close> ends, reports success, has copied
  exactly the content to the standard output, and leaves the data connection empty for the next
  command.
\<close>

theorem client_reads_file:
  assumes "fc_sid c = fs_sid s" and "fc_fsid c = fs_fsid s" and "fc_cid c = ci_id info"
    and "i < length (fs_clients s)" and "info = fs_clients s ! i" and "ci_sd info \<noteq> ci_datasd info"
    and "hs_files (fs_host s) (local_path (fs_dataloc s) path) = Some content"
    and "length path < 2 ^ 29" and "0 \<notin> set path"
    and "concat pieces = content" and "int (length content) \<le> SENDFILE_MAX"
    and "concat (inq (fc_net c) (fc_datasd c)) = []" and "csd \<noteq> fc_datasd c" and "csd \<noteq> 1"
    and "out_ok (fc_net c) csd" and "out_ok (fs_net s) (ci_sd info)" and "out_ok (fs_net s) (ci_datasd info)"
    and "whole (out_wr (fs_net s) (ci_datasd info))" and "whole (out_wr (fc_net c) 1)"
  shows "\<exists>q a c' s'.
    fap_read_file jc csd t path
        (c\<lparr>fc_net := deliver csd a (deliver_pieces (fc_datasd c) pieces (fc_net c))\<rparr>) = Inr (0, c') \<and>
    outq (fc_net c') csd = outq (fc_net c) csd @ q \<and>
    serve_client_round js connect rnd i (s\<lparr>fs_net := deliver (ci_sd info) q (fs_net s)\<rparr>) = Inr (True, s') \<and>
    outq (fs_net s') (ci_sd info) = outq (fs_net s) (ci_sd info) @ a \<and>
    outq (fs_net s') (ci_datasd info) = outq (fs_net s) (ci_datasd info) @ concat pieces \<and>
    outq (fc_net c') 1 = outq (fc_net c) 1 @ content \<and>
    concat (inq (fc_net c') (fc_datasd c)) = [] \<and> fs_host s' = fs_host s"
  using assms by (rule read_exchange)

theorem client_reads_file_witness:
  "\<exists>a c'. fap_read_file (\<lambda>_. 0) 3 9 (cstr ''/a'') (sys_client\<lparr>fc_net :=
       deliver 3 a (deliver_pieces 4 [cstr ''h'', cstr ''i''] (fc_net sys_client))\<rparr>) = Inr (0, c') \<and>
     outq (fc_net c') 1 = cstr ''hi''"
proof -
  have f: "hs_files (fs_host sys_server) (local_path (fs_dataloc sys_server) (cstr ''/a'')) = Some (cstr ''hi'')"
    by (simp add: one_client_def local_path_def)
  have d: "ci_sd sys_info \<noteq> ci_datasd sys_info" "fc_datasd sys_client = 4" "inq idle_net 4 = []"
      "outq idle_net 1 = []"
    by (simp_all add: sys_info_def sys_client_def idle_net_def)
  from d have r: "length (cstr ''/a'') < 2 ^ 29" "0 \<notin> set (cstr ''/a'')"
      "concat [cstr ''h'', cstr ''i''] = cstr ''hi''" 
      "concat (inq (fc_net sys_client) (fc_datasd sys_client)) = []" "3 \<noteq> fc_datasd sys_client" "(3 :: int) \<noteq> 1"
    by simp_all
  have s: "int (length (cstr ''hi'')) \<le> SENDFILE_MAX" "whole (out_wr (fs_net sys_server) (ci_datasd sys_info))"
      "whole (out_wr (fc_net sys_client) 1)"
    by (simp_all add: SENDFILE_MAX_def)
  from client_reads_file [where csd = 3 and jc = "\<lambda>_. 0" and t = 9 and js = "\<lambda>_. 0" and connect = "\<lambda>_. -1"
      and rnd = "\<lambda>_. 9", OF sys_links(1-3,6,7) d(1) f r(1-3) s(1) r(4-6) sys_links(12,13,13) s(2,3)] d(2,4)
  show ?thesis by auto
qed



end
